(* ===== verification/Prelude.thy ===== *)
theory Prelude
  imports Main "HOL-Library.Sublist"
begin

text \<open>
  Shared vocabulary of the development: Go's error values and results, nullable columns,
  state-passing calls, and the list lemmas (tables are lists of rows) that the component
  theories use.
\<close>


section \<open>Errors and results\<close>

text \<open>
  An error value of the program. \<open>MySQLError n m t\<close> is the driver's error with
  \<open>Number\<close> \<open>n\<close>, \<open>Message\<close> \<open>m\<close> and rendered text \<open>t\<close>; \<open>ErrText\<close> is any error
  known by its text only (those of libraries included); \<open>Wrapped p e\<close> is
  \<open>fmt.Errorf("p: %w", e)\<close>.
\<close>

datatype go_error =
    MySQLError nat string string
  | ErrNoRows
  | ErrNotAuthor
  | ErrEditsUnsupported
  | ErrOutboundPermanent
  | ErrText string
  | Wrapped string go_error

type_synonym 'a res = "go_error + 'a"

text \<open>\<open>errors.Is\<close> and \<open>errors.As\<close> walk the chain of wrapped errors.\<close>

fun errors_is :: "go_error \<Rightarrow> go_error \<Rightarrow> bool" where
  "errors_is (Wrapped p e) t = (Wrapped p e = t \<or> errors_is e t)"
| "errors_is e t = (e = t)"

fun as_mysql_error :: "go_error \<Rightarrow> (nat \<times> string) option" where
  "as_mysql_error (MySQLError n m _) = Some (n, m)"
| "as_mysql_error (Wrapped _ e) = as_mysql_error e"
| "as_mysql_error _ = None"

text \<open>\<open>err.Error()\<close>.\<close>

fun error_text :: "go_error \<Rightarrow> string" where
  "error_text (MySQLError _ _ t) = t"
| "error_text ErrNoRows = ''sql: no rows in result set''"
| "error_text ErrNotAuthor = ''message belongs to the other side''"
| "error_text ErrEditsUnsupported = ''schema has no edit columns''"
| "error_text ErrOutboundPermanent = ''outbound permanently failed''"
| "error_text (ErrText t) = t"
| "error_text (Wrapped p e) = p @ '': '' @ error_text e"

text \<open>The error of a call, as \<open>err != nil\<close> reads it.\<close>

fun err_of :: "'a res \<Rightarrow> go_error option" where
  "err_of (Inl e) = Some e"
| "err_of (Inr _) = None"

lemma err_of_None [simp]: "err_of r = None \<longleftrightarrow> (\<exists>x. r = Inr x)"
  by (cases r) auto

lemma err_of_Some [simp]: "err_of r = Some e \<longleftrightarrow> r = Inl e"
  by (cases r) auto

section \<open>Nullable strings\<close>

text \<open>
  \<open>sql.NullString\<close> is an option; reading \<open>.String\<close> of a NULL gives the empty string.
\<close>

definition null_str :: "string option \<Rightarrow> string" where
  "null_str v = (case v of None \<Rightarrow> '''' | Some s \<Rightarrow> s)"

definition nullString :: "string \<Rightarrow> string option" where
  "nullString s = (if s = '''' then None else Some s)"

definition coalesce :: "'a option \<Rightarrow> 'a option \<Rightarrow> 'a option" where
  "coalesce a b = (case a of None \<Rightarrow> b | Some x \<Rightarrow> Some x)"

lemma null_str_simps [simp]: "null_str None = ''''" "null_str (Some s) = s"
  by (simp_all add: null_str_def)

lemma null_str_nullString [simp]: "null_str (nullString s) = s"
  by (simp add: nullString_def)

lemma nullString_eq_None [simp]: "nullString s = None \<longleftrightarrow> s = ''''"
  by (simp add: nullString_def)

lemma coalesce_simps [simp]: "coalesce None b = b" "coalesce (Some x) b = Some x"
  by (simp_all add: coalesce_def)

lemma coalesce_self [simp]: "coalesce b b = b"
  by (cases b) auto

lemma coalesce_idem [simp]: "coalesce (coalesce a b) b = coalesce a b"
  by (cases a) auto

section \<open>Rows of a table\<close>

text \<open>
  A table is a list of rows. \<open>UPDATE ... SET f WHERE p\<close> rewrites the matching rows in
  place; a primary key is a key function whose values are distinct.
\<close>

definition update_where :: "('r \<Rightarrow> bool) \<Rightarrow> ('r \<Rightarrow> 'r) \<Rightarrow> 'r list \<Rightarrow> 'r list" where
  "update_where p f rs = map (\<lambda>r. if p r then f r else r) rs"

definition row_by :: "('r \<Rightarrow> 'k) \<Rightarrow> 'k \<Rightarrow> 'r list \<Rightarrow> 'r option" where
  "row_by key k rs = find (\<lambda>r. key r = k) rs"

lemma length_update_where [simp]: "length (update_where p f rs) = length rs"
  by (simp add: update_where_def)

lemma set_update_where:
  "set (update_where p f rs) = (\<lambda>r. if p r then f r else r) ` set rs"
  by (simp add: update_where_def)

lemma map_key_update_where:
  assumes "\<And>r. r \<in> set rs \<Longrightarrow> p r \<Longrightarrow> key (f r) = key r"
  shows "map key (update_where p f rs) = map key rs"
  using assms by (auto simp: update_where_def)

lemma update_where_none: "(\<And>r. r \<in> set rs \<Longrightarrow> \<not> p r) \<Longrightarrow> update_where p f rs = rs"
  unfolding update_where_def by (induction rs) auto

lemma row_by_update_where:
  assumes "\<And>r. r \<in> set rs \<Longrightarrow> p r \<Longrightarrow> key (f r) = key r"
  shows "row_by key k (update_where p f rs) =
    map_option (\<lambda>r. if p r then f r else r) (row_by key k rs)"
  using assms by (induction rs) (auto simp: row_by_def update_where_def)

lemma row_by_Some_in: "row_by key k rs = Some r \<Longrightarrow> r \<in> set rs \<and> key r = k"
  by (auto simp: row_by_def find_Some_iff)

lemma row_by_None_iff: "row_by key k rs = None \<longleftrightarrow> k \<notin> key ` set rs"
  by (auto simp: row_by_def find_None_iff)

lemma row_by_distinct:
  "distinct (map key rs) \<Longrightarrow> r \<in> set rs \<Longrightarrow> row_by key (key r) rs = Some r"
  by (induction rs) (auto simp: row_by_def)

lemma row_by_append:
  "row_by key k (rs @ ss) = (case row_by key k rs of Some r \<Rightarrow> Some r | None \<Rightarrow> row_by key k ss)"
  by (induction rs) (auto simp: row_by_def)

lemma row_by_Cons [simp]:
  "row_by key k (r # rs) = (if key r = k then Some r else row_by key k rs)"
  by (simp add: row_by_def)

lemma row_by_Nil [simp]: "row_by key k [] = None"
  by (simp add: row_by_def)

end
