(* ===== verification/GoText.thy ===== *)
theory GoText
  imports Prelude
begin

text \<open>
  Go strings are byte strings: \<^typ>\<open>string\<close> with one \<^typ>\<open>char\<close> per byte. This theory holds
  Go's UTF-8 decoding (package \<open>unicode/utf8\<close>, \<open>range\<close> over a string, conversions to
  \<open>[]rune\<close>) and the text helpers of the program built on it: \<open>truncateRunes\<close>,
  \<open>truncate\<close> and \<open>asciiOnly\<close> of \<open>internal/wabridge\<close>, \<open>clip\<close> of \<open>internal/store\<close>,
  \<open>quoteForLog\<close> of \<open>newchat.go\<close>.
\<close>

section \<open>UTF-8\<close>

definition byte :: "char \<Rightarrow> nat" where
  "byte c = of_char c"

definition cont_byte :: "char \<Rightarrow> bool" where
  "cont_byte c \<longleftrightarrow> 128 \<le> byte c \<and> byte c < 192"

text \<open>\<open>utf8.RuneStart\<close>.\<close>

definition rune_start :: "char \<Rightarrow> bool" where
  "rune_start c \<longleftrightarrow> \<not> cont_byte c"

text \<open>
  The number of bytes of the well-formed sequence at the head of a string, 0 when there is
  none (Go then yields \<open>utf8.RuneError\<close> for one byte). The second byte's range is the one
  that excludes overlong forms, surrogates and values above \<open>U+10FFFF\<close>.
\<close>

definition second_ok :: "nat \<Rightarrow> nat \<Rightarrow> bool" where
  "second_ok a b \<longleftrightarrow>
     (if a = 224 then 160 \<le> b \<and> b < 192
      else if a = 237 then 128 \<le> b \<and> b < 160
      else if a = 240 then 144 \<le> b \<and> b < 192
      else if a = 244 then 128 \<le> b \<and> b < 144
      else 128 \<le> b \<and> b < 192)"

fun seq_len :: "string \<Rightarrow> nat" where
  "seq_len [] = 0"
| "seq_len (a # s) =
     (if byte a < 128 then 1
      else if 194 \<le> byte a \<and> byte a < 224 then
        (case s of b # _ \<Rightarrow> if second_ok (byte a) (byte b) then 2 else 0 | _ \<Rightarrow> 0)
      else if 224 \<le> byte a \<and> byte a < 240 then
        (case s of b # c # _ \<Rightarrow>
           if second_ok (byte a) (byte b) \<and> cont_byte c then 3 else 0 | _ \<Rightarrow> 0)
      else if 240 \<le> byte a \<and> byte a < 245 then
        (case s of b # c # d # _ \<Rightarrow>
           if second_ok (byte a) (byte b) \<and> cont_byte c \<and> cont_byte d then 4 else 0 | _ \<Rightarrow> 0)
      else 0)"

text \<open>The bytes of each rune of a string, an ill-formed byte standing alone.\<close>

function chunks :: "string \<Rightarrow> string list" where
  "chunks [] = []"
| "chunks (c # s) =
     (let n = max 1 (seq_len (c # s)) in take n (c # s) # chunks (drop n (c # s)))"
  by pat_completeness auto
termination
  by (relation "measure length") (auto simp: Let_def)

text \<open>\<open>U+FFFD\<close> and the ellipsis in UTF-8.\<close>

definition rune_error :: string where
  "rune_error = [CHR 0xEF, CHR 0xBF, CHR 0xBD]"

definition ellipsis :: string where
  "ellipsis = [CHR 0xE2, CHR 0x80, CHR 0xA6]"

text \<open>
  \<open>[]rune(s)\<close>, each rune given by its own UTF-8 form: an ill-formed byte reads as
  \<open>U+FFFD\<close>. \<open>string(runes)\<close> is then \<^const>\<open>concat\<close>.
\<close>

definition runes :: "string \<Rightarrow> string list" where
  "runes s = map (\<lambda>k. if seq_len k = 0 then rune_error else k) (chunks s)"

definition valid_utf8 :: "string \<Rightarrow> bool" where
  "valid_utf8 s \<longleftrightarrow> list_all (\<lambda>k. seq_len k \<noteq> 0) (chunks s)"

section \<open>The text helpers\<close>

text \<open>\<open>truncateRunes\<close>: at most \<open>n\<close> characters, never inside a sequence.\<close>

definition truncateRunes :: "string \<Rightarrow> nat \<Rightarrow> string" where
  "truncateRunes s n = (if length (runes s) \<le> n then s else concat (take n (runes s)))"

text \<open>\<open>truncate\<close>: the same with an ellipsis, for the chat list.\<close>

definition truncate :: "string \<Rightarrow> nat \<Rightarrow> string" where
  "truncate s n = (if length (runes s) \<le> n then s else concat (take n (runes s)) @ ellipsis)"

text \<open>
  \<open>clip\<close>: at most \<open>n\<close> bytes. The loop moves the cut back while it points into a
  sequence; \<open>s[n]\<close> is in range there, because the string is longer than \<open>n\<close>.
\<close>

fun clip_at :: "string \<Rightarrow> nat \<Rightarrow> nat" where
  "clip_at s 0 = 0"
| "clip_at s (Suc n) = (if rune_start (s ! Suc n) then Suc n else clip_at s n)"

definition clip :: "string \<Rightarrow> nat \<Rightarrow> string" where
  "clip s n = (if length s \<le> n then s else take (clip_at s n) s)"

text \<open>\<open>asciiOnly\<close>: one question mark for every rune outside the printable ASCII range.\<close>

definition printable :: "string \<Rightarrow> bool" where
  "printable k \<longleftrightarrow> (case k of [c] \<Rightarrow> 32 \<le> byte c \<and> byte c \<le> 126 | _ \<Rightarrow> False)"

definition asciiOnly :: "string \<Rightarrow> string" where
  "asciiOnly s = concat (map (\<lambda>r. if printable r then r else ''?'') (runes s))"

text \<open>\<open>quoteForLog\<close>: a byte cut at 24, then three dots, between double quotes.\<close>

definition quoteForLog :: "string \<Rightarrow> string" where
  "quoteForLog s =
     [CHR 0x22] @ (if 24 < length s then take 24 s @ ''...'' else s) @ [CHR 0x22]"

section \<open>\<open>strings.TrimSpace\<close>\<close>

text \<open>The white space of Unicode, each as its UTF-8 sequence.\<close>

definition space_runes :: "string list" where
  "space_runes =
     map (\<lambda>n. [char_of (n::nat)]) [9, 10, 11, 12, 13, 32] @
     [[CHR 0xC2, CHR 0x85], [CHR 0xC2, CHR 0xA0], [CHR 0xE1, CHR 0x9A, CHR 0x80]] @
     map (\<lambda>n. [CHR 0xE2, CHR 0x80, char_of (n::nat)])
       [0x80, 0x81, 0x82, 0x83, 0x84, 0x85, 0x86, 0x87, 0x88, 0x89, 0x8A, 0xA8, 0xA9, 0xAF] @
     [[CHR 0xE2, CHR 0x81, CHR 0x9F], [CHR 0xE3, CHR 0x80, CHR 0x80]]"

definition is_space :: "string \<Rightarrow> bool" where
  "is_space k \<longleftrightarrow> k \<in> set space_runes"

definition trim_space :: "string \<Rightarrow> string" where
  "trim_space s = concat (rev (dropWhile is_space (rev (dropWhile is_space (chunks s)))))"

section \<open>Other functions of package \<open>strings\<close>\<close>

text \<open>\<open>strings.HasPrefix\<close>, \<open>TrimPrefix\<close>, \<open>Contains\<close>, \<open>TrimRight\<close> for one byte, \<open>Join\<close>.\<close>

definition has_prefix :: "string \<Rightarrow> string \<Rightarrow> bool" where
  "has_prefix s p \<longleftrightarrow> take (length p) s = p"

definition trim_prefix :: "string \<Rightarrow> string \<Rightarrow> string" where
  "trim_prefix s p = (if has_prefix s p then drop (length p) s else s)"

fun contains :: "string \<Rightarrow> string \<Rightarrow> bool" where
  "contains [] p = (p = [])"
| "contains (c # s) p = (has_prefix (c # s) p \<or> contains s p)"

definition trim_right :: "char \<Rightarrow> string \<Rightarrow> string" where
  "trim_right c s = rev (dropWhile (\<lambda>x. x = c) (rev s))"

fun join :: "string \<Rightarrow> string list \<Rightarrow> string" where
  "join sep [] = []"
| "join sep [s] = s"
| "join sep (s # t # ss) = s @ sep @ join sep (t # ss)"

fun split_at :: "char \<Rightarrow> string \<Rightarrow> string list" where
  "split_at c [] = [[]]"
| "split_at c (x # s) =
     (if x = c then [] # split_at c s
      else (case split_at c s of [] \<Rightarrow> [[x]] | t # ts \<Rightarrow> (x # t) # ts))"

section \<open>Well-formed sequences\<close>

definition wf_seq :: "string \<Rightarrow> bool" where
  "wf_seq k \<longleftrightarrow> seq_len k = length k \<and> k \<noteq> []"

lemma seq_len_le: "seq_len s \<le> length s"
  by (cases s) (auto split: list.splits)

lemma seq_len_le4: "seq_len s \<le> 4"
  by (cases s) (auto split: list.splits)

lemma seq_len_append: "seq_len s \<noteq> 0 \<Longrightarrow> seq_len (s @ t) = seq_len s"
  by (cases s) (auto split: list.splits if_splits)

lemma seq_len_take: "seq_len s \<noteq> 0 \<Longrightarrow> seq_len (take (seq_len s) s) = seq_len s"
  by (cases s) (auto split: list.splits if_splits)

lemma wf_seq_take: "seq_len s \<noteq> 0 \<Longrightarrow> wf_seq (take (seq_len s) s)"
  using seq_len_le [of s] by (auto simp: wf_seq_def seq_len_take min_def)

lemma second_ok_cont: "second_ok a b \<Longrightarrow> 128 \<le> b \<and> b < 192"
  by (auto simp: second_ok_def split: if_splits)

lemma wf_seq_tail_cont:
  assumes "wf_seq k" "0 < i" "i < length k"
  shows "cont_byte (k ! i)"
proof -
  obtain a s where k: "k = a # s" using assms by (cases k) auto
  have "\<forall>j < length s. cont_byte (s ! j)"
    using assms(1) unfolding wf_seq_def k
    by (auto split: if_splits list.splits simp: cont_byte_def less_Suc_eq dest: second_ok_cont)
  with assms(2,3) show ?thesis unfolding k by (cases i) auto
qed

lemma chunks_wf_append: "wf_seq k \<Longrightarrow> chunks (k @ t) = k # chunks t"
proof -
  assume wf: "wf_seq k"
  then obtain a s where k: "k = a # s" by (cases k) (auto simp: wf_seq_def)
  have "seq_len (k @ t) = length k"
    using wf seq_len_append [of k t] by (simp add: wf_seq_def)
  then have "seq_len (a # s @ t) = Suc (length s)" by (simp add: k)
  then show ?thesis by (simp add: k Let_def del: seq_len.simps)
qed

lemma chunks_concat: "\<forall>k \<in> set ks. wf_seq k \<Longrightarrow> chunks (concat ks) = ks"
  by (induction ks) (auto simp: chunks_wf_append)

lemma concat_chunks [simp]: "concat (chunks s) = s"
  by (induction s rule: chunks.induct) (auto simp: Let_def simp del: seq_len.simps)

lemma chunks_shape: "k \<in> set (chunks s) \<Longrightarrow> seq_len k = 0 \<and> length k = 1 \<or> wf_seq k"
proof (induction s rule: chunks.induct)
  case 1
  then show ?case by simp
next
  case (2 c s)
  show ?case
  proof (cases "seq_len (c # s) = 0")
    case True
    have one: "seq_len [c] = 0"
      using True by (cases "byte c < 128") (auto split: list.splits if_splits)
    with True 2 show ?thesis by (auto simp: Let_def simp del: seq_len.simps)
  next
    case False
    then have m: "max 1 (seq_len (c # s)) = seq_len (c # s)" by simp
    show ?thesis
      using 2 False wf_seq_take [of "c # s"] by (auto simp: m Let_def simp del: seq_len.simps)
  qed
qed

lemma rune_error_wf [simp]: "wf_seq rune_error"
  by (simp add: wf_seq_def rune_error_def byte_def second_ok_def cont_byte_def)

lemma ellipsis_wf [simp]: "wf_seq ellipsis"
  by (simp add: wf_seq_def ellipsis_def byte_def second_ok_def cont_byte_def)

lemma runes_wf: "r \<in> set (runes s) \<Longrightarrow> wf_seq r"
  by (auto simp: runes_def wf_seq_def split: if_splits dest: chunks_shape)
    (use rune_error_wf in \<open>auto simp: wf_seq_def\<close>)

lemma valid_utf8_iff: "valid_utf8 s \<longleftrightarrow> (\<forall>k \<in> set (chunks s). wf_seq k)"
  using chunks_shape by (fastforce simp: valid_utf8_def list_all_iff wf_seq_def)

lemma valid_utf8_concat: "\<forall>k \<in> set ks. wf_seq k \<Longrightarrow> valid_utf8 (concat ks)"
  by (simp add: valid_utf8_iff chunks_concat)

lemma valid_utf8_Nil [simp]: "valid_utf8 []"
  by (simp add: valid_utf8_def)

lemma valid_utf8_append: "valid_utf8 s \<Longrightarrow> valid_utf8 t \<Longrightarrow> valid_utf8 (s @ t)"
  using valid_utf8_concat [of "chunks s @ chunks t"] by (auto simp: valid_utf8_iff)

lemma runes_valid: "valid_utf8 s \<Longrightarrow> runes s = chunks s"
  unfolding runes_def by (rule map_idI) (auto simp: valid_utf8_def list_all_iff)

lemma runes_concat: "\<forall>k \<in> set ks. wf_seq k \<Longrightarrow> runes (concat ks) = ks"
  by (simp add: runes_valid valid_utf8_concat chunks_concat)

section \<open>Cutting text to a column\<close>

text \<open>
  What a column of bounded width needs from a cut: nothing happens to a text that fits, the
  result fits, and well-formed text stays well-formed (MySQL rejects invalid utf8mb4).
\<close>

locale column_cut =
  fixes cut :: "string \<Rightarrow> nat \<Rightarrow> string"
    and width :: "string \<Rightarrow> nat"
  assumes cut_fits: "width s \<le> n \<Longrightarrow> cut s n = s"
    and cut_width: "width (cut s n) \<le> n"
    and cut_valid: "valid_utf8 s \<Longrightarrow> valid_utf8 (cut s n)"
    and cut_prefix: "valid_utf8 s \<Longrightarrow> prefix (cut s n) s"
begin

lemma cut_twice: "cut (cut s n) n = cut s n"
  by (rule cut_fits) (rule cut_width)

lemma cut_narrower:
  assumes "m \<le> n"
  shows "cut (cut s m) n = cut s m"
  using assms cut_width [of s m] by (intro cut_fits) simp

lemma cut_storable: "valid_utf8 s \<Longrightarrow> valid_utf8 (cut s n) \<and> width (cut s n) \<le> n"
  by (simp add: cut_valid cut_width)

lemma cut_unchanged_iff: "cut s n = s \<longleftrightarrow> width s \<le> n"
  using cut_fits cut_width by metis

end

lemma runes_truncateRunes:
  "runes (truncateRunes s n) = take n (runes s)"
proof (cases "length (runes s) \<le> n")
  case True
  then show ?thesis by (simp add: truncateRunes_def)
next
  case False
  have "\<forall>k \<in> set (take n (runes s)). wf_seq k" by (auto dest: in_set_takeD runes_wf)
  with False show ?thesis by (simp add: truncateRunes_def runes_concat)
qed

lemma take_concat_prefix: "prefix (concat (take n ks)) (concat ks)"
  by (metis append_take_drop_id concat_append prefixI)

interpretation tr: column_cut truncateRunes "\<lambda>s. length (runes s)"
proof unfold_locales
  fix s :: string and n
  show "length (runes s) \<le> n \<Longrightarrow> truncateRunes s n = s" by (simp add: truncateRunes_def)
  show "length (runes (truncateRunes s n)) \<le> n" by (simp add: runes_truncateRunes)
  assume v: "valid_utf8 s"
  have "\<forall>k \<in> set (take n (runes s)). wf_seq k" by (auto dest: in_set_takeD runes_wf)
  with v show "valid_utf8 (truncateRunes s n)"
    by (simp add: truncateRunes_def valid_utf8_concat)
  show "prefix (truncateRunes s n) s"
    using take_concat_prefix [of n "chunks s"] by (simp add: truncateRunes_def runes_valid v)
qed

lemma clip_at_le: "clip_at s n \<le> n"
  by (induction n) (auto intro: le_SucI)

lemma clip_at_start: "clip_at s n = 0 \<or> rune_start (s ! clip_at s n)"
  by (induction n) auto

lemma clip_prefix: "prefix (clip s n) s"
  by (simp add: clip_def take_is_prefix)

lemma valid_utf8_take_start:
  "valid_utf8 s \<Longrightarrow> m < length s \<Longrightarrow> m = 0 \<or> rune_start (s ! m) \<Longrightarrow> valid_utf8 (take m s)"
proof (induction "chunks s" arbitrary: s m)
  case Nil
  then show ?case using concat_chunks [of s] by simp
next
  case (Cons k ks)
  have s: "s = k @ concat ks" using concat_chunks [of s] by (simp add: Cons.hyps(2) [symmetric])
  have wf: "wf_seq k" "\<forall>j \<in> set ks. wf_seq j"
    using Cons.prems(1) by (auto simp: valid_utf8_iff Cons.hyps(2) [symmetric])
  have rest: "valid_utf8 (take j (concat ks))"
    if "j < length (concat ks)" "j = 0 \<or> rune_start (concat ks ! j)" for j
    using Cons.hyps(1) [of "concat ks" j] that wf by (simp add: chunks_concat valid_utf8_concat)
  show ?case
  proof (cases "m < length k")
    case True
    with Cons.prems(3) wf_seq_tail_cont [OF wf(1)] have "m = 0"
      by (auto simp: s nth_append rune_start_def)
    then show ?thesis by simp
  next
    case False
    with Cons.prems(2,3) rest [of "m - length k"] have "valid_utf8 (take (m - length k) (concat ks))"
      by (auto simp: s nth_append)
    moreover have "valid_utf8 k" using valid_utf8_concat [of "[k]"] wf by simp
    ultimately show ?thesis using False by (simp add: s valid_utf8_append)
  qed
qed

lemma clip_valid: "valid_utf8 s \<Longrightarrow> valid_utf8 (clip s n)"
  using clip_at_le [of s n] clip_at_start [of s n]
  by (auto simp: clip_def intro!: valid_utf8_take_start)

interpretation cl: column_cut clip length
proof unfold_locales
  fix s :: string and n
  show "length s \<le> n \<Longrightarrow> clip s n = s" by (simp add: clip_def)
  show "length (clip s n) \<le> n" using clip_at_le [of s n] by (auto simp: clip_def)
qed (simp_all add: clip_valid clip_prefix)

end
