(* ===== verification/GoFloat.thy ===== *)
theory GoFloat
  imports Complex_Main GoText
begin

text \<open>
  The floating-point numbers of a location: \<open>float64\<close> values, \<open>strconv.ParseFloat\<close> and the
  verb \<open>%.6f\<close> of \<open>fmt\<close>. A finite value is its sign bit and its magnitude, an exact rational.
\<close>

section \<open>Values\<close>

datatype float64 =
    Finite bool rat
  | Infinite bool
  | NaN

definition float_zero :: float64 where
  "float_zero = Finite False 0"

text \<open>The value a comparison with a constant sees; a NaN has none.\<close>

fun signed :: "bool \<Rightarrow> rat \<Rightarrow> rat" where
  "signed neg q = (if neg then - q else q)"

section \<open>Decimal digits\<close>

definition digit_char :: "nat \<Rightarrow> char" where
  "digit_char d = char_of (48 + d)"

definition is_digit :: "char \<Rightarrow> bool" where
  "is_digit c \<longleftrightarrow> 48 \<le> byte c \<and> byte c \<le> 57"

definition digit_value :: "char \<Rightarrow> nat" where
  "digit_value c = byte c - 48"

text \<open>The last \<open>k\<close> digits of a number, and a number without leading zeros.\<close>

fun digits :: "nat \<Rightarrow> nat \<Rightarrow> string" where
  "digits 0 n = []"
| "digits (Suc k) n = digits k (n div 10) @ [digit_char (n mod 10)]"

fun decimal :: "nat \<Rightarrow> string" where
  "decimal n = (if n < 10 then [digit_char n] else decimal (n div 10) @ [digit_char (n mod 10)])"

declare decimal.simps [simp del]

definition number_of :: "string \<Rightarrow> nat" where
  "number_of s = foldl (\<lambda>n c. n * 10 + digit_value c) 0 s"

section \<open>Rounding\<close>

text \<open>The nearest integer, ties to even.\<close>

definition round_even :: "rat \<Rightarrow> int" where
  "round_even q =
     (let f = \<lfloor>q\<rfloor>; r = q - of_int f
      in if r < 1 / 2 then f else if 1 / 2 < r then f + 1 else if even f then f else f + 1)"

lemma round_even_error: "\<bar>of_int (round_even q) - q\<bar> \<le> 1 / 2"
proof -
  have "of_int \<lfloor>q\<rfloor> \<le> q" "q < of_int \<lfloor>q\<rfloor> + 1" by linarith+
  then show ?thesis by (auto simp: round_even_def Let_def abs_le_iff)
qed

lemma round_even_near:
  assumes "\<bar>q - of_int n\<bar> < 1 / 2"
  shows "round_even q = n"
proof -
  have "\<bar>of_int (round_even q) - (of_int n :: rat)\<bar> < 1"
    using round_even_error [of q] assms by linarith
  then have "\<bar>of_int (round_even q - n) :: rat\<bar> < 1" by simp
  then have "\<bar>round_even q - n\<bar> < 1"
    unfolding of_int_abs [symmetric] by (metis of_int_1 of_int_less_iff)
  then show ?thesis by simp
qed

text \<open>
  The nearest \<open>float64\<close> of a magnitude: 53 significant bits, never finer than \<open>2 ^ -1074\<close>.
  \<open>mantissa_bits q\<close> is the exponent of the unit in the last place.
\<close>

fun shift_up :: "nat \<Rightarrow> rat \<Rightarrow> nat \<Rightarrow> nat" where
  "shift_up 0 q k = k"
| "shift_up (Suc n) q k = (if q * 2 < 2 ^ 53 then shift_up n (q * 2) (Suc k) else k)"

definition ulp_shift :: "rat \<Rightarrow> nat" where
  "ulp_shift q = shift_up 1074 q 0"

definition round64 :: "rat \<Rightarrow> rat" where
  "round64 q = of_int (round_even (q * 2 ^ ulp_shift q)) / 2 ^ ulp_shift q"

text \<open>\<open>%.6f\<close>: the exact value rounded to six decimals, the sign kept even on a zero.\<close>

definition fixed6_magnitude :: "rat \<Rightarrow> string" where
  "fixed6_magnitude q =
     (let n = nat (round_even (q * 10 ^ 6))
      in decimal (n div 10 ^ 6) @ ''.'' @ digits 6 (n mod 10 ^ 6))"

fun fixed6 :: "float64 \<Rightarrow> string" where
  "fixed6 (Finite neg q) = (if neg then ''-'' else '''') @ fixed6_magnitude q"
| "fixed6 (Infinite neg) = (if neg then ''-Inf'' else ''+Inf'')"
| "fixed6 NaN = ''NaN''"

end
