(* ===== verification/Media.thy ===== *)
theory Media
  imports GoFloat
begin

text \<open>
  Package \<open>internal/media\<close>: files on the shared host (\<open>media.go\<close>), image thumbnails
  (\<open>thumbnail.go\<close>) and the preview of a PDF (\<open>pdf.go\<close>). The SFTP server is explicit: its
  files, and how its next answers turn out. What the machine provides (hashing, the MIME
  table, image codecs, poppler's two programs) and the media part of the configuration is
  the record \<open>host\<close>.
\<close>

section \<open>The machine\<close>

text \<open>
  \<open>sha256_hex\<close> is the hash in hexadecimal; \<open>unicode_lower\<close> the table behind
  \<open>strings.ToLower\<close> for one rune beyond ASCII; \<open>parse_authority\<close> is the host that \<open>net/url\<close>
  reads in the authority of a URL, \<open>None\<close> when it refuses it; \<open>image_size\<close> and \<open>scale_jpeg\<close>
  decode an image and encode it scaled to a size; \<open>temp_dir\<close> and \<open>temp_pdf\<close> make a temporary
  directory for a file and write it there, \<open>pdfinfo\<close> is what that program prints for it,
  \<open>pdftoppm\<close> the files it leaves, each as it can be read, or its error and error output.
\<close>

record host =
  remote_path :: string
  public_base_url :: string
  sha256_hex :: "string \<Rightarrow> string"
  mime_extensions :: "string \<Rightarrow> string list"
  parse_authority :: "string \<Rightarrow> string option"
  unicode_lower :: "string \<Rightarrow> string"
  image_size :: "string \<Rightarrow> (int \<times> int) res"
  scale_jpeg :: "string \<Rightarrow> int \<Rightarrow> int \<Rightarrow> string res"
  temp_dir :: "string \<Rightarrow> unit res"
  temp_pdf :: "string \<Rightarrow> unit res"
  pdfinfo :: "string \<Rightarrow> string res"
  pdftoppm :: "string \<Rightarrow> go_error \<times> string + string res list"

section \<open>Names\<close>

text \<open>\<open>strings.ToLower\<close> and \<open>path.Ext\<close>.\<close>

definition lower_rune :: "'h host_scheme \<Rightarrow> string \<Rightarrow> string" where
  "lower_rune h k =
     (case k of
        [c] \<Rightarrow> if 65 \<le> byte c \<and> byte c \<le> 90 then [char_of (byte c + 32)] else k
      | _ \<Rightarrow> unicode_lower h k)"

definition to_lower :: "'h host_scheme \<Rightarrow> string \<Rightarrow> string" where
  "to_lower h s = concat (map (lower_rune h) (runes s))"

definition path_ext :: "string \<Rightarrow> string" where
  "path_ext s =
     (let base = rev (takeWhile (\<lambda>c. c \<noteq> CHR ''/'') (rev s))
      in if CHR ''.'' \<in> set base
         then CHR ''.'' # rev (takeWhile (\<lambda>c. c \<noteq> CHR ''.'') (rev base)) else [])"

definition pickExtension :: "'h host_scheme \<Rightarrow> string \<Rightarrow> string \<Rightarrow> string" where
  "pickExtension h mimeType filename =
     (if filename \<noteq> '''' \<and> path_ext filename \<noteq> '''' then to_lower h (path_ext filename)
      else if mimeType = '''' then ''.bin''
      else if contains mimeType ''jpeg'' then ''.jpg''
      else if contains mimeType ''png'' then ''.png''
      else if contains mimeType ''webp'' then ''.webp''
      else if contains mimeType ''gif'' then ''.gif''
      else if contains mimeType ''pdf'' then ''.pdf''
      else if contains mimeType ''mp4'' then ''.mp4''
      else if contains mimeType ''ogg'' then ''.ogg''
      else (case mime_extensions h mimeType of [] \<Rightarrow> ''.bin'' | e # _ \<Rightarrow> to_lower h e))"

text \<open>\<open>path.Clean\<close> and \<open>path.Join\<close> of two elements.\<close>

fun clean_step :: "bool \<Rightarrow> string list \<Rightarrow> string \<Rightarrow> string list" where
  "clean_step rooted out seg =
     (if seg = '''' \<or> seg = ''.'' then out
      else if seg = ''..'' then
        (if out \<noteq> [] \<and> last out \<noteq> ''..'' then butlast out
         else if rooted then out else out @ [seg])
      else out @ [seg])"

definition path_clean :: "string \<Rightarrow> string" where
  "path_clean s =
     (let rooted = has_prefix s ''/'';
          segs = foldl (clean_step rooted) [] (split_at (CHR ''/'') s);
          body = join ''/'' segs
      in if rooted then CHR ''/'' # body else if segs = [] then ''.'' else body)"

definition path_join :: "string \<Rightarrow> string \<Rightarrow> string" where
  "path_join a b =
     (if a = '''' then (if b = '''' then '''' else path_clean b)
      else path_clean (if b = '''' then a else a @ ''/'' @ b))"

section \<open>URLs\<close>

text \<open>
  \<open>url.Parse\<close>, its \<open>Host\<close> and its decoded \<open>Path\<close>; \<open>None\<close> is an error. \<open>unescape\<close> is the
  percent decoding of a path (and \<open>url.PathUnescape\<close>).
\<close>

definition hex_value :: "char \<Rightarrow> nat option" where
  "hex_value c =
     (if is_digit c then Some (byte c - 48)
      else if 97 \<le> byte c \<and> byte c \<le> 102 then Some (byte c - 87)
      else if 65 \<le> byte c \<and> byte c \<le> 70 then Some (byte c - 55) else None)"

fun unescape :: "string \<Rightarrow> string option" where
  "unescape [] = Some []"
| "unescape (c # s) =
     (if c \<noteq> CHR ''%'' then map_option ((#) c) (unescape s)
      else
        (case s of
           a # b # t \<Rightarrow>
             (case (hex_value a, hex_value b) of
                (Some x, Some y) \<Rightarrow> map_option ((#) (char_of (x * 16 + y))) (unescape t)
              | _ \<Rightarrow> None)
         | _ \<Rightarrow> None))"

definition is_letter :: "char \<Rightarrow> bool" where
  "is_letter c \<longleftrightarrow> 97 \<le> byte c \<and> byte c \<le> 122 \<or> 65 \<le> byte c \<and> byte c \<le> 90"

text \<open>\<open>getScheme\<close>: whether there is a scheme, and the rest; \<open>None\<close> for a colon in front.\<close>

definition get_scheme :: "string \<Rightarrow> (bool \<times> string) option" where
  "get_scheme s =
     (let sch = takeWhile (\<lambda>c. is_letter c \<or> is_digit c \<or> c \<in> set ''+-.'') s;
          rest = drop (length sch) s
      in if sch \<noteq> '''' \<and> \<not> is_letter (hd sch) then Some (False, s)
         else if has_prefix rest '':'' then (if sch = '''' then None else Some (True, tl rest))
         else Some (False, s))"

definition before :: "char \<Rightarrow> string \<Rightarrow> string" where
  "before c s = takeWhile (\<lambda>x. x \<noteq> c) s"

definition url_parse :: "'h host_scheme \<Rightarrow> string \<Rightarrow> (string \<times> string) option" where
  "url_parse h raw =
     (let u = before (CHR ''#'') raw; frag = drop (Suc (length u)) raw
      in if list_ex (\<lambda>c. byte c < 32 \<or> byte c = 127) u \<or> unescape frag = None then None
         else if u = ''*'' then Some ('''', u)
         else
           (case get_scheme u of
              None \<Rightarrow> None
            | Some (scheme, rest) \<Rightarrow>
                (let rest = before (CHR ''?'') rest
                 in if \<not> has_prefix rest ''/'' \<and> scheme then Some ('''', '''')
                    else if \<not> has_prefix rest ''/'' \<and> CHR '':'' \<in> set (before (CHR ''/'') rest) then None
                    else if has_prefix rest ''//'' \<and> (scheme \<or> \<not> has_prefix rest ''///'') then
                      (let auth = before (CHR ''/'') (drop 2 rest)
                       in case parse_authority h auth of
                            None \<Rightarrow> None
                          | Some hst \<Rightarrow>
                              map_option (Pair hst) (unescape (drop (length auth) (drop 2 rest))))
                    else map_option (Pair '''') (unescape rest))))"

definition publicBasePath :: "'h host_scheme \<Rightarrow> string \<Rightarrow> string" where
  "publicBasePath h raw =
     (let base = trim_space raw
      in if base = '''' then ''/''
         else
           (case url_parse h base of
              Some (hst, p) \<Rightarrow>
                if hst \<noteq> '''' then (if p = '''' then ''/'' else p)
                else if CHR ''/'' \<in> set base then dropWhile (\<lambda>c. c \<noteq> CHR ''/'') base else ''/''
            | None \<Rightarrow>
                if CHR ''/'' \<in> set base then dropWhile (\<lambda>c. c \<noteq> CHR ''/'') base else ''/''))"

definition safe_name :: "string \<Rightarrow> bool" where
  "safe_name n \<longleftrightarrow>
     n \<noteq> '''' \<and> n \<noteq> ''.'' \<and> n \<noteq> ''..'' \<and> CHR ''/'' \<notin> set n \<and> CHR 0x5C \<notin> set n \<and> CHR 0x00 \<notin> set n"

definition BasenameFromPublicURL :: "'h host_scheme \<Rightarrow> string \<Rightarrow> string" where
  "BasenameFromPublicURL h raw =
     (let pre = trim_right (CHR ''/'') (publicBasePath h (public_base_url h)) @ ''/'';
          p = (case url_parse h raw of Some (_, q) \<Rightarrow> if q \<noteq> '''' then q else raw | None \<Rightarrow> raw)
      in if \<not> has_prefix p pre then ''''
         else
           (let name = trim_prefix p pre;
                name = (case unescape name of Some d \<Rightarrow> d | None \<Rightarrow> name)
            in if safe_name name then name else ''''))"

section \<open>The SFTP server\<close>

text \<open>
  How a request ends: done; refused; or begun (a write stores that many bytes, another
  request took effect) with the answer an error. After the list every request is done.
\<close>

datatype sftp_reply =
    Done
  | Refused go_error
  | Partly nat go_error

record uploader =
  ensured_ok :: bool
  remote_files :: "string \<Rightarrow> string option"
  sftp_replies :: "sftp_reply list"

definition sftp_request ::
  "(nat option \<Rightarrow> (string \<Rightarrow> string option) \<Rightarrow> (string \<Rightarrow> string option)) \<Rightarrow> uploader
   \<Rightarrow> unit res \<times> uploader" where
  "sftp_request eff u =
     (case sftp_replies u of
        [] \<Rightarrow> (Inr (), u\<lparr>remote_files := eff None (remote_files u)\<rparr>)
      | Done # rs \<Rightarrow>
          (Inr (), u\<lparr>remote_files := eff None (remote_files u), sftp_replies := rs\<rparr>)
      | Refused e # rs \<Rightarrow> (Inl e, u\<lparr>sftp_replies := rs\<rparr>)
      | Partly n e # rs \<Rightarrow>
          (Inl e, u\<lparr>remote_files := eff (Some n) (remote_files u), sftp_replies := rs\<rparr>))"

definition sftp_mkdir_all :: "uploader \<Rightarrow> unit res \<times> uploader" where
  "sftp_mkdir_all = sftp_request (\<lambda>_ fs. fs)"

definition sftp_stat :: "string \<Rightarrow> uploader \<Rightarrow> nat res \<times> uploader" where
  "sftp_stat p u =
     (case sftp_request (\<lambda>_ fs. fs) u of
        (Inl e, u1) \<Rightarrow> (Inl e, u1)
      | (Inr _, u1) \<Rightarrow>
          ((case remote_files u p of
              None \<Rightarrow> Inl (ErrText ''file does not exist'') | Some d \<Rightarrow> Inr (length d)), u1))"

definition sftp_create :: "string \<Rightarrow> uploader \<Rightarrow> unit res \<times> uploader" where
  "sftp_create p = sftp_request (\<lambda>_ fs. fs(p \<mapsto> ''''))"

definition sftp_write :: "string \<Rightarrow> string \<Rightarrow> uploader \<Rightarrow> unit res \<times> uploader" where
  "sftp_write p data = sftp_request (\<lambda>n fs. fs(p \<mapsto> null_str (fs p) @
     (case n of None \<Rightarrow> data | Some n \<Rightarrow> take n data)))"

definition sftp_close :: "uploader \<Rightarrow> unit res \<times> uploader" where
  "sftp_close = sftp_request (\<lambda>_ fs. fs)"

definition sftp_remove :: "string \<Rightarrow> uploader \<Rightarrow> unit res \<times> uploader" where
  "sftp_remove p = sftp_request (\<lambda>_ fs. fs(p := None))"

definition sftp_rename :: "string \<Rightarrow> string \<Rightarrow> uploader \<Rightarrow> unit res \<times> uploader" where
  "sftp_rename a b = sftp_request (\<lambda>_ fs. fs(b := fs a, a := None))"

definition sftp_read :: "string \<Rightarrow> uploader \<Rightarrow> string res \<times> uploader" where
  "sftp_read p u =
     (case sftp_request (\<lambda>_ fs. fs) u of
        (Inl e, u1) \<Rightarrow> (Inl e, u1)
      | (Inr _, u1) \<Rightarrow>
          ((case remote_files u p of
              None \<Rightarrow> Inl (ErrText ''file does not exist'') | Some d \<Rightarrow> Inr d), u1))"

section \<open>The uploader\<close>

definition ensureRemoteDir :: "uploader \<Rightarrow> unit res \<times> uploader" where
  "ensureRemoteDir u =
     (if ensured_ok u then (Inr (), u)
      else
        (case sftp_mkdir_all u of
           (Inl e, u1) \<Rightarrow> (Inl (Wrapped ''mkdir remote media path'' e), u1)
         | (Inr _, u1) \<Rightarrow> (Inr (), u1\<lparr>ensured_ok := True\<rparr>)))"

definition publicURL :: "'h host_scheme \<Rightarrow> string \<Rightarrow> string" where
  "publicURL h basename = trim_right (CHR ''/'') (public_base_url h) @ ''/'' @ basename"

text \<open>
  The steps \<open>Upload\<close> and \<open>UploadThumbnail\<close> share: nothing when a file of that size is
  there, else a temporary file renamed into place. \<open>what\<close> is the word in the messages.
\<close>

definition store_remote ::
  "string \<Rightarrow> string \<Rightarrow> string \<Rightarrow> uploader \<Rightarrow> unit res \<times> uploader" where
  "store_remote what remoteFile data u =
     (case sftp_stat remoteFile u of (info, u1) \<Rightarrow>
        if info = Inr (length data) then (Inr (), u1)
        else
          (let tmp = remoteFile @ ''.part''
           in case sftp_create tmp u1 of
                (Inl e, u2) \<Rightarrow> (Inl (Wrapped (''sftp create'' @ what @ '' '' @ tmp) e), u2)
              | (Inr _, u2) \<Rightarrow>
                  (case sftp_write tmp data u2 of
                     (Inl e, u3) \<Rightarrow>
                       (Inl (Wrapped (''sftp write'' @ what) e),
                        snd (sftp_remove tmp (snd (sftp_close u3))))
                   | (Inr _, u3) \<Rightarrow>
                       (case sftp_close u3 of
                          (Inl e, u4) \<Rightarrow>
                            (Inl (Wrapped (''sftp close'' @ what) e), snd (sftp_remove tmp u4))
                        | (Inr _, u4) \<Rightarrow>
                            (case sftp_rename tmp remoteFile u4 of
                               (Inl _, u5) \<Rightarrow> (Inr (), snd (sftp_remove tmp u5))
                             | (Inr _, u5) \<Rightarrow> (Inr (), u5))))))"

definition Upload ::
  "'h host_scheme \<Rightarrow> string \<Rightarrow> string \<Rightarrow> string \<Rightarrow> uploader \<Rightarrow> (string \<times> string) res \<times> uploader" where
  "Upload h data mimeType filename u =
     (case ensureRemoteDir u of
        (Inl e, u1) \<Rightarrow> (Inl e, u1)
      | (Inr _, u1) \<Rightarrow>
          (let sha = sha256_hex h data;
               name = sha @ pickExtension h mimeType filename
           in case store_remote '''' (path_join (remote_path h) name) data u1 of
                (Inl e, u2) \<Rightarrow> (Inl e, u2)
              | (Inr _, u2) \<Rightarrow> (Inr (publicURL h name, sha), u2)))"

definition UploadThumbnail ::
  "'h host_scheme \<Rightarrow> string \<Rightarrow> string \<Rightarrow> uploader \<Rightarrow> string res \<times> uploader" where
  "UploadThumbnail h originalSHA jpegBytes u =
     (if originalSHA = '''' then (Inl (ErrText ''upload thumbnail: empty sha''), u)
      else if jpegBytes = '''' then (Inl (ErrText ''upload thumbnail: empty bytes''), u)
      else
        (case ensureRemoteDir u of
           (Inl e, u1) \<Rightarrow> (Inl e, u1)
         | (Inr _, u1) \<Rightarrow>
             (let basename = originalSHA @ ''_thumb.jpg''
              in case store_remote '' thumb'' (path_join (remote_path h) basename) jpegBytes u1 of
                   (Inl e, u2) \<Rightarrow> (Inl e, u2)
                 | (Inr _, u2) \<Rightarrow> (Inr (publicURL h basename), u2))))"

text \<open>\<open>Read\<close>: opening and reading the file are two requests.\<close>

definition Read :: "'h host_scheme \<Rightarrow> string \<Rightarrow> uploader \<Rightarrow> string res \<times> uploader" where
  "Read h basename u =
     (if basename = '''' then (Inl (ErrText ''read media: empty basename''), u)
      else
        (let remoteFile = path_join (remote_path h) basename
         in case sftp_stat remoteFile u of
              (Inl e, u1) \<Rightarrow> (Inl (Wrapped (''sftp open '' @ remoteFile) e), u1)
            | (Inr _, u1) \<Rightarrow>
                (case sftp_read remoteFile u1 of
                   (Inl e, u2) \<Rightarrow> (Inl (Wrapped (''sftp read '' @ remoteFile) e), u2)
                 | (Inr data, u2) \<Rightarrow> (Inr data, u2))))"

section \<open>Thumbnails\<close>

definition thumbnailMaxEdge :: int where
  "thumbnailMaxEdge = 200"

text \<open>The scaled size of an image: the longest edge is cut to the maximum, Go's \<open>/\<close> truncates.\<close>

definition thumbnail_size :: "int \<Rightarrow> int \<Rightarrow> int \<times> int" where
  "thumbnail_size w h =
     (if thumbnailMaxEdge < w \<or> thumbnailMaxEdge < h then
        (if h \<le> w
         then (thumbnailMaxEdge, max 1 (h * thumbnailMaxEdge div w))
         else (max 1 (w * thumbnailMaxEdge div h), thumbnailMaxEdge))
      else (w, h))"

definition MakeImageThumbnail :: "'h host_scheme \<Rightarrow> string \<Rightarrow> (string \<times> int \<times> int) res" where
  "MakeImageThumbnail h data =
     (case image_size h data of
        Inl e \<Rightarrow> Inl (Wrapped ''decode image'' e)
      | Inr (origW, origH) \<Rightarrow>
          if origW \<le> 0 \<or> origH \<le> 0 then Inl (ErrText ''image has zero dimension'')
          else
            (case thumbnail_size origW origH of (tw, th) \<Rightarrow>
               (case scale_jpeg h data tw th of
                  Inl e \<Rightarrow> Inl (Wrapped ''encode jpeg thumbnail'' e)
                | Inr thumb \<Rightarrow> Inr (thumb, origW, origH))))"

section \<open>The preview of a PDF\<close>

text \<open>\<open>strconv.Atoi\<close>: an optional sign and decimal digits, within 64 bits.\<close>

definition atoi :: "string \<Rightarrow> int option" where
  "atoi s =
     (let neg = has_prefix s ''-'';
          ds = (if neg \<or> has_prefix s ''+'' then drop 1 s else s);
          n = (if neg then - int (number_of ds) else int (number_of ds))
      in if ds = '''' \<or> \<not> list_all is_digit ds \<or> n < - (2 ^ 63) \<or> 2 ^ 63 \<le> n then None else Some n)"

text \<open>
  \<open>bufio.Scanner\<close>: lines without their end (a carriage return before the newline too); it
  stops at a line that does not fit its buffer of 65536 bytes.
\<close>

definition scan_lines :: "string \<Rightarrow> string list" where
  "scan_lines s =
     (let ls = split_at (CHR 0x0A) s;
          ls = (if last ls = '''' then butlast ls else ls)
      in map (\<lambda>l. if l \<noteq> '''' \<and> last l = CHR 0x0D then butlast l else l)
           (takeWhile (\<lambda>l. length l < 65536) ls))"

definition pdfInfoField :: "string \<Rightarrow> string \<Rightarrow> string option" where
  "pdfInfoField line p = (if has_prefix line p then Some (trim_prefix line p) else None)"

definition info_line :: "int \<times> string \<Rightarrow> string \<Rightarrow> int \<times> string" where
  "info_line acc line =
     (case pdfInfoField line ''Pages:'' of
        Some v \<Rightarrow> (case atoi (trim_space v) of Some n \<Rightarrow> (n, snd acc) | None \<Rightarrow> acc)
      | None \<Rightarrow>
          (case pdfInfoField line ''Title:'' of
             Some v \<Rightarrow> (fst acc, trim_space v) | None \<Rightarrow> acc))"

definition pdfInfo :: "'h host_scheme \<Rightarrow> string \<Rightarrow> (int \<times> string) res" where
  "pdfInfo h data =
     (case pdfinfo h data of
        Inl e \<Rightarrow> Inl (Wrapped ''pdfinfo'' e)
      | Inr out \<Rightarrow> Inr (foldl info_line (0, '''') (scan_lines out)))"

record pdf_preview =
  pv_thumbnail :: string
  pv_width :: int
  pv_height :: int
  pv_page_count :: int
  pv_title :: string

text \<open>The error output of \<open>pdftoppm\<close> follows its error in the text.\<close>

definition pdfFirstPageThumb :: "'h host_scheme \<Rightarrow> string \<Rightarrow> (string \<times> int \<times> int) res" where
  "pdfFirstPageThumb h data =
     (case pdftoppm h data of
        Inl (e, stderr) \<Rightarrow>
          Inl (ErrText (''pdftoppm: '' @ error_text e @ '' ('' @ trim_space stderr @ '')''))
      | Inr [] \<Rightarrow> Inl (ErrText ''pdftoppm produced no output'')
      | Inr (Inl e # _) \<Rightarrow> Inl (Wrapped ''read pdftoppm output'' e)
      | Inr (Inr raw # _) \<Rightarrow> MakeImageThumbnail h raw)"

text \<open>\<open>ExtractPDFPreview\<close>: what was found, and the error of the first step that needs one.\<close>

definition no_preview :: pdf_preview where
  "no_preview = \<lparr>pv_thumbnail = [], pv_width = 0, pv_height = 0, pv_page_count = 0, pv_title = []\<rparr>"

definition ExtractPDFPreview :: "'h host_scheme \<Rightarrow> string \<Rightarrow> pdf_preview \<times> go_error option" where
  "ExtractPDFPreview h data =
     (case temp_dir h data of
        Inl e \<Rightarrow> (no_preview, Some (Wrapped ''mkdir temp'' e))
      | Inr _ \<Rightarrow>
          (case temp_pdf h data of
             Inl e \<Rightarrow> (no_preview, Some (Wrapped ''write temp pdf'' e))
           | Inr _ \<Rightarrow>
               (let out =
                  (case pdfInfo h data of
                     Inl _ \<Rightarrow> no_preview
                   | Inr (pages, title) \<Rightarrow> no_preview\<lparr>pv_page_count := pages, pv_title := title\<rparr>)
                in case pdfFirstPageThumb h data of
                     Inl e \<Rightarrow> (out, Some e)
                   | Inr (thumb, w, ht) \<Rightarrow>
                       (out\<lparr>pv_thumbnail := thumb, pv_width := w, pv_height := ht\<rparr>, None))))"

end
