(* ===== verification/MediaLaws.thy ===== *)
theory MediaLaws
  imports Media
begin

text \<open>
  What \<open>media.go\<close> guarantees of the shared host's files: a final name only ever holds a
  complete file, a healthy upload is there afterwards and is not repeated, every name stays
  in the media directory; and the one failure an upload hides.
\<close>

section \<open>Requests\<close>

text \<open>Whatever a request answers, the files change by its effect or not at all.\<close>

lemma sftp_request_files:
  assumes "sftp_request eff u = (r, u')"
  shows "(r = Inr () \<and> remote_files u' = eff None (remote_files u)) \<or>
    (\<exists>e. r = Inl e \<and> (remote_files u' = remote_files u \<or>
       (\<exists>n. remote_files u' = eff (Some n) (remote_files u))))"
  using assms by (auto simp: sftp_request_def split: list.splits sftp_reply.splits)

text \<open>A property of the files that no effect of the request breaks is kept.\<close>

lemma sftp_request_keeps:
  assumes "I (remote_files u)" "\<And>n. I (eff n (remote_files u))"
  shows "I (remote_files (snd (sftp_request eff u)))"
  using assms by (auto simp: sftp_request_def split: list.split sftp_reply.split)

lemma sftp_request_quiet:
  "sftp_replies u = [] \<Longrightarrow>
    sftp_request eff u = (Inr (), u\<lparr>remote_files := eff None (remote_files u)\<rparr>)"
  by (simp add: sftp_request_def)

lemma sftp_stat_snd: "snd (sftp_stat p u) = snd (sftp_request (\<lambda>_ fs. fs) u)"
  by (simp add: sftp_stat_def split: prod.split sum.split)

section \<open>Atomic uploads\<close>

text \<open>Files other than the temporary one are untouched, or the final one is complete.\<close>

definition only_complete ::
  "string \<Rightarrow> string \<Rightarrow> (string \<Rightarrow> string option) \<Rightarrow> (string \<Rightarrow> string option) \<Rightarrow> bool" where
  "only_complete p data fs fs' \<longleftrightarrow>
     (\<forall>q. q \<noteq> p @ ''.part'' \<longrightarrow> fs' q = fs q \<or> q = p \<and> fs' q = Some data)"

lemma only_complete_refl [simp]: "only_complete p data fs fs"
  by (simp add: only_complete_def)

lemma only_complete_tmp:
  "only_complete p data fs gs \<Longrightarrow> only_complete p data fs (gs(p @ ''.part'' := x))"
  by (auto simp: only_complete_def)

lemma only_complete_rename:
  "only_complete p data fs gs \<Longrightarrow> only_complete p data fs (gs(p \<mapsto> data, p @ ''.part'' := None))"
  by (auto simp: only_complete_def)

lemma removed_keeps:
  assumes "only_complete p data fs (remote_files u)"
  shows "only_complete p data fs (remote_files (snd (sftp_remove (p @ ''.part'') u)))"
  unfolding sftp_remove_def
  by (rule sftp_request_keeps) (rule assms, rule only_complete_tmp, rule assms)

lemma closed_keeps:
  "I (remote_files u) \<Longrightarrow> I (remote_files (snd (sftp_close u)))"
  unfolding sftp_close_def by (rule sftp_request_keeps)

lemma store_remote_atomic:
  "only_complete p data (remote_files u) (remote_files (snd (store_remote what p data u)))"
proof -
  let ?tmp = "p @ ''.part''" and ?I = "only_complete p data (remote_files u)"
  obtain info u1 where s: "sftp_stat p u = (info, u1)" by (rule prod.exhaust)
  have 1: "remote_files u1 = remote_files u"
    using sftp_request_keeps [of "\<lambda>fs. fs = remote_files u" u "\<lambda>_ fs. fs"] s sftp_stat_snd [of p u]
    by simp
  obtain r2 u2 where c: "sftp_create ?tmp u1 = (r2, u2)" by (rule prod.exhaust)
  note c' = sftp_request_files [OF c [unfolded sftp_create_def]]
  have 2: "?I (remote_files u2)" using c' 1 only_complete_tmp [OF only_complete_refl] by auto
  obtain r3 u3 where w: "sftp_write ?tmp data u2 = (r3, u3)" by (rule prod.exhaust)
  note w' = sftp_request_files [OF w [unfolded sftp_write_def]]
  have 3: "?I (remote_files u3)" using w' 2 by (auto intro: only_complete_tmp)
  obtain r4 u4 where k: "sftp_close u3 = (r4, u4)" by (rule prod.exhaust)
  have 4: "remote_files u4 = remote_files u3"
    using sftp_request_files [OF k [unfolded sftp_close_def]] by auto
  obtain r5 u5 where m: "sftp_rename ?tmp p u4 = (r5, u5)" by (rule prod.exhaust)
  note m' = sftp_request_files [OF m [unfolded sftp_rename_def]]
  have 5: "?I (remote_files u5)" if "r2 = Inr ()" "r3 = Inr ()"
  proof -
    have "remote_files u4 ?tmp = Some data" using that c' w' 4 by auto
    then show ?thesis using m' 3 4 by (auto intro: only_complete_rename)
  qed
  have rest: "?I (remote_files (snd (sftp_remove ?tmp (snd (sftp_close u3)))))"
    "?I (remote_files (snd (sftp_remove ?tmp u4)))"
    by (rule removed_keeps, rule closed_keeps, rule 3) (rule removed_keeps, simp add: 3 4)
  have last: "?I (remote_files (snd (sftp_remove ?tmp u5)))" if "r2 = Inr ()" "r3 = Inr ()"
    using 5 that by (intro removed_keeps) simp
  note run = store_remote_def s c w k m Let_def prod.case
  show ?thesis
  proof (cases "info = Inr (length data)")
    case True
    then show ?thesis by (simp add: run 1)
  next
    case nosize: False
    show ?thesis
    proof (cases r2)
      case (Inl e)
      then show ?thesis using nosize 2 by (simp add: run)
    next
      case r2: (Inr x)
      show ?thesis
      proof (cases r3)
        case (Inl e)
        then show ?thesis using nosize r2 rest(1) by (simp add: run)
      next
        case r3: (Inr y)
        then show ?thesis
          using nosize r2 rest(2) 5 last by (cases r4; cases r5) (simp_all add: run)
      qed
    qed
  qed
qed

text \<open>What an upload answers, and where its file goes.\<close>

definition media_name :: "'h host_scheme \<Rightarrow> string \<Rightarrow> string \<Rightarrow> string \<Rightarrow> string" where
  "media_name h data mimeType filename = sha256_hex h data @ pickExtension h mimeType filename"

lemma ensureRemoteDir_files: "remote_files (snd (ensureRemoteDir u)) = remote_files u"
proof -
  have "remote_files (snd (sftp_mkdir_all u)) = remote_files u"
    using sftp_request_keeps [of "\<lambda>fs. fs = remote_files u" u "\<lambda>_ fs. fs"]
    by (simp add: sftp_mkdir_all_def)
  then show ?thesis by (auto simp: ensureRemoteDir_def split: prod.split sum.split)
qed

text \<open>C17: However SFTP fails, an upload leaves every file but its own temporary one either unchanged or, under its final name, with the complete data.\<close>

theorem uploads_are_atomic:
  assumes "Upload h data mimeType filename u = (r, u')"
  shows "(\<forall>q. q \<noteq> path_join (remote_path h) (media_name h data mimeType filename) @ ''.part'' \<longrightarrow>
      remote_files u' q = remote_files u q \<or>
      q = path_join (remote_path h) (media_name h data mimeType filename) \<and>
        remote_files u' q = Some data) \<and>
    (\<forall>url sha. r = Inr (url, sha) \<longrightarrow>
      sha = sha256_hex h data \<and> url = publicURL h (media_name h data mimeType filename))"
proof -
  let ?p = "path_join (remote_path h) (media_name h data mimeType filename)"
  obtain x u1 where e: "ensureRemoteDir u = (x, u1)" by (rule prod.exhaust)
  obtain y u2 where s: "store_remote '''' ?p data u1 = (y, u2)" by (rule prod.exhaust)
  have "only_complete ?p data (remote_files u) (remote_files u2)"
    using store_remote_atomic [of ?p data u1 "''''"] ensureRemoteDir_files [of u] e s by simp
  moreover have "remote_files u1 = remote_files u" using ensureRemoteDir_files [of u] e by simp
  ultimately have "only_complete ?p data (remote_files u) (remote_files u')"
    using assms s e by (cases x; cases y) (auto simp: Upload_def Let_def media_name_def)
  moreover have "sha = sha256_hex h data \<and> url = publicURL h (media_name h data mimeType filename)"
    if "r = Inr (url, sha)" for url sha
    using assms that e s by (cases x; cases y) (auto simp: Upload_def Let_def media_name_def)
  ultimately show ?thesis by (simp add: only_complete_def)
qed

text \<open>
  With a healthy server the file is there afterwards, and storing the same data again
  writes nothing.
\<close>

lemma sftp_quiet:
  assumes "sftp_replies u = []"
  shows "sftp_stat p u =
      ((case remote_files u p of None \<Rightarrow> Inl (ErrText ''file does not exist'') | Some d \<Rightarrow> Inr (length d)), u)"
    and "sftp_create p u = (Inr (), u\<lparr>remote_files := (remote_files u)(p \<mapsto> '''')\<rparr>)"
    and "sftp_write p d u =
      (Inr (), u\<lparr>remote_files := (remote_files u)(p \<mapsto> null_str (remote_files u p) @ d)\<rparr>)"
    and "sftp_close u = (Inr (), u)" and "sftp_mkdir_all u = (Inr (), u)"
    and "sftp_rename p q u = (Inr (), u\<lparr>remote_files := (remote_files u)(q := remote_files u p, p := None)\<rparr>)"
    and "sftp_remove p u = (Inr (), u\<lparr>remote_files := (remote_files u)(p := None)\<rparr>)"
  using assms
  by (simp_all add: sftp_stat_def sftp_create_def sftp_write_def sftp_close_def sftp_mkdir_all_def
      sftp_rename_def sftp_remove_def sftp_request_quiet)

lemma store_remote_quiet:
  assumes "sftp_replies u = []"
  shows "store_remote what p data u =
    (if (\<exists>d. remote_files u p = Some d \<and> length d = length data) then (Inr (), u)
     else (Inr (), u\<lparr>remote_files := (remote_files u)(p \<mapsto> data, p @ ''.part'' := None)\<rparr>))"
  using assms by (cases "remote_files u p") (auto simp: store_remote_def sftp_quiet Let_def)

lemma uploads_land:
  assumes "sftp_replies u = []"
    and "\<And>d. remote_files u (path_join (remote_path h) (media_name h data mimeType filename)) = Some d \<Longrightarrow>
      length d = length data \<Longrightarrow> d = data"
  shows "\<exists>u'. Upload h data mimeType filename u =
      (Inr (publicURL h (media_name h data mimeType filename), sha256_hex h data), u') \<and>
    remote_files u' (path_join (remote_path h) (media_name h data mimeType filename)) = Some data \<and>
    Upload h data mimeType filename u' =
      (Inr (publicURL h (media_name h data mimeType filename), sha256_hex h data), u') \<and>
    sftp_replies u' = []"
proof -
  let ?p = "path_join (remote_path h) (media_name h data mimeType filename)"
  let ?u1 = "u\<lparr>ensured_ok := True\<rparr>"
  have e: "ensureRemoteDir u = (Inr (), ?u1)"
    using assms(1) by (auto simp: ensureRemoteDir_def sftp_quiet)
  have up: "Upload h data mimeType filename v =
      (Inr (publicURL h (media_name h data mimeType filename), sha256_hex h data), w)"
    if "ensureRemoteDir v = (Inr (), v1)" "store_remote '''' ?p data v1 = (Inr (), w)" for v v1 w
    using that by (simp add: Upload_def Let_def media_name_def)
  obtain w where s: "store_remote '''' ?p data ?u1 = (Inr (), w)"
    and w: "remote_files w ?p = Some data" "sftp_replies w = []" "ensured_ok w"
  proof (cases "\<exists>d. remote_files u ?p = Some d \<and> length d = length data")
    case True
    with assms(2) have "remote_files u ?p = Some data" by auto
    with True assms(1) that [of ?u1] show ?thesis by (simp add: store_remote_quiet)
  next
    case False
    let ?w = "?u1\<lparr>remote_files := (remote_files ?u1)(?p \<mapsto> data, ?p @ ''.part'' := None)\<rparr>"
    have "store_remote '''' ?p data ?u1 = (Inr (), ?w)"
      using False assms(1) by (subst store_remote_quiet) auto
    with assms(1) that [of ?w] show ?thesis by simp
  qed
  have "ensureRemoteDir w = (Inr (), w)" "store_remote '''' ?p data w = (Inr (), w)"
    using w by (auto simp: ensureRemoteDir_def store_remote_quiet)
  with up [OF e s] up [of w w w] w show ?thesis by blast
qed

section \<open>From the public URL back to the file\<close>

text \<open>The characters a URL's path carries as they are.\<close>

definition url_plain :: "string \<Rightarrow> bool" where
  "url_plain s \<longleftrightarrow> list_all (\<lambda>c. c \<notin> set ''#?%'' \<and> 32 \<le> byte c \<and> byte c \<noteq> 127) s"

lemma url_plain_simps [simp]:
  "url_plain (a @ b) \<longleftrightarrow> url_plain a \<and> url_plain b" "url_plain []"
  "url_plain (c # s) \<longleftrightarrow> c \<notin> set ''#?%'' \<and> 32 \<le> byte c \<and> byte c \<noteq> 127 \<and> url_plain s"
  by (auto simp: url_plain_def)

lemma unescape_plain: "url_plain s \<Longrightarrow> unescape s = Some s"
  by (induction s) simp_all

lemma before_absent: "c \<notin> set s \<Longrightarrow> before c s = s"
  by (auto simp: before_def takeWhile_eq_all_conv)

lemma before_append: "c \<notin> set s \<Longrightarrow> before c (s @ t) = s @ before c t"
  by (induction s) (auto simp: before_def)

lemma url_plain_before: "url_plain s \<Longrightarrow> c \<in> set ''#?'' \<Longrightarrow> before c s = s"
  by (rule before_absent) (auto simp: url_plain_def list_all_iff)

lemma url_plain_no_ctl: "url_plain s \<Longrightarrow> \<not> list_ex (\<lambda>c. byte c < 32 \<or> byte c = 127) s"
  by (induction s) auto

lemma trim_right_append:
  "trim_right c (a @ b) = (if trim_right c b = [] then trim_right c a else a @ trim_right c b)"
  by (auto simp: trim_right_def dropWhile_append)

lemma url_parse_https:
  assumes "url_plain auth" "CHR ''/'' \<notin> set auth" "parse_authority h auth = Some a"
    and "url_plain p" "p = '''' \<or> hd p = CHR ''/''"
  shows "url_parse h (''https://'' @ auth @ p) = Some (a, p)"
proof -
  let ?u = "''https://'' @ auth @ p"
  have plain: "url_plain ?u" using assms by (simp add: byte_def)
  have sch: "get_scheme ?u = Some (True, ''//'' @ auth @ p)"
    by (simp add: get_scheme_def is_letter_def is_digit_def byte_def has_prefix_def)
  have "before (CHR ''/'') (auth @ p) = auth"
    using assms(2,5) by (cases p) (simp_all add: before_append before_absent, simp add: before_def)
  moreover have "before (CHR ''?'') (''//'' @ auth @ p) = ''//'' @ auth @ p"
    using assms by (intro url_plain_before) (simp_all add: byte_def)
  ultimately show ?thesis
    using assms plain
    by (simp add: url_parse_def Let_def url_plain_before url_plain_no_ctl sch has_prefix_def
        unescape_plain del: append_Cons)
qed

lemma has_prefix_append [simp]: "has_prefix (a @ b) a"
  by (simp add: has_prefix_def)

lemma trim_prefix_append [simp]: "trim_prefix (a @ b) a = b"
  by (simp add: trim_prefix_def)

text \<open>What a plain https base puts in front of a name, and what is stripped off again.\<close>

lemma public_parts:
  assumes base: "public_base_url h = ''https://'' @ auth @ p" "trim_space (public_base_url h) = public_base_url h"
    and auth: "auth \<noteq> ''''" "url_plain auth" "CHR ''/'' \<notin> set auth" "parse_authority h auth = Some a" "a \<noteq> ''''"
    and p: "url_plain p" "p = '''' \<or> hd p = CHR ''/''"
  shows "\<exists>q. url_plain q \<and> (q = '''' \<or> hd q = CHR ''/'') \<and>
    (\<forall>n. publicURL h n = ''https://'' @ auth @ q @ ''/'' @ n) \<and>
    trim_right (CHR ''/'') (publicBasePath h (public_base_url h)) @ ''/'' = q @ ''/''"
proof -
  let ?q = "trim_right (CHR ''/'') p"
  have "last auth \<noteq> CHR ''/''" using auth(1,3) by (metis last_in_set)
  then have ta: "trim_right (CHR ''/'') (''https://'' @ auth) = ''https://'' @ auth"
    using auth(1) by (cases auth rule: rev_cases) (simp_all add: trim_right_def)
  have pub: "publicURL h n = ''https://'' @ auth @ ?q @ ''/'' @ n" for n
    using ta trim_right_append [of "CHR ''/''" "''https://'' @ auth" p]
    by (simp add: publicURL_def base(1))
  obtain t where t: "p = ?q @ t"
    unfolding trim_right_def by (metis rev_append rev_rev_ident takeWhile_dropWhile_id)
  have "url_plain ?q" using p(1) t by (metis url_plain_simps(1))
  moreover have "?q = '''' \<or> hd ?q = CHR ''/''" using p(2) t by (metis append_is_Nil_conv hd_append2)
  moreover have "publicBasePath h (public_base_url h) = (if p = '''' then ''/'' else p)"
    using url_parse_https [OF auth(2,3,4) p] auth(5) base by (simp add: publicBasePath_def Let_def)
  then have "trim_right (CHR ''/'') (publicBasePath h (public_base_url h)) @ ''/'' = ?q @ ''/''"
    by (auto simp: trim_right_def)
  ultimately show ?thesis using pub by blast
qed

lemma basename_of_public_url:
  assumes base: "public_base_url h = ''https://'' @ auth @ p" "trim_space (public_base_url h) = public_base_url h"
    and auth: "auth \<noteq> ''''" "url_plain auth" "CHR ''/'' \<notin> set auth" "parse_authority h auth = Some a" "a \<noteq> ''''"
    and p: "url_plain p" "p = '''' \<or> hd p = CHR ''/''"
    and n: "safe_name n" "url_plain n"
  shows "BasenameFromPublicURL h (publicURL h n) = n"
proof -
  obtain q where q: "url_plain q" "q = '''' \<or> hd q = CHR ''/''"
      and pub: "\<And>n. publicURL h n = ''https://'' @ auth @ q @ ''/'' @ n"
      and pre: "trim_right (CHR ''/'') (publicBasePath h (public_base_url h)) @ ''/'' = q @ ''/''"
    using public_parts [OF base auth p] by blast
  have parsed: "url_parse h (publicURL h n) = Some (a, q @ ''/'' @ n)"
    unfolding pub using auth q n by (intro url_parse_https) (auto simp: byte_def hd_append)
  have cut: "trim_prefix (q @ ''/'' @ n) (q @ ''/'') = n" "has_prefix (q @ ''/'' @ n) (q @ ''/'')"
    using has_prefix_append [of "q @ ''/''" n] trim_prefix_append [of "q @ ''/''" n] by simp_all
  show ?thesis
    using n unfolding BasenameFromPublicURL_def Let_def pre parsed option.case prod.case
    by (simp add: cut [simplified] unescape_plain)
qed

text \<open>
  Conversely a name that the URL does not carry as it is comes back as another one: a fragment
  or a query is cut off, an escape sequence is decoded, and what does not parse is no address.
\<close>

lemma unescape_append: "url_plain s \<Longrightarrow> unescape (s @ t) = map_option ((@) s) (unescape t)"
  by (induction s; cases "unescape t") auto

lemma unescape_length:
  "unescape s = Some t \<Longrightarrow> length t \<le> length s \<and> (CHR ''%'' \<in> set s \<longrightarrow> length t < length s)"
proof (induction s arbitrary: t rule: unescape.induct)
  case (2 c s)
  show ?case
  proof (cases "c = CHR ''%''")
    case True
    with "2.prems" obtain x y r m k u where s: "s = x # y # r" and h: "hex_value x = Some m" "hex_value y = Some k"
      and u: "unescape r = Some u" "length t = Suc (length u)"
      by (auto split: list.splits option.splits)
    have "length u \<le> length r" using "2.IH"(2) [OF _ s refl] True h u(1) by simp
    with s u show ?thesis by simp
  next
    case False
    with "2.prems" obtain u where "unescape s = Some u" "t = c # u" by auto
    with "2.IH"(1) [OF False] False show ?thesis by auto
  qed
qed simp

lemma before_length: "length (before c s) \<le> length s \<and> (c \<in> set s \<longrightarrow> length (before c s) < length s)"
  by (induction s) (auto simp: before_def)

lemma before_in: "x \<in> set (before c s) \<Longrightarrow> x \<in> set s"
  unfolding before_def by (rule set_takeWhileD [THEN conjunct1])

lemma url_parse_any:
  fixes n
  assumes "url_plain auth" "CHR ''/'' \<notin> set auth" "parse_authority h auth = Some a"
    and "url_plain p" "p = '''' \<or> hd p = CHR ''/''"
  defines "m \<equiv> before (CHR ''#'') n"
  shows "url_parse h (''https://'' @ auth @ p @ ''/'' @ n) = None \<or>
    \<not> list_ex (\<lambda>c. byte c < 32 \<or> byte c = 127) m \<and>
    (\<exists>t. unescape (before (CHR ''?'') m) = Some t \<and>
      url_parse h (''https://'' @ auth @ p @ ''/'' @ n) = Some (a, p @ ''/'' @ t))"
proof -
  have cut: "before (CHR ''#'') (''https://'' @ auth @ p @ ''/'' @ n) = ''https://'' @ auth @ p @ ''/'' @ m"
    using assms(1,4) url_plain_before [of auth "CHR ''#''"] url_plain_before [of p "CHR ''#''"]
    by (simp add: m_def before_def takeWhile_append takeWhile_eq_all_conv)
  have sch: "get_scheme (''https://'' @ auth @ p @ ''/'' @ m) = Some (True, ''//'' @ auth @ p @ ''/'' @ m)"
    by (simp add: get_scheme_def is_letter_def is_digit_def byte_def has_prefix_def)
  have query: "before (CHR ''?'') (''//'' @ auth @ p @ ''/'' @ m) = ''//'' @ auth @ p @ ''/'' @ before (CHR ''?'') m"
    using assms(1,4) url_plain_before [of auth "CHR ''?''"] url_plain_before [of p "CHR ''?''"]
    by (simp add: before_def takeWhile_append takeWhile_eq_all_conv)
  have host: "before (CHR ''/'') (auth @ p @ ''/'' @ t) = auth" for t
    using assms(2,5) by (cases p) (simp_all add: before_append, simp_all add: before_def)
  have tail: "unescape (p @ ''/'' @ t) = map_option (\<lambda>t. p @ ''/'' @ t) (unescape t)" for t
    using assms(4) by (simp add: unescape_append option.map_comp comp_def)
  have pl: "\<not> list_ex (\<lambda>c. byte c < 32 \<or> byte c = 127) (''https://'' @ auth @ p @ ''/'')"
    using assms(1,4) by (intro url_plain_no_ctl) (simp add: byte_def)
  show ?thesis
    using pl unfolding url_parse_def Let_def cut sch query option.case prod.case
    by (auto simp: has_prefix_def host [simplified] tail [simplified] assms(3))
qed

lemma basename_names_another:
  assumes base: "public_base_url h = ''https://'' @ auth @ p" "trim_space (public_base_url h) = public_base_url h"
    and auth: "auth \<noteq> ''''" "url_plain auth" "CHR ''/'' \<notin> set auth" "parse_authority h auth = Some a" "a \<noteq> ''''"
    and p: "url_plain p" "p = '''' \<or> hd p = CHR ''/''"
    and n: "n \<noteq> ''''" "\<not> (safe_name n \<and> url_plain n)"
  shows "BasenameFromPublicURL h (publicURL h n) \<noteq> n"
proof
  assume eq: "BasenameFromPublicURL h (publicURL h n) = n"
  obtain q where q: "url_plain q" "q = '''' \<or> hd q = CHR ''/''"
      and pub: "\<And>n. publicURL h n = ''https://'' @ auth @ q @ ''/'' @ n"
      and pre: "trim_right (CHR ''/'') (publicBasePath h (public_base_url h)) @ ''/'' = q @ ''/''"
    using public_parts [OF base auth p] by blast
  have safe: "safe_name n"
    using eq n(1) by (auto simp: BasenameFromPublicURL_def Let_def split: if_splits)
  let ?m = "before (CHR ''#'') n"
  have no_base: "\<not> has_prefix (publicURL h n) (q @ ''/'')"
    using q(2) by (cases q) (simp_all add: pub has_prefix_def)
  from url_parse_any [OF auth(2,3,4) q, of n] show False
  proof (elim disjE conjE exE)
    assume "url_parse h (''https://'' @ auth @ q @ ''/'' @ n) = None"
    then have "BasenameFromPublicURL h (publicURL h n) = ''''"
      using no_base unfolding BasenameFromPublicURL_def Let_def pre by (simp add: pub)
    with eq n(1) show False by simp
  next
    fix t
    assume ctl: "\<not> list_ex (\<lambda>c. byte c < 32 \<or> byte c = 127) ?m"
      and t: "unescape (before (CHR ''?'') ?m) = Some t"
      and parsed: "url_parse h (''https://'' @ auth @ q @ ''/'' @ n) = Some (a, q @ ''/'' @ t)"
    have cut: "trim_prefix (q @ ''/'' @ t) (q @ ''/'') = t" "has_prefix (q @ ''/'' @ t) (q @ ''/'')"
      using has_prefix_append [of "q @ ''/''" t] trim_prefix_append [of "q @ ''/''" t] by simp_all
    have "n = t \<or> unescape t = Some n"
      using eq n(1) unfolding BasenameFromPublicURL_def Let_def pre pub parsed option.case prod.case
      by (auto simp: cut [simplified] split: if_splits option.splits)
    then have "length n \<le> length t" using unescape_length by blast
    then have "CHR ''%'' \<notin> set (before (CHR ''?'') ?m)" "CHR ''?'' \<notin> set ?m" "CHR ''#'' \<notin> set n"
      using unescape_length [OF t] before_length [of "CHR ''?''" ?m] before_length [of "CHR ''#''" n] by linarith+
    then have "url_plain n" using ctl by (auto simp: before_absent url_plain_def list_all_iff list_ex_iff)
    with safe n(2) show False by simp
  qed
qed

text \<open>C16: On a healthy SFTP server, with an https base of plain characters and no other stored file of the same name and length, an upload stores the bytes and answers a URL, and a second upload changes nothing. The name in the URL resolves back to those bytes when it needs no escaping; with a control character, a percent sign, a number sign, a question mark or a backslash in the extension it resolves to another name or none, because the URL is not escaped.\<close>

theorem upload_then_read:
  assumes healthy: "sftp_replies u = []"
    and addressed: "\<And>d. remote_files u (path_join (remote_path h) (media_name h data mimeType filename)) = Some d \<Longrightarrow>
      length d = length data \<Longrightarrow> d = data"
    and sha: "sha256_hex h data \<noteq> ''''"
    and base: "public_base_url h = ''https://'' @ auth @ p" "trim_space (public_base_url h) = public_base_url h"
    and auth: "auth \<noteq> ''''" "url_plain auth" "CHR ''/'' \<notin> set auth" "parse_authority h auth = Some a" "a \<noteq> ''''"
    and p: "url_plain p" "p = '''' \<or> hd p = CHR ''/''"
  shows "\<exists>url u'. Upload h data mimeType filename u = (Inr (url, sha256_hex h data), u') \<and>
    Upload h data mimeType filename u' = (Inr (url, sha256_hex h data), u') \<and>
    remote_files u' (path_join (remote_path h) (media_name h data mimeType filename)) = Some data \<and>
    (if safe_name (media_name h data mimeType filename) \<and> url_plain (media_name h data mimeType filename)
     then Read h (BasenameFromPublicURL h url) u' = (Inr data, u')
     else BasenameFromPublicURL h url \<noteq> media_name h data mimeType filename)"
proof -
  let ?n = "media_name h data mimeType filename"
  obtain u' where up: "Upload h data mimeType filename u = (Inr (publicURL h ?n, sha256_hex h data), u')"
      "Upload h data mimeType filename u' = (Inr (publicURL h ?n, sha256_hex h data), u')"
    and there: "remote_files u' (path_join (remote_path h) ?n) = Some data" and quiet: "sftp_replies u' = []"
    using uploads_land [OF healthy addressed] by blast
  have name: "?n \<noteq> ''''" using sha by (simp add: media_name_def)
  have "if safe_name ?n \<and> url_plain ?n then Read h (BasenameFromPublicURL h (publicURL h ?n)) u' = (Inr data, u')
     else BasenameFromPublicURL h (publicURL h ?n) \<noteq> ?n"
  proof (cases "safe_name ?n \<and> url_plain ?n")
    case True
    then have "BasenameFromPublicURL h (publicURL h ?n) = ?n" using basename_of_public_url [OF base auth p] by blast
    with True there quiet name show ?thesis
      by (simp add: Read_def Let_def sftp_quiet sftp_read_def sftp_request_quiet)
  next
    case False
    show ?thesis unfolding if_not_P [OF False] by (rule basename_names_another [OF base auth p name False])
  qed
  with up there show ?thesis by blast
qed

section \<open>A hidden failure\<close>

definition plain_host :: host where
  "plain_host =
     \<lparr>remote_path = ''/srv/m'', public_base_url = ''https://x/m/'', sha256_hex = (\<lambda>_. ''5f''),
      mime_extensions = (\<lambda>_. []), parse_authority = Some, unicode_lower = (\<lambda>k. k), image_size = (\<lambda>_. Inr (400, 100)),
      scale_jpeg = (\<lambda>_ _ _. Inr ''j''), temp_dir = (\<lambda>_. Inr ()), temp_pdf = (\<lambda>_. Inr ()),
      pdfinfo = (\<lambda>_. Inl (ErrText ''none'')),
      pdftoppm = (\<lambda>_. Inl (ErrText ''none'', ''''))\<rparr>"

definition fresh_uploader :: "sftp_reply list \<Rightarrow> uploader" where
  "fresh_uploader rs = \<lparr>ensured_ok = True, remote_files = (\<lambda>_. None), sftp_replies = rs\<rparr>"

lemma fresh_files [simp]: "remote_files (fresh_uploader rs) = (\<lambda>_. None)"
  by (simp add: fresh_uploader_def)

text \<open>A file name with a percent sign after its last dot is uploaded under a URL that names no file.\<close>

theorem upload_name_is_not_escaped:
  "let (r, u') = Upload plain_host ''data'' '''' ''v1.0 (50% off)'' (fresh_uploader [])
   in r = Inr (''https://x/m/5f.0 (50% off)'', ''5f'') \<and> remote_files u' ''/srv/m/5f.0 (50% off)'' = Some ''data'' \<and>
     BasenameFromPublicURL plain_host ''https://x/m/5f.0 (50% off)'' = ''''"
  by code_simp

text \<open>When the server refuses the final rename, the upload still answers a URL, for a file that is not there.\<close>

theorem refused_rename_is_hidden:
  "let (r, u') = Upload plain_host ''data'' ''image/png'' '''' (fresh_uploader
       [Done, Done, Done, Done, Refused (ErrText ''permission denied'')])
   in r = Inr (''https://x/m/5f.png'', ''5f'') \<and> remote_files u' ''/srv/m/5f.png'' = None"
  by code_simp

theorem uploads_are_atomic_witness:
  "remote_files (snd (Upload plain_host ''data'' ''image/png'' '''' (fresh_uploader
     [Done, Done, Partly 2 (ErrText ''lost'')]))) ''/srv/m/5f.png'' = None"
proof -
  have n: "path_join (remote_path plain_host) (media_name plain_host ''data'' ''image/png'' '''') = ''/srv/m/5f.png''"
    by code_simp
  obtain r u' where up: "Upload plain_host ''data'' ''image/png'' '''' (fresh_uploader
     [Done, Done, Partly 2 (ErrText ''lost'')]) = (r, u')" by (rule prod.exhaust)
  have "remote_files (snd (Upload plain_host ''data'' ''image/png'' '''' (fresh_uploader
     [Done, Done, Partly 2 (ErrText ''lost'')]))) ''/srv/m/5f.png'' \<noteq> Some ''data''"
    by code_simp
  then show ?thesis
    using conjunct1 [OF uploads_are_atomic [OF up], rule_format, of "''/srv/m/5f.png''"]
    by (simp add: n up)
qed

theorem upload_then_read_witness:
  "(\<exists>url u'. Upload plain_host ''data'' ''image/png'' '''' (fresh_uploader []) = (Inr (url, ''5f''), u') \<and>
    Read plain_host (BasenameFromPublicURL plain_host url) u' = (Inr ''data'', u')) \<and>
   (\<exists>url u'. Upload plain_host ''data'' '''' ''v1.0 (50% off)'' (fresh_uploader []) = (Inr (url, ''5f''), u') \<and>
    BasenameFromPublicURL plain_host url \<noteq> ''5f.0 (50% off)'')"
proof -
  have n: "media_name plain_host ''data'' ''image/png'' '''' = ''5f.png''"
    "media_name plain_host ''data'' '''' ''v1.0 (50% off)'' = ''5f.0 (50% off)''"
    "trim_space (public_base_url plain_host) = public_base_url plain_host"
    "sha256_hex plain_host ''data'' = ''5f''"
    by code_simp+
  have plain: "safe_name ''5f.png''" "url_plain ''5f.png''" "\<not> url_plain ''5f.0 (50% off)''"
    "url_plain ''/m/''" "url_plain ''x''"
    by code_simp+
  have base: "public_base_url plain_host = ''https://'' @ ''x'' @ ''/m/''"
    "parse_authority plain_host ''x'' = Some ''x''" "sftp_replies (fresh_uploader []) = []"
    by (simp_all add: plain_host_def fresh_uploader_def)
  have other: "remote_files (fresh_uploader []) q = Some d \<Longrightarrow> length d = length data \<Longrightarrow> d = data"
    for q d and data :: string by simp
  have sha: "sha256_hex plain_host ''data'' \<noteq> ''''" using n(4) by simp
  have x: "''x'' \<noteq> ''''" "CHR ''/'' \<notin> set ''x''" "''/m/'' = '''' \<or> hd ''/m/'' = CHR ''/''" by simp_all
  note run = upload_then_read [OF base(3) other sha base(1) n(3) x(1) plain(5) x(2) base(2) x(1) plain(4) x(3)]
  show ?thesis
    using run [of "''image/png''" "''''"] run [of "''''" "''v1.0 (50% off)''"]
    unfolding n(1,2,4) if_P [OF conjI [OF plain(1,2)]] using plain(3) by (simp del: url_plain_simps) blast
qed

end
