(* ===== verification/Sql.thy ===== *)
theory Sql
  imports GoText
begin

text \<open>
  The database as the program's statements see it. The five \<open>wa_*\<close> tables are lists of rows
  whose columns are those the SQL text under \<open>internal/\<close> names; a statement is a function on
  the tables, written from its SQL text. What the program cannot control is explicit state:
  \<^item> \<open>missing_columns\<close>: columns of a newer migration that this database does not have
    (as \<open>table.column\<close>); a statement naming one is refused with error 1054;
  \<^item> \<open>replies\<close>: how the next statements end, one entry each: \<open>Succeeds\<close>; \<open>Fails e\<close>, without
    effect; \<open>Lost e\<close>, the statement took effect but the program sees an error (a connection
    lost while waiting for the answer). After the list every statement succeeds, so a
    theorem over all \<open>replies\<close> covers every pattern of failures of a run;
  \<^item> \<open>utc_now\<close> and \<open>server_now\<close>: \<open>UTC_TIMESTAMP()\<close> and \<open>NOW()\<close>;
  \<^item> \<open>trace\<close>: the statements and WhatsApp calls made so far, in order.
  Instants are integers in nanoseconds. Comparisons of strings are exact; constraints of
  the schema other than the primary keys and the foreign keys the code's comments name are
  covered by \<open>Fails\<close>.
\<close>

section \<open>Rows\<close>

text \<open>\<open>store.Message\<close>, the part of a \<open>wa_messages\<close> row that an INSERT writes.\<close>

record message =
  m_id :: string
  m_chat_jid :: string
  m_sender_jid :: "string option"
  m_from_me :: bool
  m_message_type :: string
  m_body :: "string option"
  m_media_url :: "string option"
  m_media_mime :: "string option"
  m_media_size :: "int option"
  m_media_filename :: "string option"
  m_media_sha256 :: "string option"
  m_media_thumbnail_url :: "string option"
  m_quoted_message_id :: "string option"
  m_quoted_preview :: "string option"
  m_quoted_sender_jid :: "string option"
  m_target_message_id :: "string option"
  m_client_request_id :: "string option"
  m_location_name :: "string option"
  m_location_address :: "string option"
  m_timestamp :: int
  m_status :: "string option"

record message_row = message +
  m_status_updated_at :: "int option"
  m_original_body :: "string option"
  m_edited_at :: "int option"
  m_revoked_at :: "int option"

record chat_row =
  c_jid :: string
  c_display_name :: "string option"
  c_phone_e164 :: "string option"
  c_is_group :: bool
  c_profile_pic_url :: "string option"
  c_profile_pic_updated_at :: "int option"
  c_last_message_at :: "int option"
  c_last_message_preview :: "string option"
  c_last_message_from_me :: bool
  c_unread_count :: int
  c_peer_typing_until :: "int option"
  c_archived :: bool

record outbound_row =
  o_id :: int
  o_status :: string
  o_client_request_id :: "string option"
  o_chat_jid :: "string option"
  o_to_phone :: "string option"
  o_to_name :: "string option"
  o_body :: "string option"
  o_kind :: "string option"
  o_media_url :: "string option"
  o_media_mime :: "string option"
  o_media_filename :: "string option"
  o_media_size :: "int option"
  o_media_sha256 :: "string option"
  o_quoted_message_id :: "string option"
  o_location_name :: "string option"
  o_location_address :: "string option"
  o_location_url :: "string option"
  o_attempts :: int
  o_last_attempt_at :: "int option"
  o_created_at :: int
  o_whatsapp_message_id :: "string option"
  o_sent_at :: "int option"
  o_error_message :: "string option"
  o_error_code :: "string option"

record pairing_row =
  p_status :: string
  p_qr_code :: "string option"
  p_qr_expires_at :: "int option"
  p_device_jid :: "string option"
  p_paired_at :: "int option"
  p_last_event :: "string option"
  p_reset_requested_at :: "int option"
  p_last_seen_at :: "int option"
  p_bridge_features :: "string option"
  p_bridge_features_at :: "int option"

record typing_row =
  t_chat_jid :: string
  t_state :: string
  t_requested_at :: int
  t_processed_at :: "int option"

section \<open>The connection\<close>

datatype reply = Succeeds | Fails go_error | Lost go_error

text \<open>
  What leaves the process: a statement by its name, a WhatsApp lookup of a phone, a send of a
  new-chat row (row id, target JID, message ID), a send of a pending row (row id, target JID;
  the library picks the message ID), a typing state (chat, state), the lookup of a phone for
  the command line.
\<close>

datatype event =
    Stmt string
  | WaLookup int string
  | WaSend int string string
  | WaSendRow int string
  | WaPresence string string
  | WaCheck string
  | WaOnline
  | WaLogout

record db =
  wa_chats :: "chat_row list"
  wa_messages :: "message_row list"
  wa_outbound :: "outbound_row list"
  wa_pairing :: "pairing_row option"
  wa_typing_outbound :: "typing_row list"
  missing_columns :: "string list"
  replies :: "reply list"
  utc_now :: int
  server_now :: int
  trace :: "event list"

definition second :: int where
  "second = 1000000000"

definition minute :: int where
  "minute = 60 * second"

definition hour :: int where
  "hour = 60 * minute"

text \<open>Error 1054 as MySQL words it; \<open>c\<close> is the column as the statement wrote it.\<close>

definition unknown_column :: "string \<Rightarrow> go_error" where
  "unknown_column c =
     (let m = ''Unknown column '' @ [CHR 0x27] @ c @ [CHR 0x27] @ '' in '' @
              [CHR 0x27] @ ''field list'' @ [CHR 0x27]
      in MySQLError 1054 m (''Error 1054 (42S22): '' @ m))"

definition emit :: "event \<Rightarrow> 'x db_scheme \<Rightarrow> 'x db_scheme" where
  "emit e d = d\<lparr>trace := trace d @ [e]\<rparr>"

definition take_reply :: "'x db_scheme \<Rightarrow> reply \<times> 'x db_scheme" where
  "take_reply d =
     (case replies d of [] \<Rightarrow> (Succeeds, d) | r # rs \<Rightarrow> (r, d\<lparr>replies := rs\<rparr>))"

text \<open>
  Run one statement. \<open>cols\<close> are the newer columns it names, each as the catalogue knows it
  and as the statement wrote it.
\<close>

definition exec ::
  "string \<Rightarrow> (string \<times> string) list \<Rightarrow> ('x db_scheme \<Rightarrow> 'a res \<times> 'x db_scheme)
   \<Rightarrow> 'x db_scheme \<Rightarrow> 'a res \<times> 'x db_scheme" where
  "exec name cols stmt d =
     (case take_reply (emit (Stmt name) d) of (r, d1) \<Rightarrow>
        (case find (\<lambda>(k, _). k \<in> set (missing_columns d1)) cols of
           Some (_, c) \<Rightarrow>
             (Inl (case r of Fails e \<Rightarrow> e | _ \<Rightarrow> unknown_column c), d1)
         | None \<Rightarrow>
             (case r of
                Succeeds \<Rightarrow> stmt d1
              | Fails e \<Rightarrow> (Inl e, d1)
              | Lost e \<Rightarrow> (Inl e, snd (stmt d1)))))"

text \<open>An UPDATE or INSERT that no constraint can refuse, and a SELECT.\<close>

definition writes :: "('x db_scheme \<Rightarrow> 'x db_scheme) \<Rightarrow> 'x db_scheme \<Rightarrow> unit res \<times> 'x db_scheme" where
  "writes f d = (Inr (), f d)"

definition selects :: "('x db_scheme \<Rightarrow> 'a res) \<Rightarrow> 'x db_scheme \<Rightarrow> 'a res \<times> 'x db_scheme" where
  "selects f d = (f d, d)"

text \<open>\<open>QueryRow(...).Scan\<close> without a row is \<open>sql.ErrNoRows\<close>.\<close>

definition one_row :: "'a option \<Rightarrow> 'a res" where
  "one_row r = (case r of None \<Rightarrow> Inl ErrNoRows | Some x \<Rightarrow> Inr x)"

section \<open>What every statement keeps\<close>

text \<open>
  A statement can touch the tables its text names, consumes one reply and leaves one
  event. The lemmas below say so once for all statements.
\<close>

lemma take_reply_fields [simp]:
  "wa_chats (snd (take_reply d)) = wa_chats d"
  "wa_messages (snd (take_reply d)) = wa_messages d"
  "wa_outbound (snd (take_reply d)) = wa_outbound d"
  "wa_pairing (snd (take_reply d)) = wa_pairing d"
  "wa_typing_outbound (snd (take_reply d)) = wa_typing_outbound d"
  "missing_columns (snd (take_reply d)) = missing_columns d"
  "utc_now (snd (take_reply d)) = utc_now d"
  "server_now (snd (take_reply d)) = server_now d"
  "trace (snd (take_reply d)) = trace d"
  "db.more (snd (take_reply d)) = db.more d"
  by (simp_all add: take_reply_def split: list.split)

lemma emit_fields [simp]:
  "wa_chats (emit e d) = wa_chats d"
  "wa_messages (emit e d) = wa_messages d"
  "wa_outbound (emit e d) = wa_outbound d"
  "wa_pairing (emit e d) = wa_pairing d"
  "wa_typing_outbound (emit e d) = wa_typing_outbound d"
  "missing_columns (emit e d) = missing_columns d"
  "replies (emit e d) = replies d"
  "utc_now (emit e d) = utc_now d"
  "server_now (emit e d) = server_now d"
  "trace (emit e d) = trace d @ [e]"
  "db.more (emit e d) = db.more d"
  by (simp_all add: emit_def)

text \<open>
  The outcome of a statement: it ran (perhaps with its answer lost), or it changed
  nothing but the connection.
\<close>

definition sent_off :: "string \<Rightarrow> 'x db_scheme \<Rightarrow> 'x db_scheme" where
  "sent_off name d = snd (take_reply (emit (Stmt name) d))"

lemma sent_off_fields [simp]:
  "wa_chats (sent_off n d) = wa_chats d"
  "wa_messages (sent_off n d) = wa_messages d"
  "wa_outbound (sent_off n d) = wa_outbound d"
  "wa_pairing (sent_off n d) = wa_pairing d"
  "wa_typing_outbound (sent_off n d) = wa_typing_outbound d"
  "missing_columns (sent_off n d) = missing_columns d"
  "utc_now (sent_off n d) = utc_now d"
  "server_now (sent_off n d) = server_now d"
  "trace (sent_off n d) = trace d @ [Stmt n]"
  "db.more (sent_off n d) = db.more d"
  by (simp_all add: sent_off_def)

lemma sent_off_replies [simp]: "replies (sent_off n d) = tl (replies d)"
  by (simp add: sent_off_def take_reply_def split: list.split)

lemma exec_cases [consumes 1, case_names ran lost refused]:
  assumes "exec name cols stmt d = (r, d')"
  obtains "(r, d') = stmt (sent_off name d)"
  | e where "r = Inl e" "d' = snd (stmt (sent_off name d))"
  | e where "r = Inl e" "d' = sent_off name d"
  using assms unfolding exec_def sent_off_def
  by (auto split: prod.splits option.splits reply.splits)

lemma exec_snd:
  "snd (exec name cols stmt d) = snd (stmt (sent_off name d)) \<or>
   snd (exec name cols stmt d) = sent_off name d"
  by (auto simp: exec_def sent_off_def split: prod.splits option.splits reply.splits)

lemma exec_Inr: "exec name cols stmt d = (Inr x, d') \<Longrightarrow> stmt (sent_off name d) = (Inr x, d')"
  by (auto elim!: exec_cases)

lemma exec_quiet:
  assumes "replies d = []"
  shows "exec name cols stmt d =
    (case find (\<lambda>(k, _). k \<in> set (missing_columns d)) cols of
       Some (_, c) \<Rightarrow> (Inl (unknown_column c), sent_off name d)
     | None \<Rightarrow> stmt (sent_off name d))"
  using assms by (simp add: exec_def take_reply_def sent_off_def split: option.split)

lemma exec_quiet_known:
  assumes "replies d = []" "\<forall>(k, c) \<in> set cols. k \<notin> set (missing_columns d)"
  shows "exec name cols stmt d = stmt (sent_off name d)"
proof -
  have "find (\<lambda>(k, _). k \<in> set (missing_columns d)) cols = None"
    using assms(2) by (auto simp: find_None_iff)
  then show ?thesis using assms(1) by (simp add: exec_quiet)
qed

lemma writes_simps [simp]: "fst (writes f d) = Inr ()" "snd (writes f d) = f d"
  by (simp_all add: writes_def)

lemma selects_simps [simp]: "fst (selects f d) = f d" "snd (selects f d) = d"
  by (simp_all add: selects_def)

text \<open>
  A property that no statement text can break is kept by \<^const>\<open>exec\<close>: the contract of a
  statement with respect to an invariant \<open>I\<close> of the tables.
\<close>

lemma exec_keeps:
  assumes "I (sent_off name d)"
    and "\<And>d. I d \<Longrightarrow> I (snd (stmt d))"
  shows "I (snd (exec name cols stmt d))"
  using exec_snd [of name cols stmt d] assms by auto

lemma exec_unchanged:
  assumes "f (sent_off name d) = f d" and "\<And>d. f (snd (stmt d)) = f d"
  shows "f (snd (exec name cols stmt d)) = f d"
  using exec_keeps [of "\<lambda>d'. f d' = f d" name d stmt cols] assms by simp

end
