(* ===== verification/StoreCore.thy ===== *)
theory StoreCore
  imports Sql
begin

text \<open>
  \<open>internal/store/store.go\<close>, the \<open>Store\<close> itself: its state, the reading of MySQL's
  unknown-column error, and \<open>Fallback\<close>, which runs a statement with newer columns and
  switches to the legacy statement when the database does not have them. The locale
  \<open>store_op\<close> is the contract every method of the store keeps towards its callers.
\<close>

section \<open>State\<close>

text \<open>
  \<open>off\<close> is \<open>Store.off\<close> (the features already switched to their legacy statement);
  \<open>logged\<close> records the features \<open>Fallback\<close> wrote its log line for. The mutex has no
  counterpart: the model runs one call at a time.
\<close>

record store = db +
  off :: "string set"
  logged :: "string list"

definition featureQuotes :: string where "featureQuotes = ''wa_messages.quotes''"
definition featureEdits :: string where "featureEdits = ''wa_messages.edits''"
definition featureLocation :: string where "featureLocation = ''wa_messages.location''"
definition featureOutboundLocation :: string where
  "featureOutboundLocation = ''wa_outbound.location''"
definition featureHeartbeat :: string where "featureHeartbeat = ''wa_pairing.last_seen_at''"
definition featureBridgeFeatures :: string where
  "featureBridgeFeatures = ''wa_pairing.bridge_features''"
definition featureErrorCode :: string where "featureErrorCode = ''wa_outbound.error_code''"

lemmas feature_defs = featureQuotes_def featureEdits_def featureLocation_def
  featureOutboundLocation_def featureHeartbeat_def featureBridgeFeatures_def featureErrorCode_def

section \<open>The unknown-column error\<close>

definition IsUnknownColumn :: "go_error \<Rightarrow> bool" where
  "IsUnknownColumn e = (case as_mysql_error e of Some (n, _) \<Rightarrow> n = 1054 | None \<Rightarrow> False)"

text \<open>\<open>strings.IndexByte\<close>.\<close>

definition index_byte :: "char \<Rightarrow> string \<Rightarrow> nat option" where
  "index_byte c s =
     (if c \<in> set s then Some (length (takeWhile (\<lambda>x. x \<noteq> c) s)) else None)"

definition unknownColumnRef :: "go_error \<Rightarrow> string" where
  "unknownColumnRef e =
     (case as_mysql_error e of
        None \<Rightarrow> ''''
      | Some (_, msg) \<Rightarrow>
          (case index_byte (CHR 0x27) msg of
             None \<Rightarrow> ''''
           | Some i \<Rightarrow>
               (case index_byte (CHR 0x27) (drop (i + 1) msg) of
                  None \<Rightarrow> ''''
                | Some j \<Rightarrow> take j (drop (i + 1) msg))))"

definition unknownColumnName :: "go_error \<Rightarrow> string" where
  "unknownColumnName e =
     (let col = unknownColumnRef e
      in if CHR ''.'' \<in> set col then rev (takeWhile (\<lambda>c. c \<noteq> CHR ''.'') (rev col)) else col)"

definition columnFeature :: "string \<Rightarrow> string option" where
  "columnFeature = map_of
     [(''location_name'', featureLocation),
      (''location_address'', featureLocation),
      (''wa_outbound.location_name'', featureOutboundLocation),
      (''wa_outbound.location_address'', featureOutboundLocation),
      (''wa_outbound.location_url'', featureOutboundLocation)]"

definition columnOwner :: "go_error \<Rightarrow> string option" where
  "columnOwner e =
     (case columnFeature (unknownColumnRef e) of
        Some owner \<Rightarrow> Some owner
      | None \<Rightarrow>
          if unknownColumnName e = unknownColumnRef e then None
          else columnFeature (unknownColumnName e))"

lemma IsUnknownColumn_unknown_column [simp]: "IsUnknownColumn (unknown_column c)"
  by (simp add: IsUnknownColumn_def unknown_column_def Let_def)

lemma index_byte_append: "c \<notin> set s \<Longrightarrow> index_byte c (s @ c # t) = Some (length s)"
  by (induction s) (auto simp: index_byte_def)

text \<open>Reading the column back out of MySQL's message gives the column as it was written.\<close>

lemma unknownColumnRef_unknown_column:
  assumes "CHR 0x27 \<notin> set c"
  shows "unknownColumnRef (unknown_column c) = c"
proof -
  let ?q = "CHR 0x27"
  define a where "a = ''Unknown column ''"
  define b where "b = '' in '' @ [?q] @ ''field list'' @ [?q]"
  have a: "?q \<notin> set a" by (simp add: a_def)
  have msg: "as_mysql_error (unknown_column c) = Some (1054, a @ ?q # c @ ?q # b)"
    by (simp add: unknown_column_def Let_def a_def b_def)
  show ?thesis
    using index_byte_append [OF a, of "c @ ?q # b"] index_byte_append [OF assms, of b]
    by (simp add: unknownColumnRef_def msg)
qed

lemma columnOwner_unknown_column:
  assumes "CHR 0x27 \<notin> set c"
  shows "columnOwner (unknown_column c) =
    (case columnFeature c of
       Some owner \<Rightarrow> Some owner
     | None \<Rightarrow>
         if CHR ''.'' \<in> set c
         then columnFeature (rev (takeWhile (\<lambda>x. x \<noteq> CHR ''.'') (rev c))) else None)"
proof -
  have "rev (takeWhile (\<lambda>x. x \<noteq> CHR ''.'') (rev c)) \<noteq> c" if "CHR ''.'' \<in> set c"
    using that by (metis rev_rev_ident set_rev set_takeWhileD)
  then show ?thesis
    using assms
    by (auto simp: columnOwner_def unknownColumnName_def unknownColumnRef_unknown_column
        Let_def split: option.split)
qed

section \<open>Fallback\<close>

definition FeatureOff :: "string \<Rightarrow> store \<Rightarrow> bool" where
  "FeatureOff feature s \<longleftrightarrow> feature \<in> off s"

definition switch_off :: "string \<Rightarrow> store \<Rightarrow> store" where
  "switch_off feature s =
     s\<lparr>off := insert feature (off s),
       logged := (if feature \<in> off s then logged s else logged s @ [feature])\<rparr>"

lemma switch_off_fields [simp]:
  "wa_messages (switch_off f s) = wa_messages s" "wa_chats (switch_off f s) = wa_chats s"
  "wa_outbound (switch_off f s) = wa_outbound s" "wa_pairing (switch_off f s) = wa_pairing s"
  "wa_typing_outbound (switch_off f s) = wa_typing_outbound s"
  "missing_columns (switch_off f s) = missing_columns s" "replies (switch_off f s) = replies s"
  "utc_now (switch_off f s) = utc_now s" "server_now (switch_off f s) = server_now s"
  "off (switch_off f s) = insert f (off s)" "trace (switch_off f s) = trace s"
  by (simp_all add: switch_off_def)

text \<open>
  \<open>oldFn = None\<close> is Go's \<open>nil\<close>: the call is skipped, without error, and what the closure
  would have assigned keeps the value \<open>skipped\<close> it had before.
\<close>

definition legacy ::
  "(store \<Rightarrow> 'a res \<times> store) option \<Rightarrow> 'a \<Rightarrow> store \<Rightarrow> 'a res \<times> store" where
  "legacy oldFn skipped s =
     (case oldFn of None \<Rightarrow> (Inr skipped, s) | Some f \<Rightarrow> f s)"

definition Fallback ::
  "string \<Rightarrow> (store \<Rightarrow> 'a res \<times> store) \<Rightarrow> (store \<Rightarrow> 'a res \<times> store) option \<Rightarrow> 'a
   \<Rightarrow> store \<Rightarrow> 'a res \<times> store" where
  "Fallback feature newFn oldFn skipped s =
     (if FeatureOff feature s then legacy oldFn skipped s
      else
        (case newFn s of
           (Inr x, s1) \<Rightarrow> (Inr x, s1)
         | (Inl e, s1) \<Rightarrow>
             if \<not> IsUnknownColumn e then (Inl e, s1)
             else if (case columnOwner e of Some owner \<Rightarrow> owner \<noteq> feature | None \<Rightarrow> False)
               then (Inl e, s1)
             else legacy oldFn skipped (switch_off feature s1)))"

lemma Fallback_cases [consumes 1, case_names off ran fell]:
  assumes "Fallback f newFn oldFn x s = (r, s')"
  obtains "f \<in> off s" "legacy oldFn x s = (r, s')"
  | "f \<notin> off s" "newFn s = (r, s')"
  | e s1 where "f \<notin> off s" "newFn s = (Inl e, s1)" "IsUnknownColumn e"
      "legacy oldFn x (switch_off f s1) = (r, s')"
  using assms unfolding Fallback_def FeatureOff_def
  by (auto split: if_splits prod.splits sum.splits)

section \<open>Well-formed tables and the contract of a store method\<close>

text \<open>
  The primary keys, the two foreign keys to \<open>wa_chats\<close> the code relies on, and the unread
  counters.
\<close>

definition tables_ok :: "'x db_scheme \<Rightarrow> bool" where
  "tables_ok d \<longleftrightarrow>
     distinct (map c_jid (wa_chats d)) \<and>
     distinct (map m_id (wa_messages d)) \<and>
     distinct (map o_id (wa_outbound d)) \<and>
     distinct (map t_chat_jid (wa_typing_outbound d)) \<and>
     m_chat_jid ` set (wa_messages d) \<subseteq> c_jid ` set (wa_chats d) \<and>
     o_chat_jid ` set (wa_outbound d) \<subseteq> insert None (Some ` c_jid ` set (wa_chats d)) \<and>
     (\<forall>c \<in> set (wa_chats d). 0 \<le> c_unread_count c)"

text \<open>
  No answer pretends that a row is missing: \<open>sql.ErrNoRows\<close> comes from an empty result
  only, never from the connection.
\<close>

definition honest :: "'x db_scheme \<Rightarrow> bool" where
  "honest d \<longleftrightarrow> list_all (\<lambda>r. case r of
     Succeeds \<Rightarrow> True | Fails e \<Rightarrow> \<not> errors_is e ErrNoRows | Lost e \<Rightarrow> \<not> errors_is e ErrNoRows)
     (replies d)"

text \<open>
  \<open>evolves s s'\<close>: what any sequence of store calls may do. Features only go off, one log
  line per feature, the schema and the clocks are not the program's to change, the trace
  only grows, and the tables stay well-formed.
\<close>

definition evolves :: "store \<Rightarrow> store \<Rightarrow> bool" where
  "evolves s s' \<longleftrightarrow>
     off s \<subseteq> off s' \<and>
     missing_columns s' = missing_columns s \<and>
     utc_now s' = utc_now s \<and> server_now s' = server_now s \<and>
     prefix (trace s) (trace s') \<and>
     (distinct (logged s) \<and> set (logged s) \<subseteq> off s \<longrightarrow>
        distinct (logged s') \<and> set (logged s') \<subseteq> off s') \<and>
     (tables_ok s \<longrightarrow> tables_ok s') \<and>
     suffix (replies s') (replies s)"

lemma evolves_refl [simp]: "evolves s s"
  by (simp add: evolves_def)

lemma evolves_trans [trans]: "evolves s s' \<Longrightarrow> evolves s' s'' \<Longrightarrow> evolves s s''"
  unfolding evolves_def by (auto intro: prefix_order.trans suffix_order.trans)

lemma evolves_switch_off [simp]: "evolves s (switch_off f s)"
  by (auto simp: evolves_def switch_off_def tables_ok_def)

lemma tables_ok_sent_off [simp]: "tables_ok (sent_off n d) = tables_ok d"
  by (simp add: tables_ok_def)

lemma store_sent_off [simp]: "off (sent_off n s) = off s" "logged (sent_off n s) = logged s"
  by (simp_all add: sent_off_def take_reply_def emit_def split: list.split)

lemma suffix_tl_self [simp]: "suffix (tl xs) xs"
  by (cases xs) (auto simp: suffix_def)

lemma evolves_sent_off [simp]: "evolves s (sent_off n s)"
  by (auto simp: evolves_def)

lemma evolves_exec:
  assumes "\<And>s. evolves s (snd (stmt s))"
  shows "evolves s (snd (exec n cols stmt s))"
  using exec_snd [of n cols stmt s] assms [of "sent_off n s"]
  by (metis evolves_sent_off evolves_trans)

lemma evolves_selects [simp]: "evolves s (snd (selects f s))"
  by simp

lemma evolves_exec_selects [simp]: "evolves s (snd (exec n cols (selects f) s))"
  by (rule evolves_exec) simp

lemma evolves_legacy:
  assumes "\<And>f s. oldFn = Some f \<Longrightarrow> evolves s (snd (f s))"
  shows "evolves s (snd (legacy oldFn x s))"
  using assms by (auto simp: legacy_def split: option.split)

lemma evolves_Fallback:
  assumes "\<And>s. evolves s (snd (newFn s))"
    and "\<And>f s. oldFn = Some f \<Longrightarrow> evolves s (snd (f s))"
  shows "evolves s (snd (Fallback feature newFn oldFn x s))"
proof -
  have leg: "evolves s (snd (legacy oldFn x s))" for s
    using assms(2) by (rule evolves_legacy)
  have new: "evolves s s1" if "newFn s = (r, s1)" for r s1
    using assms(1) [of s] that by simp
  then show ?thesis
    using leg
    by (auto simp: Fallback_def split: prod.split sum.split
        intro: evolves_trans [OF evolves_trans [OF new evolves_switch_off]])
qed

text \<open>The two shapes in which the program continues after a call.\<close>

lemma evolves_case_sum:
  assumes "\<And>x. evolves s (snd (f x))" and "\<And>e. evolves s (snd (g e))"
  shows "evolves s (snd (case r of Inr x \<Rightarrow> f x | Inl e \<Rightarrow> g e))"
  using assms by (simp split: sum.split)

lemma evolves_case_prod:
  assumes "evolves s (snd p)" and "\<And>r s1. evolves s1 (snd (f r s1))"
  shows "evolves s (snd (case p of (r, s1) \<Rightarrow> f r s1))"
  using assms by (cases p) (auto intro: evolves_trans)

lemmas evolves_intros = evolves_case_prod evolves_case_sum evolves_Fallback evolves_exec

locale store_op =
  fixes run :: "store \<Rightarrow> 'r \<times> store"
  assumes run_evolves: "evolves s (snd (run s))"
begin

lemma run_off: "f \<in> off s \<Longrightarrow> f \<in> off (snd (run s))"
  using run_evolves [of s] by (auto simp: evolves_def)

lemma run_tables: "tables_ok s \<Longrightarrow> tables_ok (snd (run s))"
  using run_evolves [of s] by (auto simp: evolves_def)

lemma run_schema: "missing_columns (snd (run s)) = missing_columns s"
  using run_evolves [of s] by (auto simp: evolves_def)

lemma run_clock: "utc_now (snd (run s)) = utc_now s" "server_now (snd (run s)) = server_now s"
  using run_evolves [of s] by (auto simp: evolves_def)

lemma run_trace: "\<exists>es. trace (snd (run s)) = trace s @ es"
  using run_evolves [of s] by (auto simp: evolves_def prefix_def)

lemma run_quiet: "replies s = [] \<Longrightarrow> replies (snd (run s)) = []"
  using run_evolves [of s] by (auto simp: evolves_def)

lemma run_honest: "honest s \<Longrightarrow> honest (snd (run s))"
  using run_evolves [of s] by (auto simp: evolves_def honest_def suffix_def)

lemma run_then:
  assumes "\<And>r s. evolves s (snd (g r s))"
  shows "evolves s (snd (case run s of (r, s1) \<Rightarrow> g r s1))"
  using run_evolves [of s] assms by (auto split: prod.split intro: evolves_trans)

end

end
