(* ===== verification/StoreMessages.thy ===== *)
theory StoreMessages
  imports StoreCore
begin

text \<open>
  \<open>internal/store/store.go\<close>, the methods on \<open>wa_messages\<close>: insertion with its two nested
  fallbacks, edits, deletes for everyone, reactions, the row an outbound reply quotes, and
  delivery status.
\<close>

section \<open>Insertion\<close>

definition set_messages :: "(message_row list \<Rightarrow> message_row list) \<Rightarrow> store \<Rightarrow> store" where
  "set_messages f s = s\<lparr>wa_messages := f (wa_messages s)\<rparr>"

text \<open>The stored row: the columns the INSERT does not name are NULL.\<close>

definition stored :: "message \<Rightarrow> message_row" where
  "stored m = message.extend m (message_row.fields None None None None)"

text \<open>
  \<open>INSERT IGNORE\<close>: a duplicate primary key and a missing chat (the foreign key) both make
  the row be dropped without an error.
\<close>

definition insert_ignore :: "message \<Rightarrow> store \<Rightarrow> unit res \<times> store" where
  "insert_ignore m =
     writes (\<lambda>s. if m_id m \<in> m_id ` set (wa_messages s) \<or> m_chat_jid m \<notin> c_jid ` set (wa_chats s)
                 then s else set_messages (\<lambda>ms. ms @ [stored m]) s)"

definition without_location :: "message \<Rightarrow> message" where
  "without_location m = m\<lparr>m_location_name := None, m_location_address := None\<rparr>"

definition without_quotes :: "message \<Rightarrow> message" where
  "without_quotes m =
     m\<lparr>m_quoted_preview := None, m_quoted_sender_jid := None, m_target_message_id := None\<rparr>"

definition quote_cols :: "(string \<times> string) list" where
  "quote_cols =
     [(''wa_messages.quoted_preview'', ''quoted_preview''),
      (''wa_messages.quoted_sender_jid'', ''quoted_sender_jid''),
      (''wa_messages.target_message_id'', ''target_message_id'')]"

definition location_cols :: "(string \<times> string) list" where
  "location_cols =
     [(''wa_messages.location_name'', ''location_name''),
      (''wa_messages.location_address'', ''location_address'')]"

definition insertMessage :: "message \<Rightarrow> bool \<Rightarrow> store \<Rightarrow> unit res \<times> store" where
  "insertMessage m withLocation =
     (let locCols = (if withLocation then location_cols else []);
          row = (if withLocation then m else without_location m)
      in Fallback featureQuotes
           (exec ''INSERT wa_messages'' (quote_cols @ locCols) (insert_ignore row))
           (Some (exec ''INSERT wa_messages'' locCols (insert_ignore (without_quotes row))))
           ())"

definition InsertMessage :: "message \<Rightarrow> store \<Rightarrow> unit res \<times> store" where
  "InsertMessage m =
     (if m_location_name m = None \<and> m_location_address m = None then insertMessage m False
      else Fallback featureLocation (insertMessage m True) (Some (insertMessage m False)) ())"

section \<open>Edits and deletes\<close>

record message_ref =
  ref_chat_jid :: string
  ref_from_me :: bool

definition no_ref :: message_ref where
  "no_ref = \<lparr>ref_chat_jid = '''', ref_from_me = False\<rparr>"

definition LocateMessage ::
  "string \<Rightarrow> string list \<Rightarrow> store \<Rightarrow> (message_ref \<times> bool \<times> go_error option) \<times> store" where
  "LocateMessage mid chats s =
     (if mid = '''' \<or> chats = [] then ((no_ref, False, None), s)
      else
        (case exec ''SELECT wa_messages''  []
                (selects (\<lambda>s. one_row (find (\<lambda>m. m_id m = mid \<and> m_chat_jid m \<in> set chats)
                                         (wa_messages s)))) s of
           (Inr m, s1) \<Rightarrow>
             ((\<lparr>ref_chat_jid = m_chat_jid m, ref_from_me = m_from_me m\<rparr>, True, None), s1)
         | (Inl e, s1) \<Rightarrow>
             if errors_is e ErrNoRows then ((no_ref, False, None), s1)
             else ((no_ref, False, Some e), s1)))"

definition edit_cols :: "(string \<times> string) list" where
  "edit_cols = [(''wa_messages.original_body'', ''original_body''),
                (''wa_messages.edited_at'', ''edited_at'')]"

definition revoke_cols :: "(string \<times> string) list" where
  "revoke_cols = [(''wa_messages.revoked_at'', ''revoked_at'')]"

text \<open>\<open>UPDATE wa_messages SET ... WHERE id = ? AND chat_jid = ?\<close>.\<close>

definition update_message ::
  "string \<Rightarrow> string \<Rightarrow> (int \<Rightarrow> message_row \<Rightarrow> message_row) \<Rightarrow> store \<Rightarrow> unit res \<times> store" where
  "update_message mid chat f =
     writes (\<lambda>s. set_messages
       (update_where (\<lambda>m. m_id m = mid \<and> m_chat_jid m = chat) (f (utc_now s))) s)"

text \<open>MySQL evaluates the assignments from left to right, so \<open>original_body\<close> reads the old body.\<close>

definition edit_row :: "string option \<Rightarrow> int \<Rightarrow> message_row \<Rightarrow> message_row" where
  "edit_row newBody now m =
     m\<lparr>m_original_body := coalesce (m_original_body m) (m_body m),
       m_body := newBody, m_edited_at := Some now\<rparr>"

definition revoke_row :: "int \<Rightarrow> message_row \<Rightarrow> message_row" where
  "revoke_row now m = m\<lparr>m_revoked_at := coalesce (m_revoked_at m) (Some now)\<rparr>"

definition ApplyEdit ::
  "string list \<Rightarrow> string \<Rightarrow> bool \<Rightarrow> string option \<Rightarrow> store
   \<Rightarrow> (message_ref \<times> bool \<times> go_error option) \<times> store" where
  "ApplyEdit chats targetID fromMe newBody s =
     (case LocateMessage targetID chats s of
        ((ref, found, err), s1) \<Rightarrow>
          if err \<noteq> None \<or> \<not> found then ((ref, found, err), s1)
          else if ref_from_me ref \<noteq> fromMe then ((ref, True, Some ErrNotAuthor), s1)
          else
            (case Fallback featureEdits
                    (exec ''UPDATE wa_messages edit'' edit_cols
                       (update_message targetID (ref_chat_jid ref) (edit_row newBody)))
                    None () s1 of
               (Inl e, s2) \<Rightarrow> ((ref, True, Some e), s2)
             | (Inr _, s2) \<Rightarrow>
                 if FeatureOff featureEdits s2 then ((ref, True, Some ErrEditsUnsupported), s2)
                 else ((ref, True, None), s2)))"

definition RevokeMessage ::
  "string list \<Rightarrow> string \<Rightarrow> bool \<Rightarrow> bool \<Rightarrow> store
   \<Rightarrow> (message_ref \<times> bool \<times> go_error option) \<times> store" where
  "RevokeMessage chats targetID fromMe isGroup s =
     (if FeatureOff featureEdits s then ((no_ref, False, None), s)
      else
        (case LocateMessage targetID chats s of
           ((ref, found, err), s1) \<Rightarrow>
             if err \<noteq> None \<or> \<not> found then ((ref, found, err), s1)
             else if \<not> isGroup \<and> ref_from_me ref \<noteq> fromMe
               then ((ref, True, Some ErrNotAuthor), s1)
             else
               (case Fallback featureEdits
                       (exec ''UPDATE wa_messages revoke'' revoke_cols
                          (update_message targetID (ref_chat_jid ref) revoke_row))
                       None () s1 of
                  (Inl e, s2) \<Rightarrow> ((ref, True, Some e), s2)
                | (Inr _, s2) \<Rightarrow>
                    if FeatureOff featureEdits s2 then ((ref, False, None), s2)
                    else ((ref, True, None), s2))))"

section \<open>Reactions\<close>

record reaction =
  r_id :: string
  r_chat_jid :: string
  r_sender_jid :: "string option"
  r_sender_aliases :: "string list"
  r_from_me :: bool
  r_is_group :: bool
  r_target_id :: string
  r_emoji :: string
  r_timestamp :: int

definition reactionStatus :: "bool \<Rightarrow> string" where
  "reactionStatus fromMe = (if fromMe then ''sent'' else ''received'')"

text \<open>\<open>ORDER BY timestamp DESC LIMIT 1\<close>.\<close>

definition newest :: "message_row list \<Rightarrow> message_row option" where
  "newest ms = (case sort_key (\<lambda>m. - m_timestamp m) ms of [] \<Rightarrow> None | m # _ \<Rightarrow> Some m)"

definition reaction_senders :: "reaction \<Rightarrow> string list" where
  "reaction_senders r =
     (if r_sender_aliases r = [] then [null_str (r_sender_jid r)] else r_sender_aliases r)"

text \<open>The WHERE clause that finds the sender's earlier reaction on the same message.\<close>

definition reaction_types :: "string set" where
  "reaction_types = {''reaction'', ''system''}"

definition same_reactor :: "reaction \<Rightarrow> message_row \<Rightarrow> bool" where
  "same_reactor r m \<longleftrightarrow>
     m_chat_jid m = r_chat_jid r \<and> m_target_message_id m = Some (r_target_id r) \<and>
     m_message_type m \<in> reaction_types \<and> m_from_me m = r_from_me r \<and>
     (\<not> r_from_me r \<and> r_is_group r \<longrightarrow>
        (case m_sender_jid m of None \<Rightarrow> False | Some j \<Rightarrow> j \<in> set (reaction_senders r)))"

definition empty_message :: message where
  "empty_message =
     \<lparr>m_id = '''', m_chat_jid = '''', m_sender_jid = None, m_from_me = False,
      m_message_type = '''', m_body = None, m_media_url = None, m_media_mime = None,
      m_media_size = None, m_media_filename = None, m_media_sha256 = None,
      m_media_thumbnail_url = None, m_quoted_message_id = None, m_quoted_preview = None,
      m_quoted_sender_jid = None, m_target_message_id = None, m_client_request_id = None,
      m_location_name = None, m_location_address = None, m_timestamp = 0, m_status = None\<rparr>"

definition legacy_reaction_message :: "reaction \<Rightarrow> message" where
  "legacy_reaction_message r = empty_message
     \<lparr>m_id := r_id r, m_chat_jid := r_chat_jid r, m_sender_jid := r_sender_jid r,
      m_from_me := r_from_me r, m_message_type := ''reaction'', m_body := Some (r_emoji r),
      m_timestamp := r_timestamp r, m_status := Some (reactionStatus (r_from_me r))\<rparr>"

definition insertLegacyReaction :: "reaction \<Rightarrow> store \<Rightarrow> unit res \<times> store" where
  "insertLegacyReaction r = InsertMessage (legacy_reaction_message r)"

definition reaction_message :: "reaction \<Rightarrow> message" where
  "reaction_message r = (legacy_reaction_message r)\<lparr>m_target_message_id := Some (r_target_id r)\<rparr>"

text \<open>\<open>UPDATE wa_messages SET ... WHERE id = ? AND timestamp <= ?\<close>.\<close>

definition update_reaction ::
  "string \<Rightarrow> int \<Rightarrow> (message_row \<Rightarrow> message_row) \<Rightarrow> store \<Rightarrow> unit res \<times> store" where
  "update_reaction mid ts f =
     writes (set_messages (update_where (\<lambda>m. m_id m = mid \<and> m_timestamp m \<le> ts) f))"

definition target_col :: "(string \<times> string) list" where
  "target_col = [(''wa_messages.target_message_id'', ''target_message_id'')]"

text \<open>The switch of \<open>UpsertReaction\<close>: what happens to the sender's reaction row.\<close>

definition reaction_write :: "reaction \<Rightarrow> string \<Rightarrow> store \<Rightarrow> unit res \<times> store" where
  "reaction_write r existing =
     (if existing \<noteq> '''' \<and> r_emoji r = '''' then
        exec ''UPDATE wa_messages reaction'' []
          (update_reaction existing (r_timestamp r)
             (\<lambda>m. m\<lparr>m_message_type := ''system'', m_body := None, m_timestamp := r_timestamp r\<rparr>))
      else if existing \<noteq> '''' then
        exec ''UPDATE wa_messages reaction'' []
          (update_reaction existing (r_timestamp r)
             (\<lambda>m. m\<lparr>m_message_type := ''reaction'', m_body := Some (r_emoji r),
                    m_timestamp := r_timestamp r\<rparr>))
      else InsertMessage (reaction_message r))"

text \<open>The two closures that look the sender's earlier reaction up; empty when there is none.\<close>

definition lookup_reaction :: "reaction \<Rightarrow> store \<Rightarrow> string res \<times> store" where
  "lookup_reaction r s =
     (case exec ''SELECT wa_messages'' target_col
             (selects (\<lambda>s. one_row (newest (filter (same_reactor r) (wa_messages s))))) s of
        (Inr m, s1) \<Rightarrow> (Inr (m_id m), s1)
      | (Inl e, s1) \<Rightarrow> if errors_is e ErrNoRows then (Inr '''', s1) else (Inl e, s1))"

definition legacy_reaction :: "reaction \<Rightarrow> store \<Rightarrow> string res \<times> store" where
  "legacy_reaction r s =
     (if r_emoji r = '''' then (Inr '''', s)
      else
        (case insertLegacyReaction r s of
           (Inl e, s1) \<Rightarrow> (Inl e, s1) | (Inr _, s1) \<Rightarrow> (Inr '''', s1)))"

definition UpsertReaction :: "reaction \<Rightarrow> store \<Rightarrow> unit res \<times> store" where
  "UpsertReaction r s =
     (if r_target_id r = '''' then (Inr (), s)
      else
        (case Fallback featureQuotes (lookup_reaction r) (Some (legacy_reaction r)) '''' s of
           (Inl e, s1) \<Rightarrow> (Inl e, s1)
         | (Inr existing, s1) \<Rightarrow>
             if FeatureOff featureQuotes s1 then (Inr (), s1)
             else if existing = '''' \<and> r_emoji r = '''' then (Inr (), s1)
             else
               (case reaction_write r existing s1 of
                  (Inl e, s2) \<Rightarrow> (Inl e, s2)
                | (Inr _, s2) \<Rightarrow>
                    exec ''UPDATE wa_messages status_updated_at'' []
                      (update_message (r_target_id r) (r_chat_jid r)
                         (\<lambda>now m. m\<lparr>m_status_updated_at := Some now\<rparr>)) s2)))"

section \<open>The row an outbound reply or reaction points at\<close>

record quoted_row =
  q_sender_jid :: "string option"
  q_from_me :: bool
  q_message_type :: string
  q_body :: "string option"
  q_media_filename :: "string option"
  q_revoked :: bool

definition Quotable :: "quoted_row \<Rightarrow> bool" where
  "Quotable r \<longleftrightarrow>
     \<not> q_revoked r \<and> q_message_type r \<notin> {''revoked'', ''reaction'', ''system''}"

definition quoted_of :: "bool \<Rightarrow> message_row \<Rightarrow> quoted_row" where
  "quoted_of edits m =
     \<lparr>q_sender_jid = m_sender_jid m, q_from_me = m_from_me m, q_message_type = m_message_type m,
      q_body = m_body m, q_media_filename = m_media_filename m,
      q_revoked = (edits \<and> m_revoked_at m \<noteq> None)\<rparr>"

definition scan_quoted ::
  "string \<Rightarrow> string \<Rightarrow> bool \<Rightarrow> store \<Rightarrow> quoted_row res \<times> store" where
  "scan_quoted chatJID mid edits =
     exec ''SELECT wa_messages quoted'' (if edits then revoke_cols else [])
       (selects (\<lambda>s. one_row (map_option (quoted_of edits)
          (find (\<lambda>m. m_id m = mid \<and> m_chat_jid m = chatJID) (wa_messages s)))))"

definition GetQuotedRow ::
  "string \<Rightarrow> string \<Rightarrow> store \<Rightarrow> quoted_row option res \<times> store" where
  "GetQuotedRow chatJID mid s =
     (case Fallback featureEdits (\<lambda>s. case scan_quoted chatJID mid True s of
                                     (Inr q, s1) \<Rightarrow> (Inr (Some q), s1) | (Inl e, s1) \<Rightarrow> (Inl e, s1))
             (Some (\<lambda>s. case scan_quoted chatJID mid False s of
                         (Inr q, s1) \<Rightarrow> (Inr (Some q), s1) | (Inl e, s1) \<Rightarrow> (Inl e, s1)))
             None s of
        (Inl e, s1) \<Rightarrow> if errors_is e ErrNoRows then (Inr None, s1) else (Inl e, s1)
      | (Inr q, s1) \<Rightarrow> (Inr q, s1))"

section \<open>Delivery status\<close>

definition status_rank :: "string \<Rightarrow> nat option" where
  "status_rank = map_of [(''received'', 0), (''sent'', 1), (''delivered'', 2), (''read'', 3)]"

definition rank_names :: "string list" where
  "rank_names = [''received'', ''sent'', ''delivered'', ''read'']"

definition allowed_current :: "nat \<Rightarrow> string list" where
  "allowed_current target =
     filter (\<lambda>c. case status_rank c of Some r \<Rightarrow> r < target | None \<Rightarrow> False) rank_names"

definition mark_status :: "string list \<Rightarrow> string list \<Rightarrow> string \<Rightarrow> message_row \<Rightarrow> message_row" where
  "mark_status ids allowed newStatus m =
     (if m_id m \<in> set ids \<and> m_from_me m \<and>
         (case m_status m of None \<Rightarrow> True | Some c \<Rightarrow> c \<in> set allowed)
      then m\<lparr>m_status := Some newStatus\<rparr> else m)"

definition MarkMessagesStatus :: "string list \<Rightarrow> string \<Rightarrow> store \<Rightarrow> unit res \<times> store" where
  "MarkMessagesStatus ids newStatus s =
     (if ids = [] then (Inr (), s)
      else
        (case status_rank newStatus of
           None \<Rightarrow> (Inl (ErrText (''unknown status '' @ [CHR 0x22] @ newStatus @ [CHR 0x22])), s)
         | Some target \<Rightarrow>
             if allowed_current target = [] then (Inr (), s)
             else exec ''UPDATE wa_messages status'' []
               (writes (set_messages (map (mark_status ids (allowed_current target) newStatus)))) s))"

section \<open>Every method keeps the store's contract\<close>

lemma tables_ok_set_messages:
  assumes "map m_id (f (wa_messages s)) = map m_id (wa_messages s)"
    and "map m_chat_jid (f (wa_messages s)) = map m_chat_jid (wa_messages s)"
    and "tables_ok s"
  shows "tables_ok (set_messages f s)"
proof -
  have "m_chat_jid ` set (f (wa_messages s)) = m_chat_jid ` set (wa_messages s)"
    using assms(2) by (metis set_map)
  then show ?thesis
    using assms(1,3) by (simp add: tables_ok_def set_messages_def)
qed

lemma set_messages_fields [simp]:
  "wa_messages (set_messages f s) = f (wa_messages s)"
  "wa_chats (set_messages f s) = wa_chats s"
  "wa_outbound (set_messages f s) = wa_outbound s"
  "wa_pairing (set_messages f s) = wa_pairing s"
  "wa_typing_outbound (set_messages f s) = wa_typing_outbound s"
  "missing_columns (set_messages f s) = missing_columns s"
  "replies (set_messages f s) = replies s"
  "utc_now (set_messages f s) = utc_now s"
  "server_now (set_messages f s) = server_now s"
  "trace (set_messages f s) = trace s"
  "off (set_messages f s) = off s"
  "logged (set_messages f s) = logged s"
  by (simp_all add: set_messages_def)

lemma evolves_tables:
  assumes "off s' = off s" "logged s' = logged s" "missing_columns s' = missing_columns s"
    and "utc_now s' = utc_now s" "server_now s' = server_now s" "trace s' = trace s"
    and "replies s' = replies s" and "tables_ok s \<Longrightarrow> tables_ok s'"
  shows "evolves s s'"
  using assms by (simp add: evolves_def)

lemma evolves_set_messages:
  assumes "tables_ok s \<Longrightarrow> tables_ok (set_messages f s)"
  shows "evolves s (set_messages f s)"
  using assms by (intro evolves_tables) simp_all

lemma stored_fields [simp]:
  "m_id (stored m) = m_id m" "m_chat_jid (stored m) = m_chat_jid m"
  "m_body (stored m) = m_body m" "m_message_type (stored m) = m_message_type m"
  "m_from_me (stored m) = m_from_me m" "m_sender_jid (stored m) = m_sender_jid m"
  "m_target_message_id (stored m) = m_target_message_id m"
  "m_timestamp (stored m) = m_timestamp m" "m_status (stored m) = m_status m"
  "message.truncate (stored m) = m"
  by (simp_all add: stored_def message.defs)

lemma tables_ok_insert:
  assumes "tables_ok s" "m_id m \<notin> m_id ` set (wa_messages s)" "m_chat_jid m \<in> c_jid ` set (wa_chats s)"
  shows "tables_ok (set_messages (\<lambda>ms. ms @ [stored m]) s)"
  using assms by (auto simp: tables_ok_def)

lemma evolves_insert_ignore [simp]: "evolves s (snd (insert_ignore m s))"
  by (auto simp: insert_ignore_def intro!: evolves_set_messages tables_ok_insert)

lemma evolves_update_message [simp]:
  assumes "\<And>now m. m_id (f now m) = m_id m" "\<And>now m. m_chat_jid (f now m) = m_chat_jid m"
  shows "evolves s (snd (update_message mid chat f s))"
  unfolding update_message_def writes_simps
  by (intro evolves_set_messages tables_ok_set_messages map_key_update_where) (simp_all add: assms)

lemma evolves_update_reaction [simp]:
  assumes "\<And>m. m_id (f m) = m_id m" "\<And>m. m_chat_jid (f m) = m_chat_jid m"
  shows "evolves s (snd (update_reaction mid ts f s))"
  unfolding update_reaction_def writes_simps
  by (intro evolves_set_messages tables_ok_set_messages map_key_update_where) (simp_all add: assms)

lemma evolves_mark_status: 
  "evolves s (set_messages (map (mark_status ids al n)) s)"
  by (intro evolves_set_messages tables_ok_set_messages) (auto simp: mark_status_def)

lemma evolves_insertMessage [simp]: "evolves s (snd (insertMessage m l s))"
  by (auto simp: insertMessage_def Let_def intro!: evolves_Fallback evolves_exec)

lemma evolves_InsertMessage [simp]: "evolves s (snd (InsertMessage m s))"
  by (auto simp: InsertMessage_def intro!: evolves_Fallback)

lemma evolves_LocateMessage [simp]: "evolves s (snd (LocateMessage mid chats s))"
  by (auto simp: LocateMessage_def intro!: evolves_intros)

lemma evolves_ApplyEdit: "evolves s (snd (ApplyEdit chats mid fromMe b s))"
  by (auto simp: ApplyEdit_def edit_row_def intro!: evolves_intros)

lemma evolves_RevokeMessage: "evolves s (snd (RevokeMessage chats mid fromMe g s))"
  by (auto simp: RevokeMessage_def revoke_row_def intro!: evolves_intros)

lemma evolves_reaction_write [simp]: "evolves s (snd (reaction_write r x s))"
  by (auto simp: reaction_write_def intro!: evolves_exec)

lemma evolves_legacy_reaction [simp]: "evolves s (snd (legacy_reaction r s))"
  by (auto simp: legacy_reaction_def insertLegacyReaction_def intro!: evolves_intros)

lemma evolves_UpsertReaction: "evolves s (snd (UpsertReaction r s))"
  by (auto simp: UpsertReaction_def lookup_reaction_def intro!: evolves_intros)

lemma evolves_GetQuotedRow: "evolves s (snd (GetQuotedRow chat mid s))"
  by (auto simp: GetQuotedRow_def scan_quoted_def intro!: evolves_intros)

lemma evolves_MarkMessagesStatus: "evolves s (snd (MarkMessagesStatus ids n s))"
  by (auto simp: MarkMessagesStatus_def evolves_mark_status split: option.split intro!: evolves_exec)

interpretation insert_op: store_op "InsertMessage m" for m
  by unfold_locales simp

interpretation edit_op: store_op "ApplyEdit chats mid fromMe b" for chats mid fromMe b
  by unfold_locales (rule evolves_ApplyEdit)

interpretation revoke_op: store_op "RevokeMessage chats mid fromMe g" for chats mid fromMe g
  by unfold_locales (rule evolves_RevokeMessage)

interpretation locate_op: store_op "LocateMessage mid chats" for mid chats
  by unfold_locales simp

interpretation reaction_op: store_op "UpsertReaction r" for r
  by unfold_locales (rule evolves_UpsertReaction)

interpretation quoted_op: store_op "GetQuotedRow chat mid" for chat mid
  by unfold_locales (rule evolves_GetQuotedRow)

interpretation status_op: store_op "MarkMessagesStatus ids n" for ids n
  by unfold_locales (rule evolves_MarkMessagesStatus)

end
