(* ===== verification/Samples.thy ===== *)
theory Samples
  imports StoreMessages
begin

text \<open>
  A small concrete database: one direct chat, one group, an incoming message and two of the
  account's own. The closed instances at the end of the component theories run on it.
\<close>

definition empty_store :: store where
  "empty_store =
     \<lparr>wa_chats = [], wa_messages = [], wa_outbound = [], wa_pairing = None,
      wa_typing_outbound = [], missing_columns = [], replies = [], utc_now = 1000, server_now = 1000,
      trace = [], off = {}, logged = []\<rparr>"

definition sample_chat :: "string \<Rightarrow> bool \<Rightarrow> chat_row" where
  "sample_chat j g =
     \<lparr>c_jid = j, c_display_name = Some ''Ana'', c_phone_e164 = None, c_is_group = g,
      c_profile_pic_url = None, c_profile_pic_updated_at = None, c_last_message_at = Some 10,
      c_last_message_preview = Some ''hi'', c_last_message_from_me = False, c_unread_count = 2,
      c_peer_typing_until = None, c_archived = False\<rparr>"

definition sample_row :: "string \<Rightarrow> bool \<Rightarrow> int \<Rightarrow> message_row" where
  "sample_row i fm t = stored (empty_message
     \<lparr>m_id := i, m_chat_jid := ''a'', m_from_me := fm, m_message_type := ''text'',
      m_body := Some ''hi'', m_timestamp := t, m_status := Some (reactionStatus fm)\<rparr>)"

definition sample_store :: store where
  "sample_store = empty_store
     \<lparr>wa_chats := [sample_chat ''a'' False, sample_chat ''g'' True],
      wa_messages := [sample_row ''m1'' False 8, sample_row ''m2'' True 9, sample_row ''m3'' True 10]\<rparr>"

definition sample_reaction :: "string \<Rightarrow> string \<Rightarrow> int \<Rightarrow> reaction" where
  "sample_reaction i e t =
     \<lparr>r_id = i, r_chat_jid = ''a'', r_sender_jid = Some ''a'', r_sender_aliases = [],
      r_from_me = False, r_is_group = False, r_target_id = ''m2'', r_emoji = e, r_timestamp = t\<rparr>"

lemmas sample_defs = empty_store_def sample_chat_def sample_row_def sample_store_def
  sample_reaction_def empty_message_def stored_def message.defs message_row.defs

lemma sample_store_ok: "tables_ok sample_store" "replies sample_store = []" "honest sample_store"
  by (simp_all add: tables_ok_def honest_def sample_defs)

end
