(* ===== verification/StoreChats.thy ===== *)
theory StoreChats
  imports Samples "HOL-Library.List_Lexorder" "HOL-Library.Char_ord"
begin

text \<open>
  \<open>internal/store/store.go\<close>, the methods on \<open>wa_chats\<close>: the upsert every message goes
  through, typing stamps, profile pictures, the unread counter after a read elsewhere, and
  the chat tail recomputed from \<open>wa_messages\<close>.
\<close>

section \<open>The upsert\<close>

record chat =
  ch_jid :: string
  ch_display_name :: "string option"
  ch_phone_e164 :: "string option"
  ch_is_group :: bool
  ch_profile_pic_url :: "string option"
  ch_last_message_at :: "int option"
  ch_last_message_preview :: "string option"
  ch_last_message_from_me :: bool
  ch_increment_unread :: bool

definition set_chats :: "(chat_row list \<Rightarrow> chat_row list) \<Rightarrow> store \<Rightarrow> store" where
  "set_chats f s = s\<lparr>wa_chats := f (wa_chats s)\<rparr>"

text \<open>The VALUES of the INSERT; the columns it does not name are NULL or zero.\<close>

definition new_chat_row :: "chat \<Rightarrow> int \<Rightarrow> chat_row" where
  "new_chat_row c now =
     \<lparr>c_jid = ch_jid c, c_display_name = ch_display_name c, c_phone_e164 = ch_phone_e164 c,
      c_is_group = ch_is_group c, c_profile_pic_url = ch_profile_pic_url c,
      c_profile_pic_updated_at = (if ch_profile_pic_url c \<noteq> None then Some now else None),
      c_last_message_at = ch_last_message_at c,
      c_last_message_preview = ch_last_message_preview c,
      c_last_message_from_me = ch_last_message_from_me c,
      c_unread_count = (if ch_increment_unread c \<and> \<not> ch_last_message_from_me c then 1 else 0),
      c_peer_typing_until = None, c_archived = False\<rparr>"

text \<open>\<open>ON DUPLICATE KEY UPDATE\<close>.\<close>

definition merge_chat_row :: "chat \<Rightarrow> int \<Rightarrow> chat_row \<Rightarrow> chat_row" where
  "merge_chat_row c now r = r
     \<lparr>c_display_name := coalesce (ch_display_name c) (c_display_name r),
      c_phone_e164 := coalesce (ch_phone_e164 c) (c_phone_e164 r),
      c_profile_pic_url := coalesce (ch_profile_pic_url c) (c_profile_pic_url r),
      c_profile_pic_updated_at :=
        (if ch_profile_pic_url c \<noteq> None then Some now else c_profile_pic_updated_at r),
      c_last_message_at := coalesce (ch_last_message_at c) (c_last_message_at r),
      c_last_message_preview := coalesce (ch_last_message_preview c) (c_last_message_preview r),
      c_last_message_from_me := ch_last_message_from_me c,
      c_unread_count :=
        (if ch_last_message_from_me c then 0
         else if ch_increment_unread c then c_unread_count r + 1
         else c_unread_count r)\<rparr>"

definition upsert_chat_row :: "chat \<Rightarrow> int \<Rightarrow> chat_row list \<Rightarrow> chat_row list" where
  "upsert_chat_row c now rs =
     (if ch_jid c \<in> c_jid ` set rs
      then update_where (\<lambda>r. c_jid r = ch_jid c) (merge_chat_row c now) rs
      else rs @ [new_chat_row c now])"

definition UpsertChat :: "chat \<Rightarrow> store \<Rightarrow> unit res \<times> store" where
  "UpsertChat c =
     exec ''INSERT wa_chats'' [] (writes (\<lambda>s. set_chats (upsert_chat_row c (utc_now s)) s))"

section \<open>Typing and profile pictures\<close>

definition SetPeerTyping :: "string \<Rightarrow> int option \<Rightarrow> store \<Rightarrow> unit res \<times> store" where
  "SetPeerTyping jid until =
     exec ''UPDATE wa_chats peer_typing_until'' []
       (writes (set_chats (update_where (\<lambda>r. c_jid r = jid) (\<lambda>r. r\<lparr>c_peer_typing_until := until\<rparr>))))"

definition ClearAllPeerTyping :: "store \<Rightarrow> unit res \<times> store" where
  "ClearAllPeerTyping =
     exec ''UPDATE wa_chats peer_typing_until'' []
       (writes (set_chats (update_where (\<lambda>r. c_peer_typing_until r \<noteq> None)
          (\<lambda>r. r\<lparr>c_peer_typing_until := None\<rparr>))))"

text \<open>
  \<open>ORDER BY profile_pic_updated_at IS NULL DESC, profile_pic_updated_at ASC\<close>: chats never
  checked come first. \<open>olderThan\<close> is a duration in nanoseconds, cut to whole seconds.
\<close>

definition stale_pics :: "int \<Rightarrow> int \<Rightarrow> chat_row list \<Rightarrow> chat_row list" where
  "stale_pics olderThan now rs =
     (let cs = filter (\<lambda>r. \<not> c_is_group r \<and> \<not> c_archived r) rs;
          cut = now - (olderThan div second) * second
      in filter (\<lambda>r. c_profile_pic_updated_at r = None) cs @
         sort_key (\<lambda>r. the (c_profile_pic_updated_at r))
           (filter (\<lambda>r. case c_profile_pic_updated_at r of None \<Rightarrow> False | Some t \<Rightarrow> t < cut) cs))"

definition FindStaleProfilePics :: "int \<Rightarrow> nat \<Rightarrow> store \<Rightarrow> string list res \<times> store" where
  "FindStaleProfilePics olderThan limit =
     exec ''SELECT wa_chats'' []
       (selects (\<lambda>s. Inr (take limit (map c_jid (stale_pics olderThan (utc_now s) (wa_chats s))))))"

definition UpdateProfilePic :: "string \<Rightarrow> string \<Rightarrow> store \<Rightarrow> unit res \<times> store" where
  "UpdateProfilePic jid url =
     exec ''UPDATE wa_chats profile_pic'' []
       (writes (\<lambda>s. set_chats (update_where (\<lambda>r. c_jid r = jid)
          (\<lambda>r. r\<lparr>c_profile_pic_url := nullString url,
                 c_profile_pic_updated_at := Some (utc_now s)\<rparr>)) s))"

section \<open>Read on another device\<close>

text \<open>The literal \<open>'9999-12-31'\<close>, and the rows that count as unread after an instant.\<close>

definition end_of_time :: int where
  "end_of_time = 253402214400 * second"

definition countable :: "message_row \<Rightarrow> bool" where
  "countable m \<longleftrightarrow> m_message_type m \<notin> {''reaction'', ''system''}"

definition newest_read :: "string list \<Rightarrow> message_row list \<Rightarrow> int option" where
  "newest_read ids ms =
     (case map m_timestamp (filter (\<lambda>m. m_id m \<in> set ids) ms) of
        [] \<Rightarrow> None | ts \<Rightarrow> Some (foldr max ts (hd ts)))"

definition unread_after :: "string \<Rightarrow> int \<Rightarrow> message_row list \<Rightarrow> int" where
  "unread_after jid t ms =
     int (length (filter (\<lambda>m. m_chat_jid m = jid \<and> \<not> m_from_me m \<and> countable m \<and>
                              t < m_timestamp m) ms))"

definition ClearUnreadUpTo :: "string \<Rightarrow> string list \<Rightarrow> store \<Rightarrow> unit res \<times> store" where
  "ClearUnreadUpTo chatJID readIDs s =
     (if readIDs = [] then (Inr (), s)
      else exec ''UPDATE wa_chats unread_count'' []
        (writes (\<lambda>s. set_chats (update_where (\<lambda>r. c_jid r = chatJID \<and> 0 < c_unread_count r)
           (\<lambda>r. r\<lparr>c_unread_count := min (c_unread_count r)
              (unread_after (c_jid r)
                 (case newest_read readIDs (wa_messages s) of
                    None \<Rightarrow> end_of_time | Some t \<Rightarrow> t) (wa_messages s))\<rparr>)) s)) s)"

section \<open>The tail of a chat\<close>

record tail_row =
  tl_message_type :: string
  tl_body :: "string option"
  tl_media_filename :: "string option"
  tl_revoked :: bool
  tl_from_me :: bool
  tl_timestamp :: int
  tl_location_name :: "string option"

text \<open>
  \<open>WHERE chat_jid = ? AND message_type NOT IN (...) ORDER BY timestamp DESC, id DESC LIMIT 1\<close>;
  IDs compare bytewise.
\<close>

definition chat_tail :: "string \<Rightarrow> message_row list \<Rightarrow> message_row option" where
  "chat_tail jid ms =
     (case sort_key (\<lambda>m. - m_timestamp m)
             (rev (sort_key m_id (filter (\<lambda>m. m_chat_jid m = jid \<and> countable m) ms))) of
        [] \<Rightarrow> None | m # _ \<Rightarrow> Some m)"

definition tail_of :: "bool \<Rightarrow> bool \<Rightarrow> message_row \<Rightarrow> tail_row" where
  "tail_of edits location m =
     \<lparr>tl_message_type = m_message_type m, tl_body = m_body m,
      tl_media_filename = m_media_filename m, tl_revoked = (edits \<and> m_revoked_at m \<noteq> None),
      tl_from_me = m_from_me m, tl_timestamp = m_timestamp m,
      tl_location_name = (if location then m_location_name m else None)\<rparr>"

definition tail_cols :: "bool \<Rightarrow> bool \<Rightarrow> (string \<times> string) list" where
  "tail_cols edits location =
     (if edits then [(''wa_messages.revoked_at'', ''revoked_at'')] else []) @
     (if location then [(''wa_messages.location_name'', ''location_name'')] else [])"

definition scan_tail :: "string \<Rightarrow> bool \<Rightarrow> bool \<Rightarrow> store \<Rightarrow> tail_row res \<times> store" where
  "scan_tail chatJID edits location =
     exec ''SELECT wa_messages tail'' (tail_cols edits location)
       (selects (\<lambda>s. one_row (map_option (tail_of edits location) (chat_tail chatJID (wa_messages s)))))"

definition empty_tail :: tail_row where
  "empty_tail = \<lparr>tl_message_type = '''', tl_body = None, tl_media_filename = None,
     tl_revoked = False, tl_from_me = False, tl_timestamp = 0, tl_location_name = None\<rparr>"

definition read_tail :: "string \<Rightarrow> store \<Rightarrow> tail_row res \<times> store" where
  "read_tail chatJID =
     Fallback featureLocation
       (Fallback featureEdits (scan_tail chatJID True True) (Some (scan_tail chatJID False True)) empty_tail)
       (Some (Fallback featureEdits (scan_tail chatJID True False)
                (Some (scan_tail chatJID False False)) empty_tail))
       empty_tail"

definition set_tail :: "string \<Rightarrow> (tail_row \<Rightarrow> string) \<Rightarrow> tail_row \<Rightarrow> chat_row list \<Rightarrow> chat_row list" where
  "set_tail chatJID preview t =
     update_where (\<lambda>r. c_jid r = chatJID)
       (\<lambda>r. r\<lparr>c_last_message_at := Some (tl_timestamp t),
              c_last_message_preview := Some (preview t),
              c_last_message_from_me := tl_from_me t\<rparr>)"

definition RecomputeChatTail ::
  "string \<Rightarrow> (tail_row \<Rightarrow> string) \<Rightarrow> store \<Rightarrow> unit res \<times> store" where
  "RecomputeChatTail chatJID preview s =
     (case read_tail chatJID s of
        (Inl e, s1) \<Rightarrow> if errors_is e ErrNoRows then (Inr (), s1) else (Inl e, s1)
      | (Inr t, s1) \<Rightarrow>
          exec ''UPDATE wa_chats tail'' [] (writes (set_chats (set_tail chatJID preview t))) s1)"

section \<open>The contract of the store\<close>

lemma set_chats_fields [simp]:
  "wa_chats (set_chats f s) = f (wa_chats s)" "wa_messages (set_chats f s) = wa_messages s"
  "wa_outbound (set_chats f s) = wa_outbound s" "wa_pairing (set_chats f s) = wa_pairing s"
  "wa_typing_outbound (set_chats f s) = wa_typing_outbound s"
  "missing_columns (set_chats f s) = missing_columns s" "replies (set_chats f s) = replies s"
  "utc_now (set_chats f s) = utc_now s" "server_now (set_chats f s) = server_now s"
  "trace (set_chats f s) = trace s" "off (set_chats f s) = off s" "logged (set_chats f s) = logged s"
  by (simp_all add: set_chats_def)

lemma exec_set_chats:
  "wa_chats (snd (exec n cols (writes (\<lambda>s. set_chats (F s) s)) s)) = wa_chats s \<or>
   wa_chats (snd (exec n cols (writes (\<lambda>s. set_chats (F s) s)) s)) = F (sent_off n s) (wa_chats s)"
  using exec_snd [of n cols "writes (\<lambda>s. set_chats (F s) s)" s] by auto

text \<open>A write to \<open>wa_chats\<close> that keeps the keys and the sign of the counters.\<close>

lemma evolves_set_chats:
  assumes "\<And>r. r \<in> set (wa_chats s) \<Longrightarrow> p r \<Longrightarrow> c_jid (f r) = c_jid r"
    and "\<And>r. r \<in> set (wa_chats s) \<Longrightarrow> p r \<Longrightarrow> 0 \<le> c_unread_count r \<Longrightarrow> 0 \<le> c_unread_count (f r)"
  shows "evolves s (set_chats (update_where p f) s)"
proof -
  have "map c_jid (update_where p f (wa_chats s)) = map c_jid (wa_chats s)"
    using assms(1) by (rule map_key_update_where)
  moreover from this have "c_jid ` set (update_where p f (wa_chats s)) = c_jid ` set (wa_chats s)"
    by (metis set_map)
  ultimately show ?thesis
    using assms(2) by (auto simp: evolves_def tables_ok_def) (auto simp: set_update_where)
qed

lemma evolves_upsert: "evolves s (set_chats (upsert_chat_row c now) s)"
proof (cases "ch_jid c \<in> c_jid ` set (wa_chats s)")
  case True
  then have "set_chats (upsert_chat_row c now) s =
      set_chats (update_where (\<lambda>r. c_jid r = ch_jid c) (merge_chat_row c now)) s"
    by (simp add: set_chats_def upsert_chat_row_def)
  then show ?thesis by (auto simp: merge_chat_row_def intro!: evolves_set_chats)
next
  case False
  then show ?thesis
    by (auto simp: evolves_def tables_ok_def upsert_chat_row_def new_chat_row_def)
qed

lemma evolves_UpsertChat: "evolves s (snd (UpsertChat c s))"
  by (auto simp: UpsertChat_def intro!: evolves_exec evolves_upsert)

lemma evolves_SetPeerTyping: "evolves s (snd (SetPeerTyping jid u s))"
  by (auto simp: SetPeerTyping_def intro!: evolves_exec evolves_set_chats)

lemma evolves_ClearAllPeerTyping: "evolves s (snd (ClearAllPeerTyping s))"
  by (auto simp: ClearAllPeerTyping_def intro!: evolves_exec evolves_set_chats)

lemma evolves_UpdateProfilePic: "evolves s (snd (UpdateProfilePic jid u s))"
  by (auto simp: UpdateProfilePic_def intro!: evolves_exec evolves_set_chats)

lemma evolves_ClearUnreadUpTo: "evolves s (snd (ClearUnreadUpTo jid ids s))"
  by (auto simp: ClearUnreadUpTo_def unread_after_def intro!: evolves_exec evolves_set_chats)

lemma evolves_read_tail: "evolves s (snd (read_tail jid s))"
  by (auto simp: read_tail_def scan_tail_def intro!: evolves_Fallback)

lemma evolves_RecomputeChatTail: "evolves s (snd (RecomputeChatTail jid pv s))"
  by (auto simp: RecomputeChatTail_def set_tail_def intro!: evolves_intros evolves_read_tail evolves_set_chats)

interpretation upsert_op: store_op "UpsertChat c" for c
  by unfold_locales (rule evolves_UpsertChat)

interpretation typing_op: store_op "SetPeerTyping jid u" for jid u
  by unfold_locales (rule evolves_SetPeerTyping)

interpretation clear_typing_op: store_op ClearAllPeerTyping
  by unfold_locales (rule evolves_ClearAllPeerTyping)

interpretation stale_op: store_op "FindStaleProfilePics d n" for d n
  by unfold_locales (simp add: FindStaleProfilePics_def)

interpretation pic_op: store_op "UpdateProfilePic jid u" for jid u
  by unfold_locales (rule evolves_UpdateProfilePic)

interpretation unread_op: store_op "ClearUnreadUpTo jid ids" for jid ids
  by unfold_locales (rule evolves_ClearUnreadUpTo)

interpretation tail_op: store_op "RecomputeChatTail jid pv" for jid pv
  by unfold_locales (rule evolves_RecomputeChatTail)

end
