(* ===== verification/StoreOutbound.thy ===== *)
theory StoreOutbound
  imports Samples
begin

text \<open>
  \<open>internal/store/store.go\<close>, the methods on \<open>wa_outbound\<close>, \<open>wa_pairing\<close> and
  \<open>wa_typing_outbound\<close>: the place of a location row, the heartbeat, the terminal states of a
  row, the claim of a message ID before a first message, and the typing queue.
\<close>

definition set_outbound :: "(outbound_row list \<Rightarrow> outbound_row list) \<Rightarrow> store \<Rightarrow> store" where
  "set_outbound f s = s\<lparr>wa_outbound := f (wa_outbound s)\<rparr>"

definition set_pairing :: "(pairing_row \<Rightarrow> pairing_row) \<Rightarrow> store \<Rightarrow> store" where
  "set_pairing f s = s\<lparr>wa_pairing := map_option f (wa_pairing s)\<rparr>"

definition set_typing :: "(typing_row list \<Rightarrow> typing_row list) \<Rightarrow> store \<Rightarrow> store" where
  "set_typing f s = s\<lparr>wa_typing_outbound := f (wa_typing_outbound s)\<rparr>"

text \<open>\<open>UPDATE wa_outbound SET ... WHERE id = ?\<close>.\<close>

definition update_outbound ::
  "int \<Rightarrow> (int \<Rightarrow> outbound_row \<Rightarrow> outbound_row) \<Rightarrow> store \<Rightarrow> unit res \<times> store" where
  "update_outbound oid f =
     writes (\<lambda>s. set_outbound (update_where (\<lambda>r. o_id r = oid) (f (utc_now s))) s)"

section \<open>The place of a location row\<close>

record outbound_place =
  pl_name :: "string option"
  pl_address :: "string option"
  pl_url :: "string option"

definition empty_place :: outbound_place where
  "empty_place = \<lparr>pl_name = None, pl_address = None, pl_url = None\<rparr>"

definition place_of :: "outbound_row \<Rightarrow> outbound_place" where
  "place_of r = \<lparr>pl_name = o_location_name r, pl_address = o_location_address r,
                 pl_url = o_location_url r\<rparr>"

definition place_cols :: "(string \<times> string) list" where
  "place_cols = map (\<lambda>c. (c, c))
     [''wa_outbound.location_name'', ''wa_outbound.location_address'', ''wa_outbound.location_url'']"

definition OutboundLocation :: "int \<Rightarrow> store \<Rightarrow> outbound_place res \<times> store" where
  "OutboundLocation oid =
     Fallback featureOutboundLocation
       (exec ''SELECT wa_outbound location'' place_cols
          (selects (\<lambda>s. one_row (map_option place_of (row_by o_id oid (wa_outbound s))))))
       (Some (\<lambda>s. (Inr empty_place, s)))
       empty_place"

section \<open>The heartbeat\<close>

definition BridgeFeatures :: string where
  "BridgeFeatures = ''new_chat,location_send''"

definition Heartbeat :: "store \<Rightarrow> unit res \<times> store" where
  "Heartbeat =
     Fallback featureBridgeFeatures
       (exec ''UPDATE wa_pairing heartbeat''
          [(''wa_pairing.last_seen_at'', ''last_seen_at''),
           (''wa_pairing.bridge_features'', ''bridge_features''),
           (''wa_pairing.bridge_features_at'', ''bridge_features_at'')]
          (writes (\<lambda>s. set_pairing (\<lambda>p. p\<lparr>p_last_seen_at := Some (utc_now s),
             p_bridge_features := Some BridgeFeatures, p_bridge_features_at := Some (utc_now s)\<rparr>) s)))
       (Some (Fallback featureHeartbeat
          (exec ''UPDATE wa_pairing heartbeat'' [(''wa_pairing.last_seen_at'', ''last_seen_at'')]
             (writes (\<lambda>s. set_pairing (\<lambda>p. p\<lparr>p_last_seen_at := Some (utc_now s)\<rparr>) s)))
          None ()))
       ()"

section \<open>Terminal states of a row\<close>

definition error_code_col :: "(string \<times> string) list" where
  "error_code_col = [(''wa_outbound.error_code'', ''error_code'')]"

definition outboundMessageMax :: nat where
  "outboundMessageMax = 500"

definition failed_row :: "nat \<Rightarrow> string \<Rightarrow> int \<Rightarrow> outbound_row \<Rightarrow> outbound_row" where
  "failed_row attempts msg now r =
     r\<lparr>o_status := ''failed'', o_attempts := int attempts, o_last_attempt_at := Some now,
       o_error_message := Some msg\<rparr>"

definition FailOutbound :: "int \<Rightarrow> nat \<Rightarrow> string \<Rightarrow> string \<Rightarrow> store \<Rightarrow> unit res \<times> store" where
  "FailOutbound oid attempts code detail =
     (let msg = clip (code @ '': '' @ detail) outboundMessageMax
      in Fallback featureErrorCode
           (exec ''UPDATE wa_outbound failed'' error_code_col
              (update_outbound oid (\<lambda>now r. (failed_row attempts msg now r)\<lparr>o_error_code := Some code\<rparr>)))
           (Some (exec ''UPDATE wa_outbound failed'' [] (update_outbound oid (failed_row attempts msg))))
           ())"

definition claimable :: "int \<Rightarrow> outbound_row \<Rightarrow> bool" where
  "claimable oid r \<longleftrightarrow> o_id r = oid \<and> o_status r = ''resolve'' \<and> o_whatsapp_message_id r = None"

definition ClaimNewChatMessageID :: "int \<Rightarrow> string \<Rightarrow> store \<Rightarrow> bool res \<times> store" where
  "ClaimNewChatMessageID oid waMessageID =
     exec ''UPDATE wa_outbound claim'' []
       (\<lambda>s. (Inr (length (filter (claimable oid) (wa_outbound s)) = 1),
             set_outbound (update_where (claimable oid)
               (\<lambda>r. r\<lparr>o_whatsapp_message_id := Some waMessageID\<rparr>)) s))"

definition sent_row :: "string \<Rightarrow> int \<Rightarrow> outbound_row \<Rightarrow> outbound_row" where
  "sent_row waMessageID now r =
     r\<lparr>o_status := ''sent'', o_whatsapp_message_id := Some waMessageID, o_sent_at := Some now,
       o_error_message := None\<rparr>"

definition MarkNewChatSent :: "int \<Rightarrow> string \<Rightarrow> store \<Rightarrow> unit res \<times> store" where
  "MarkNewChatSent oid waMessageID =
     Fallback featureErrorCode
       (exec ''UPDATE wa_outbound sent'' error_code_col
          (update_outbound oid (\<lambda>now r. (sent_row waMessageID now r)\<lparr>o_error_code := None\<rparr>)))
       (Some (exec ''UPDATE wa_outbound sent'' [] (update_outbound oid (sent_row waMessageID))))
       ()"

text \<open>
  The foreign key of \<open>wa_outbound.chat_jid\<close>: pointing a row at a chat that is not there is
  error 1452.
\<close>

definition fk_error :: go_error where
  "fk_error = MySQLError 1452 ''Cannot add or update a child row: a foreign key constraint fails''
     ''Error 1452 (23000): Cannot add or update a child row: a foreign key constraint fails''"

definition SetOutboundChat :: "int \<Rightarrow> string \<Rightarrow> store \<Rightarrow> unit res \<times> store" where
  "SetOutboundChat oid chatJID =
     exec ''UPDATE wa_outbound chat_jid'' []
       (\<lambda>s. if oid \<in> o_id ` set (wa_outbound s) \<and> chatJID \<notin> c_jid ` set (wa_chats s)
            then (Inl fk_error, s)
            else (Inr (), set_outbound (update_where (\<lambda>r. o_id r = oid)
                            (\<lambda>r. r\<lparr>o_chat_jid := Some chatJID\<rparr>)) s))"

section \<open>The typing queue\<close>

record typing_request =
  tr_chat_jid :: string
  tr_state :: string

definition pending_typing :: "typing_row list \<Rightarrow> typing_row list" where
  "pending_typing rs = sort_key t_requested_at (filter (\<lambda>r. t_processed_at r = None) rs)"

definition request_of :: "typing_row \<Rightarrow> typing_request" where
  "request_of r = \<lparr>tr_chat_jid = t_chat_jid r, tr_state = t_state r\<rparr>"

text \<open>A transaction that ends without a commit leaves the table as it was.\<close>

definition typing_rollback :: "store \<Rightarrow> store \<Rightarrow> store" where
  "typing_rollback s s1 = s1\<lparr>wa_typing_outbound := wa_typing_outbound s\<rparr>"

text \<open>
  \<open>COMMIT\<close>: refused, the transaction is rolled back; with its answer lost, the transaction
  is durable and the program sees an error.
\<close>

definition commit_typing :: "store \<Rightarrow> store \<Rightarrow> unit res \<times> store" where
  "commit_typing s s1 =
     (let work = wa_typing_outbound s1
      in exec ''COMMIT'' [] (writes (set_typing (\<lambda>_. work))) (typing_rollback s s1))"

definition DrainTypingOutbound :: "nat \<Rightarrow> store \<Rightarrow> typing_request list res \<times> store" where
  "DrainTypingOutbound limit s =
     (case exec ''BEGIN'' [] (selects (\<lambda>_. Inr ())) s of
        (Inl e, s1) \<Rightarrow> (Inl e, s1)
      | (Inr _, s1) \<Rightarrow>
          (case exec ''SELECT wa_typing_outbound'' []
                  (selects (\<lambda>s. Inr (map request_of (take limit (pending_typing (wa_typing_outbound s)))))) s1 of
             (Inl e, s2) \<Rightarrow> (Inl e, s2)
           | (Inr batch, s2) \<Rightarrow>
               if batch = [] then
                 (case commit_typing s s2 of (Inl e, s3) \<Rightarrow> (Inl e, s3) | (Inr _, s3) \<Rightarrow> (Inr [], s3))
               else
                 (case exec ''UPDATE wa_typing_outbound'' []
                         (writes (\<lambda>s. set_typing (update_where
                            (\<lambda>r. t_chat_jid r \<in> tr_chat_jid ` set batch \<and> t_processed_at r = None)
                            (\<lambda>r. r\<lparr>t_processed_at := Some (server_now s)\<rparr>)) s)) s2 of
                    (Inl e, s3) \<Rightarrow> (Inl e, typing_rollback s s3)
                  | (Inr _, s3) \<Rightarrow>
                      (case commit_typing s s3 of
                         (Inl e, s4) \<Rightarrow> (Inl e, s4) | (Inr _, s4) \<Rightarrow> (Inr batch, s4)))))"

section \<open>The contract of the store\<close>

lemma set_outbound_fields [simp]:
  "wa_outbound (set_outbound f s) = f (wa_outbound s)" "wa_chats (set_outbound f s) = wa_chats s"
  "wa_messages (set_outbound f s) = wa_messages s" "wa_pairing (set_outbound f s) = wa_pairing s"
  "wa_typing_outbound (set_outbound f s) = wa_typing_outbound s"
  "missing_columns (set_outbound f s) = missing_columns s" "replies (set_outbound f s) = replies s"
  "utc_now (set_outbound f s) = utc_now s" "server_now (set_outbound f s) = server_now s"
  "trace (set_outbound f s) = trace s" "off (set_outbound f s) = off s"
  "logged (set_outbound f s) = logged s"
  by (simp_all add: set_outbound_def)

lemma set_pairing_fields [simp]:
  "wa_pairing (set_pairing g s) = map_option g (wa_pairing s)" "wa_chats (set_pairing g s) = wa_chats s"
  "wa_messages (set_pairing g s) = wa_messages s" "wa_outbound (set_pairing g s) = wa_outbound s"
  "wa_typing_outbound (set_pairing g s) = wa_typing_outbound s"
  "missing_columns (set_pairing g s) = missing_columns s" "replies (set_pairing g s) = replies s"
  "utc_now (set_pairing g s) = utc_now s" "server_now (set_pairing g s) = server_now s"
  "trace (set_pairing g s) = trace s" "off (set_pairing g s) = off s"
  "logged (set_pairing g s) = logged s"
  by (simp_all add: set_pairing_def)

lemma set_typing_fields [simp]:
  "wa_typing_outbound (set_typing h s) = h (wa_typing_outbound s)" "wa_chats (set_typing h s) = wa_chats s"
  "wa_messages (set_typing h s) = wa_messages s" "wa_outbound (set_typing h s) = wa_outbound s"
  "wa_pairing (set_typing h s) = wa_pairing s"
  "missing_columns (set_typing h s) = missing_columns s" "replies (set_typing h s) = replies s"
  "utc_now (set_typing h s) = utc_now s" "server_now (set_typing h s) = server_now s"
  "trace (set_typing h s) = trace s" "off (set_typing h s) = off s"
  "logged (set_typing h s) = logged s"
  by (simp_all add: set_typing_def)

lemma subset_insert_union: "A' \<subseteq> A \<union> B \<Longrightarrow> A \<subseteq> insert x B \<Longrightarrow> A' \<subseteq> insert x B"
  by blast

lemma evolves_set_outbound:
  assumes "\<And>r. r \<in> set (wa_outbound s) \<Longrightarrow> p r \<Longrightarrow> o_id (f r) = o_id r"
    and "\<And>r. r \<in> set (wa_outbound s) \<Longrightarrow> p r \<Longrightarrow>
      o_chat_jid (f r) = o_chat_jid r \<or> o_chat_jid (f r) \<in> Some ` c_jid ` set (wa_chats s)"
  shows "evolves s (set_outbound (update_where p f) s)"
proof -
  have key: "map o_id (update_where p f (wa_outbound s)) = map o_id (wa_outbound s)"
    using assms(1) by (rule map_key_update_where)
  have "o_chat_jid ` set (update_where p f (wa_outbound s)) \<subseteq>
      o_chat_jid ` set (wa_outbound s) \<union> Some ` c_jid ` set (wa_chats s)"
    using assms(2) unfolding set_update_where image_subset_iff by (auto split: if_split)
  note fk = subset_insert_union [OF this]
  have "tables_ok s \<Longrightarrow> tables_ok (set_outbound (update_where p f) s)"
    unfolding tables_ok_def set_outbound_fields key by (elim conjE, intro conjI) (assumption | erule fk)+
  then show ?thesis by (simp add: evolves_def)
qed

lemma evolves_update_outbound [simp]:
  assumes "\<And>now r. o_id (f now r) = o_id r" "\<And>now r. o_chat_jid (f now r) = o_chat_jid r"
  shows "evolves s (snd (update_outbound oid f s))"
  by (auto simp: update_outbound_def assms intro!: evolves_set_outbound)

lemma evolves_set_pairing [simp]: "evolves s (set_pairing g s)"
  by (auto simp: evolves_def tables_ok_def)

lemma evolves_OutboundLocation: "evolves s (snd (OutboundLocation oid s))"
  by (auto simp: OutboundLocation_def intro!: evolves_Fallback)

lemma evolves_Heartbeat: "evolves s (snd (Heartbeat s))"
  by (auto simp: Heartbeat_def intro!: evolves_Fallback evolves_exec)

lemma evolves_FailOutbound: "evolves s (snd (FailOutbound oid n code d s))"
  by (auto simp: FailOutbound_def Let_def failed_row_def intro!: evolves_Fallback evolves_exec)

lemma evolves_Claim: "evolves s (snd (ClaimNewChatMessageID oid w s))"
  by (auto simp: ClaimNewChatMessageID_def intro!: evolves_exec evolves_set_outbound)

lemma evolves_MarkNewChatSent: "evolves s (snd (MarkNewChatSent oid w s))"
  by (auto simp: MarkNewChatSent_def sent_row_def intro!: evolves_Fallback evolves_exec)

lemma evolves_SetOutboundChat: "evolves s (snd (SetOutboundChat oid j s))"
  by (auto simp: SetOutboundChat_def intro!: evolves_exec evolves_set_outbound)

lemma evolves_typing_rollback: "evolves s s1 \<Longrightarrow> evolves s (typing_rollback s s1)"
  by (auto simp: typing_rollback_def evolves_def tables_ok_def)

lemma evolves_commit_typing:
  assumes "evolves s s1"
  shows "evolves s (snd (commit_typing s s1))"
proof -
  let ?r = "sent_off ''COMMIT'' (typing_rollback s s1)"
  have r: "evolves s ?r" using evolves_typing_rollback [OF assms] evolves_sent_off by (rule evolves_trans)
  have "tables_ok s \<Longrightarrow> distinct (map t_chat_jid (wa_typing_outbound s1))"
    using assms by (simp add: evolves_def tables_ok_def)
  then have "evolves s (set_typing (\<lambda>_. wa_typing_outbound s1) ?r)"
    using r by (auto simp: evolves_def tables_ok_def)
  with r show ?thesis
    using exec_snd [of "''COMMIT''" "[]" "writes (set_typing (\<lambda>_. wa_typing_outbound s1))" "typing_rollback s s1"]
    by (auto simp: commit_typing_def)
qed

lemma evolves_set_typing:
  "(\<And>r. t_chat_jid (f r) = t_chat_jid r) \<Longrightarrow> evolves s (set_typing (update_where p f) s)"
  using map_key_update_where [of "wa_typing_outbound s" p t_chat_jid f]
  by (auto simp: evolves_def tables_ok_def)

lemma evolves_after: "evolves s s1 \<Longrightarrow> (\<And>s. evolves s (snd (f s))) \<Longrightarrow> evolves s (snd (f s1))"
  using evolves_trans by blast

lemma evolves_from:
  assumes "evolves s (snd p)" and "\<And>r s1. evolves s s1 \<Longrightarrow> evolves s (snd (f r s1))"
  shows "evolves s (snd (case p of (r, s1) \<Rightarrow> f r s1))"
  using assms by (cases p) auto

lemma evolves_stamp:
  assumes "evolves s s1"
  shows "evolves s (snd (exec n cols (writes (\<lambda>s. set_typing (update_where q
      (\<lambda>r. r\<lparr>t_processed_at := Some (server_now s)\<rparr>)) s)) s1))"
  using assms by (rule evolves_after) (auto intro!: evolves_exec evolves_set_typing)

lemma evolves_DrainTypingOutbound: "evolves s (snd (DrainTypingOutbound n s))"
  unfolding DrainTypingOutbound_def
  apply (rule evolves_from, simp)
  apply (rule evolves_case_sum [rotated], simp)
  apply (rule evolves_from, erule evolves_after, simp)
  apply (rule evolves_case_sum [rotated], simp)
  apply (simp only: split: if_split, intro conjI impI)
   apply (rule evolves_from, erule evolves_commit_typing, rule evolves_case_sum; simp)
  apply (rule evolves_from, erule evolves_stamp)
  apply (rule evolves_case_sum [rotated], simp add: evolves_typing_rollback)
  apply (rule evolves_from, erule evolves_commit_typing, rule evolves_case_sum; simp)
  done

interpretation drain_op: store_op "DrainTypingOutbound n" for n
  by unfold_locales (rule evolves_DrainTypingOutbound)

interpretation place_op: store_op "OutboundLocation oid" for oid
  by unfold_locales (rule evolves_OutboundLocation)

interpretation heartbeat_op: store_op Heartbeat
  by unfold_locales (rule evolves_Heartbeat)

interpretation fail_op: store_op "FailOutbound oid n code d" for oid n code d
  by unfold_locales (rule evolves_FailOutbound)

interpretation claim_op: store_op "ClaimNewChatMessageID oid w" for oid w
  by unfold_locales (rule evolves_Claim)

interpretation sent_op: store_op "MarkNewChatSent oid w" for oid w
  by unfold_locales (rule evolves_MarkNewChatSent)

interpretation set_chat_op: store_op "SetOutboundChat oid j" for oid j
  by unfold_locales (rule evolves_SetOutboundChat)

end
