(* ===== verification/OutboundLaws.thy ===== *)
theory OutboundLaws
  imports StoreOutbound
begin

text \<open>
  What the methods of \<open>StoreOutbound\<close> promise: the typing queue is claimed exactly by what is
  returned, the claim of a message ID is a compare-and-swap, a failure is written with a
  storable text that starts with its code, and the heartbeat degrades column by column.
\<close>

section \<open>The typing queue\<close>

lemma filter_not_in_take:
  assumes "distinct (map key xs)"
  shows "filter (\<lambda>x. key x \<notin> key ` set (take n xs)) xs = drop n xs"
proof -
  have d: "key ` set (take n xs) \<inter> key ` set (drop n xs) = {}"
    using assms by (metis append_take_drop_id distinct_append map_append set_map)
  let ?P = "\<lambda>x. key x \<notin> key ` set (take n xs)"
  have "filter ?P (take n xs) = []" by (simp add: filter_empty_conv)
  moreover have "filter ?P (drop n xs) = drop n xs"
    using d by (intro filter_True) (auto simp del: set_drop_subset)
  ultimately have "filter ?P (take n xs @ drop n xs) = drop n xs" by (simp only: filter_append append_Nil)
  then show ?thesis by (simp only: append_take_drop_id)
qed

definition stamp_batch :: "typing_request list \<Rightarrow> int \<Rightarrow> typing_row list \<Rightarrow> typing_row list" where
  "stamp_batch batch now = update_where
     (\<lambda>r. t_chat_jid r \<in> tr_chat_jid ` set batch \<and> t_processed_at r = None)
     (\<lambda>r. r\<lparr>t_processed_at := Some now\<rparr>)"

definition next_batch :: "nat \<Rightarrow> store \<Rightarrow> typing_request list" where
  "next_batch n s = map request_of (take n (pending_typing (wa_typing_outbound s)))"

lemma pending_update_where:
  "filter (\<lambda>r. t_processed_at r = None) (update_where (\<lambda>r. t_chat_jid r \<in> K \<and> t_processed_at r = None)
     (\<lambda>r. r\<lparr>t_processed_at := Some now\<rparr>) rs) =
   filter (\<lambda>r. t_chat_jid r \<notin> K) (filter (\<lambda>r. t_processed_at r = None) rs)"
  by (induction rs) (auto simp: update_where_def)

lemma pending_stamp:
  assumes "distinct (map t_chat_jid rs)"
  shows "pending_typing (stamp_batch (map request_of (take n (pending_typing rs))) now rs) =
    drop n (pending_typing rs)"
proof -
  let ?ks = "t_chat_jid ` set (take n (pending_typing rs))"
  let ?pend = "filter (\<lambda>r. t_processed_at r = None)"
  have ks: "tr_chat_jid ` set (map request_of (take n (pending_typing rs))) = ?ks"
    by (simp add: image_image request_of_def)
  have "?pend (stamp_batch (map request_of (take n (pending_typing rs))) now rs) =
      filter (\<lambda>r. t_chat_jid r \<notin> ?ks) (?pend rs)"
    unfolding stamp_batch_def ks by (rule pending_update_where)
  then have "pending_typing (stamp_batch (map request_of (take n (pending_typing rs))) now rs) =
      filter (\<lambda>r. t_chat_jid r \<notin> ?ks) (pending_typing rs)"
    by (simp add: pending_typing_def filter_sort)
  moreover have "distinct (map t_chat_jid (pending_typing rs))"
    using assms by (simp add: pending_typing_def distinct_map inj_on_def)
  ultimately show ?thesis by (simp add: filter_not_in_take)
qed

lemma commit_typing_result:
  assumes "commit_typing s s1 = (x, s2)"
  shows "(\<exists>e. x = Inl e \<and> wa_typing_outbound s2 = wa_typing_outbound s) \<or>
    wa_typing_outbound s2 = wa_typing_outbound s1"
  using assms unfolding commit_typing_def Let_def
  by (cases rule: exec_cases) (auto simp: typing_rollback_def writes_def)

text \<open>
  Whatever fails: an error leaves the queue as it was, or (a lost answer to the commit) with
  the next batch claimed; a returned batch is the next batch, claimed.
\<close>

lemma exec_selects_result:
  "exec n cols (selects f) s = (x, s1) \<Longrightarrow>
     wa_typing_outbound s1 = wa_typing_outbound s \<and> server_now s1 = server_now s \<and>
     (\<forall>y. x = Inr y \<longrightarrow> f (sent_off n s) = Inr y)"
  by (cases rule: exec_cases) (auto simp: selects_def)

lemma exec_stamp_result:
  assumes "exec n cols (writes (\<lambda>s. set_typing (F (server_now s)) s)) s = (Inr u, s1)"
  shows "wa_typing_outbound s1 = F (server_now s) (wa_typing_outbound s) \<and> server_now s1 = server_now s"
  using exec_Inr [OF assms] by (auto simp: writes_def)

lemma stamp_empty [simp]: "stamp_batch [] now rs = rs"
  by (simp add: stamp_batch_def update_where_none)

lemma drain_states:
  assumes "DrainTypingOutbound n s = (x, s')"
  shows "(\<exists>e. x = Inl e \<and> wa_typing_outbound s' = wa_typing_outbound s) \<or>
    wa_typing_outbound s' = stamp_batch (next_batch n s) (server_now s) (wa_typing_outbound s) \<and>
      (x = Inr (next_batch n s) \<or> (\<exists>e. x = Inl e))"
proof -
  obtain a s1 where 1: "exec ''BEGIN'' [] (selects (\<lambda>_. Inr ())) s = (a :: unit res, s1)"
    by (rule prod.exhaust)
  obtain b s2 where 2: "exec ''SELECT wa_typing_outbound'' [] (selects (\<lambda>s. Inr (map request_of
      (take n (pending_typing (wa_typing_outbound s)))))) s1 = (b, s2)"
    by (rule prod.exhaust)
  have q: "wa_typing_outbound s1 = wa_typing_outbound s" "wa_typing_outbound s2 = wa_typing_outbound s"
    "server_now s2 = server_now s"
    using exec_selects_result [OF 1] exec_selects_result [OF 2] by simp_all
  show ?thesis
  proof (cases a)
    case (Inl e)
    with assms 1 q show ?thesis by (auto simp: DrainTypingOutbound_def)
  next
    case a: (Inr u)
    show ?thesis
    proof (cases b)
      case (Inl e)
      with assms 1 2 a q show ?thesis by (auto simp: DrainTypingOutbound_def)
    next
      case b: (Inr batch)
      have batch: "batch = next_batch n s"
        using exec_selects_result [OF 2] q b by (simp add: next_batch_def)
      show ?thesis
      proof (cases "batch = []")
        case True
        obtain y s3 where "commit_typing s s2 = (y, s3)" by (rule prod.exhaust)
        with assms 1 2 a b True q commit_typing_result [OF this] batch show ?thesis
          by (cases y) (auto simp: DrainTypingOutbound_def)
      next
        case False
        obtain c s3 where 3: "exec ''UPDATE wa_typing_outbound'' []
            (writes (\<lambda>s. set_typing (stamp_batch batch (server_now s)) s)) s2 = (c, s3)"
          by (rule prod.exhaust)
        show ?thesis
        proof (cases c)
          case (Inl e)
          have "DrainTypingOutbound n s = (Inl e, typing_rollback s s3)"
            unfolding DrainTypingOutbound_def by (simp add: 1 2 a b False 3 [unfolded stamp_batch_def] Inl)
          with assms show ?thesis by (auto simp: typing_rollback_def)
        next
          case c: (Inr v)
          have s3: "wa_typing_outbound s3 =
              stamp_batch (next_batch n s) (server_now s) (wa_typing_outbound s)"
            using exec_stamp_result [OF 3 [unfolded c]] q batch by simp
          obtain y s4 where 4: "commit_typing s s3 = (y, s4)" by (rule prod.exhaust)
          have "DrainTypingOutbound n s = (case y of Inl e \<Rightarrow> Inl e | Inr _ \<Rightarrow> Inr batch, s4)"
            unfolding DrainTypingOutbound_def
            by (simp add: 1 2 a b False 3 [unfolded stamp_batch_def] c 4 split: sum.split)
          with assms commit_typing_result [OF 4] s3 batch show ?thesis
            by (cases y) auto
        qed
      qed
    qed
  qed
qed

text \<open>DrainTypingOutbound returns the oldest pending requests and leaves exactly the others pending; an error loses a request only when the commit answer is lost.\<close>

theorem drain_claims_what_it_returns:
  assumes "DrainTypingOutbound n s = (x, s')" "tables_ok s"
  shows "case x of
     Inr batch \<Rightarrow>
       batch = next_batch n s \<and>
       pending_typing (wa_typing_outbound s') = drop n (pending_typing (wa_typing_outbound s))
   | Inl e \<Rightarrow>
       pending_typing (wa_typing_outbound s') = pending_typing (wa_typing_outbound s) \<or>
       pending_typing (wa_typing_outbound s') = drop n (pending_typing (wa_typing_outbound s))"
proof -
  have "distinct (map t_chat_jid (wa_typing_outbound s))" using assms(2) by (simp add: tables_ok_def)
  from pending_stamp [OF this, of n "server_now s"] drain_states [OF assms(1)] show ?thesis
    by (auto simp: next_batch_def)
qed

section \<open>Claiming a message ID\<close>

lemma filter_by_key:
  assumes "distinct (map key rs)" "row_by key k rs = Some r" "\<And>x. p x \<Longrightarrow> key x = k"
  shows "filter p rs = (if p r then [r] else [])"
  using assms
proof (induction rs)
  case (Cons a rs)
  show ?case
  proof (cases "key a = k")
    case True
    have "\<not> p x" if "x \<in> set rs" for x
    proof
      assume "p x"
      then have "key x = key a" using Cons.prems(3) True by simp
      then show False using Cons.prems(1) imageI [OF that, of key] by simp
    qed
    then have "filter p rs = []" by (simp add: filter_empty_conv)
    then show ?thesis using Cons.prems(2) True by simp
  next
    case False
    then show ?thesis using Cons.prems Cons.IH by auto
  qed
qed simp

text \<open>ClaimNewChatMessageID is a compare-and-swap: it wins exactly on an unclaimed resolve row and a second claim loses.\<close>

theorem claim_is_compare_and_swap:
  assumes "ClaimNewChatMessageID oid w s = (Inr won, s')" "tables_ok s"
    and "row_by o_id oid (wa_outbound s) = Some r"
  shows "(won \<longleftrightarrow> o_status r = ''resolve'' \<and> o_whatsapp_message_id r = None) \<and>
    row_by o_id oid (wa_outbound s') = Some (if won then r\<lparr>o_whatsapp_message_id := Some w\<rparr> else r) \<and>
    (\<forall>x. x \<noteq> oid \<longrightarrow> row_by o_id x (wa_outbound s') = row_by o_id x (wa_outbound s)) \<and>
    fst (ClaimNewChatMessageID oid w' (s'\<lparr>replies := []\<rparr>)) = Inr False"
proof -
  have d: "distinct (map o_id (wa_outbound s))" using assms(2) by (simp add: tables_ok_def)
  have id: "o_id r = oid" using row_by_Some_in [OF assms(3)] by simp
  have one: "filter (claimable oid) (wa_outbound s) = (if claimable oid r then [r] else [])"
    using d assms(3) by (rule filter_by_key) (simp add: claimable_def)
  have s': "won = (length (filter (claimable oid) (wa_outbound s)) = 1)"
    "wa_outbound s' = update_where (claimable oid) (\<lambda>r. r\<lparr>o_whatsapp_message_id := Some w\<rparr>) (wa_outbound s)"
    using exec_Inr [OF assms(1) [unfolded ClaimNewChatMessageID_def]] by auto
  have won: "won \<longleftrightarrow> claimable oid r" using s'(1) one by simp
  have row: "row_by o_id x (wa_outbound s') = map_option (\<lambda>r. if claimable oid r
      then r\<lparr>o_whatsapp_message_id := Some w\<rparr> else r) (row_by o_id x (wa_outbound s))" for x
    unfolding s'(2) by (rule row_by_update_where) simp
  have other: "row_by o_id x (wa_outbound s') = row_by o_id x (wa_outbound s)" if "x \<noteq> oid" for x
    using that row_by_Some_in [of o_id x "wa_outbound s"]
    by (cases "row_by o_id x (wa_outbound s)") (auto simp: row claimable_def)
  have "\<not> claimable oid (if claimable oid r then r\<lparr>o_whatsapp_message_id := Some w\<rparr> else r)" for r
    by (simp add: claimable_def)
  then have "filter (claimable oid) (wa_outbound s') = []"
    unfolding s'(2) filter_empty_conv set_update_where by blast
  then have "fst (ClaimNewChatMessageID oid w' (s'\<lparr>replies := []\<rparr>)) = Inr False"
    by (simp add: ClaimNewChatMessageID_def exec_quiet_known)
  with won other show ?thesis using assms(3) id by (simp add: row claimable_def)
qed

section \<open>A permanent failure\<close>

lemma exec_error_code:
  assumes "replies s = []"
  shows "exec n error_code_col stmt s =
    (if ''wa_outbound.error_code'' \<in> set (missing_columns s)
     then (Inl (unknown_column ''error_code''), sent_off n s) else stmt (sent_off n s))"
  using assms by (simp add: exec_quiet error_code_col_def)

lemma error_code_owner [simp]: "columnOwner (unknown_column ''error_code'') = None"
  by (simp add: columnOwner_unknown_column columnFeature_def)

definition has_error_code :: "store \<Rightarrow> bool" where
  "has_error_code s \<longleftrightarrow>
     featureErrorCode \<notin> off s \<and> ''wa_outbound.error_code'' \<notin> set (missing_columns s)"

lemma FailOutbound_quiet:
  assumes "replies s = []"
  defines "msg code detail \<equiv> clip (code @ '': '' @ detail) outboundMessageMax"
  shows "fst (FailOutbound oid n code detail s) = Inr () \<and>
    wa_outbound (snd (FailOutbound oid n code detail s)) =
      update_where (\<lambda>r. o_id r = oid) (\<lambda>r. (failed_row n (msg code detail) (utc_now s) r)
         \<lparr>o_error_code := if has_error_code s then Some code else o_error_code r\<rparr>) (wa_outbound s)"
proof -
  let ?leg = "exec ''UPDATE wa_outbound failed'' [] (update_outbound oid (failed_row n (msg code detail)))"
  have same: "(failed_row n m now r)\<lparr>o_error_code := o_error_code r\<rparr> = failed_row n m now r" for m now r
    by (simp add: failed_row_def)
  have leg: "replies s1 = [] \<Longrightarrow> fst (?leg s1) = Inr () \<and> wa_outbound (snd (?leg s1)) =
      update_where (\<lambda>r. o_id r = oid) (failed_row n (msg code detail) (utc_now s1)) (wa_outbound s1)" for s1
    by (simp add: exec_quiet_known update_outbound_def writes_def)
  show ?thesis
    unfolding FailOutbound_def Let_def Fallback_def FeatureOff_def legacy_def msg_def [symmetric]
    using assms(1) leg
    by (simp add: exec_error_code has_error_code_def same update_outbound_def [of _ "\<lambda>now r. r\<lparr>o_error_code := _\<rparr>"])
     (simp add: update_outbound_def writes_def)
qed

lemma clip_at_ge: "m \<le> n \<Longrightarrow> rune_start (s ! m) \<Longrightarrow> m \<le> clip_at s n"
  by (induction n) (auto simp: le_Suc_eq)

text \<open>The code and its colon survive the cut, whatever the detail is.\<close>

lemma clip_keeps_code:
  assumes "length code + 1 \<le> n"
  shows "prefix (code @ '':'') (clip (code @ '': '' @ detail) n)"
proof (cases "length (code @ '': '' @ detail) \<le> n")
  case True
  then show ?thesis by (simp add: clip_def)
next
  case False
  have "(code @ '': '' @ detail) ! (length code + 1) = CHR '' ''" by (simp add: nth_append)
  moreover have "rune_start (CHR '' '')" by (simp add: rune_start_def cont_byte_def byte_def)
  ultimately have "length code + 1 \<le> clip_at (code @ '': '' @ detail) n"
    using assms by (intro clip_at_ge) simp_all
  then have "take (length code + 1) (code @ '': '' @ detail) =
      take (length code + 1) (take (clip_at (code @ '': '' @ detail) n) (code @ '': '' @ detail))"
    by (simp add: min_absorb1)
  then have "code @ '':'' =
      take (length code + 1) (take (clip_at (code @ '': '' @ detail) n) (code @ '': '' @ detail))"
    by simp
  then have "prefix (code @ '':'') (take (clip_at (code @ '': '' @ detail) n) (code @ '': '' @ detail))"
    by (metis take_is_prefix)
  then show ?thesis using False unfolding clip_def by simp
qed

text \<open>FailOutbound writes failed with a message of at most 500 bytes that starts with the code and a colon, well-formed when its parts are.\<close>

theorem FailOutbound_outcome:
  assumes "replies s = []" "row_by o_id oid (wa_outbound s) = Some r"
    and "length code + 1 \<le> outboundMessageMax"
  shows "\<exists>r' msg. fst (FailOutbound oid n code detail s) = Inr () \<and>
    row_by o_id oid (wa_outbound (snd (FailOutbound oid n code detail s))) = Some r' \<and>
    o_status r' = ''failed'' \<and> o_attempts r' = int n \<and> o_error_message r' = Some msg \<and>
    o_error_code r' = (if has_error_code s then Some code else o_error_code r) \<and>
    length msg \<le> 500 \<and> prefix (code @ '':'') msg \<and>
    (valid_utf8 (code @ '': '' @ detail) \<longrightarrow> valid_utf8 msg)"
proof -
  let ?f = "\<lambda>r. (failed_row n (clip (code @ '': '' @ detail) outboundMessageMax) (utc_now s) r)
         \<lparr>o_error_code := if has_error_code s then Some code else o_error_code r\<rparr>"
  have "row_by o_id oid (update_where (\<lambda>r. o_id r = oid) ?f (wa_outbound s)) = Some (?f r)"
    using assms(2) row_by_Some_in [OF assms(2)]
    by (subst row_by_update_where) (auto simp: failed_row_def)
  then show ?thesis
    using FailOutbound_quiet [OF assms(1), of oid n code detail] clip_keeps_code [OF assms(3), of detail]
      cl.cut_width [of "code @ '': '' @ detail" outboundMessageMax]
      cl.cut_valid [of "code @ '': '' @ detail" outboundMessageMax]
    by (simp add: failed_row_def) (simp add: outboundMessageMax_def)
qed

section \<open>The heartbeat\<close>

definition beats :: "(string list) \<Rightarrow> store \<Rightarrow> bool" where
  "beats cols s \<longleftrightarrow> list_all (\<lambda>c. c \<notin> set (missing_columns s)) cols"

lemma heartbeat_owners [simp]:
  "columnOwner (unknown_column ''last_seen_at'') = None"
  "columnOwner (unknown_column ''bridge_features'') = None"
  "columnOwner (unknown_column ''bridge_features_at'') = None"
  by (simp_all add: columnOwner_unknown_column columnFeature_def)

lemma heartbeat_features [simp]:
  "featureBridgeFeatures \<noteq> featureHeartbeat" "featureHeartbeat \<noteq> featureBridgeFeatures"
  by (simp_all add: feature_defs)

text \<open>Heartbeat never fails for a missing column: it announces the features, or stamps last_seen_at alone, or skips.\<close>

theorem Heartbeat_degrades:
  assumes "replies s = []" "off s = {}"
  shows "fst (Heartbeat s) = Inr () \<and>
    wa_pairing (snd (Heartbeat s)) = map_option (\<lambda>p.
      if ''wa_pairing.last_seen_at'' \<in> set (missing_columns s) then p
      else if ''wa_pairing.bridge_features'' \<in> set (missing_columns s) \<or>
              ''wa_pairing.bridge_features_at'' \<in> set (missing_columns s)
        then p\<lparr>p_last_seen_at := Some (utc_now s)\<rparr>
      else p\<lparr>p_last_seen_at := Some (utc_now s), p_bridge_features := Some BridgeFeatures,
             p_bridge_features_at := Some (utc_now s)\<rparr>) (wa_pairing s) \<and>
    fst (Heartbeat (snd (Heartbeat s))) = Inr ()"
  using assms
  by (cases "wa_pairing s")
    (auto simp: Heartbeat_def Fallback_def FeatureOff_def legacy_def exec_quiet writes_def switch_off_def
      set_pairing_def)

section \<open>Closed instances\<close>

definition sample_outbound :: "int \<Rightarrow> string \<Rightarrow> outbound_row" where
  "sample_outbound i st =
     \<lparr>o_id = i, o_status = st, o_client_request_id = None, o_chat_jid = None, o_to_phone = Some ''+57'',
      o_to_name = None, o_body = Some ''hola'', o_kind = None, o_media_url = None, o_media_mime = None,
      o_media_filename = None, o_media_size = None, o_media_sha256 = None, o_quoted_message_id = None,
      o_location_name = None, o_location_address = None, o_location_url = None, o_attempts = 0,
      o_last_attempt_at = None, o_created_at = 0, o_whatsapp_message_id = None, o_sent_at = None,
      o_error_message = None, o_error_code = None\<rparr>"

definition sample_pairing :: pairing_row where
  "sample_pairing =
     \<lparr>p_status = ''paired'', p_qr_code = None, p_qr_expires_at = None, p_device_jid = None,
      p_paired_at = None, p_last_event = None, p_reset_requested_at = None, p_last_seen_at = None,
      p_bridge_features = None, p_bridge_features_at = None\<rparr>"

definition outbound_store :: store where
  "outbound_store = sample_store
     \<lparr>wa_outbound := [sample_outbound 7 ''resolve'', sample_outbound 8 ''pending''],
      wa_pairing := Some sample_pairing,
      wa_typing_outbound := [\<lparr>t_chat_jid = ''a'', t_state = ''composing'', t_requested_at = 5, t_processed_at = None\<rparr>,
        \<lparr>t_chat_jid = ''g'', t_state = ''paused'', t_requested_at = 3, t_processed_at = None\<rparr>]\<rparr>"

lemma outbound_store_ok:
  "tables_ok outbound_store" "replies outbound_store = []" "off outbound_store = {}"
  "row_by o_id 7 (wa_outbound outbound_store) = Some (sample_outbound 7 ''resolve'')"
  by (simp_all add: outbound_store_def sample_outbound_def tables_ok_def sample_defs)

theorem drain_claims_what_it_returns_witness:
  "\<exists>s'. DrainTypingOutbound 1 outbound_store = (Inr (next_batch 1 outbound_store), s') \<and>
     pending_typing (wa_typing_outbound s') = drop 1 (pending_typing (wa_typing_outbound outbound_store))"
proof -
  obtain x s' where r: "DrainTypingOutbound 1 outbound_store = (x, s')" by (rule prod.exhaust)
  have "\<exists>b. fst (DrainTypingOutbound 1 outbound_store) = Inr b"
    by (simp add: DrainTypingOutbound_def commit_typing_def typing_rollback_def exec_quiet_known
        selects_def writes_def outbound_store_ok(2) split: if_split)
  with drain_claims_what_it_returns [OF r outbound_store_ok(1)] r show ?thesis by auto
qed

theorem claim_is_compare_and_swap_witness:
  "\<exists>s'. ClaimNewChatMessageID 7 ''W1'' outbound_store = (Inr True, s') \<and>
     fst (ClaimNewChatMessageID 7 ''W2'' (s'\<lparr>replies := []\<rparr>)) = Inr False"
proof -
  obtain won s' where r: "ClaimNewChatMessageID 7 ''W1'' outbound_store = (Inr won, s')"
    by (simp add: ClaimNewChatMessageID_def exec_quiet_known outbound_store_ok(2))
  have "o_status (sample_outbound 7 ''resolve'') = ''resolve''"
    "o_whatsapp_message_id (sample_outbound 7 ''resolve'') = None"
    by (simp_all add: sample_outbound_def)
  with claim_is_compare_and_swap [OF r outbound_store_ok(1,4), of "''W2''"] r show ?thesis by auto
qed

theorem FailOutbound_outcome_witness:
  "\<exists>r' msg. row_by o_id 7 (wa_outbound (snd (FailOutbound 7 1 ''SEND_FAILED'' ''x'' outbound_store))) = Some r' \<and>
     o_status r' = ''failed'' \<and> o_error_message r' = Some msg \<and> prefix ''SEND_FAILED:'' msg"
  using FailOutbound_outcome [OF outbound_store_ok(2,4), of "''SEND_FAILED''" 1 "''x''"]
  by (auto simp: outboundMessageMax_def)

theorem Heartbeat_degrades_witness:
  "replies outbound_store = [] \<and> off outbound_store = {} \<and>
   wa_pairing (snd (Heartbeat outbound_store)) = Some (sample_pairing
     \<lparr>p_last_seen_at := Some 1000, p_bridge_features := Some ''new_chat,location_send'',
      p_bridge_features_at := Some 1000\<rparr>)"
  using Heartbeat_degrades [OF outbound_store_ok(2,3)] outbound_store_ok(2,3)
  by (simp add: BridgeFeatures_def) (simp add: outbound_store_def sample_defs)

end
