(* ===== verification/Pairing.thy ===== *)
theory Pairing
  imports OutboundLaws
begin

text \<open>
  \<open>internal/pairing/pairing.go\<close>: what the bridge writes to the single row of
  \<open>wa_pairing\<close>. The reason of a lost session stays in \<open>last_event\<close> while a new QR code is
  offered; a reset asked for by the web app is consumed once. \<open>time.Now()\<close> is an argument of
  the operations that read it.
\<close>

section \<open>Timestamps as text\<close>

text \<open>\<open>Format("2006-01-02 15:04 UTC")\<close> of an instant in nanoseconds since 1970, in UTC.\<close>

fun dec_digits :: "nat \<Rightarrow> string" where
  "dec_digits n = (if n < 10 then [char_of (48 + n)] else dec_digits (n div 10) @ [char_of (48 + n mod 10)])"

declare dec_digits.simps [simp del]

definition pad_digits :: "nat \<Rightarrow> int \<Rightarrow> string" where
  "pad_digits w n = (let d = dec_digits (nat n) in replicate (w - length d) (CHR ''0'') @ d)"

text \<open>The Gregorian date of a day number counted from 1970-01-01.\<close>

definition civil_date :: "int \<Rightarrow> int \<times> int \<times> int" where
  "civil_date days =
     (let z = days + 719468;
          era = z div 146097;
          doe = z mod 146097;
          yoe = (doe - doe div 1460 + doe div 36524 - doe div 146096) div 365;
          doy = doe - (365 * yoe + yoe div 4 - yoe div 100);
          mp = (5 * doy + 2) div 153;
          d = doy - (153 * mp + 2) div 5 + 1;
          m = (if mp < 10 then mp + 3 else mp - 9)
      in (yoe + era * 400 + (if m \<le> 2 then 1 else 0), m, d))"

definition utc_minute_text :: "int \<Rightarrow> string" where
  "utc_minute_text now =
     (let mins = now div minute
      in case civil_date (mins div 1440) of (y, m, d) \<Rightarrow>
           pad_digits 4 y @ ''-'' @ pad_digits 2 m @ ''-'' @ pad_digits 2 d @ '' '' @
           pad_digits 2 (mins mod 1440 div 60) @ '':'' @ pad_digits 2 (mins mod 60) @ '' UTC'')"

section \<open>The writer\<close>

datatype pairing_status = StatusIdle | StatusAwaitingScan | StatusPaired | StatusError

fun status_text :: "pairing_status \<Rightarrow> string" where
  "status_text StatusIdle = ''idle''"
| "status_text StatusAwaitingScan = ''awaiting_scan''"
| "status_text StatusPaired = ''paired''"
| "status_text StatusError = ''error''"

definition sessionLostPrefix :: string where
  "sessionLostPrefix = ''session lost: ''"

text \<open>\<open>IF(last_event LIKE 'session lost: %', last_event, newValue)\<close>; NULL is not like anything.\<close>

definition keepSessionLost :: "string \<Rightarrow> pairing_row \<Rightarrow> string option" where
  "keepSessionLost newValue p =
     (case p_last_event p of
        None \<Rightarrow> Some newValue
      | Some ev \<Rightarrow> if prefix sessionLostPrefix ev then Some ev else Some newValue)"

definition SetQRCode :: "int \<Rightarrow> string \<Rightarrow> int \<Rightarrow> store \<Rightarrow> unit res \<times> store" where
  "SetQRCode now code validFor =
     exec ''UPDATE wa_pairing qr'' []
       (writes (set_pairing (\<lambda>p. p\<lparr>p_status := ''awaiting_scan'', p_qr_code := Some code,
          p_qr_expires_at := Some (now + validFor),
          p_last_event := keepSessionLost ''qr emitted'' p\<rparr>)))"

definition SetPaired :: "string \<Rightarrow> store \<Rightarrow> unit res \<times> store" where
  "SetPaired deviceJID =
     exec ''UPDATE wa_pairing paired'' []
       (writes (\<lambda>s. set_pairing (\<lambda>p. p\<lparr>p_status := ''paired'', p_qr_code := None,
          p_qr_expires_at := None, p_device_jid := Some deviceJID,
          p_paired_at := Some (server_now s), p_last_event := Some ''paired''\<rparr>) s))"

definition SetEvent :: "pairing_status \<Rightarrow> string \<Rightarrow> store \<Rightarrow> unit res \<times> store" where
  "SetEvent status msg =
     exec ''UPDATE wa_pairing event'' []
       (writes (set_pairing (\<lambda>p. p\<lparr>p_status := status_text status,
          p_last_event := keepSessionLost msg p\<rparr>)))"

definition lost_event :: "int \<Rightarrow> string \<Rightarrow> string" where
  "lost_event now reason =
     sessionLostPrefix @ (if 180 < length reason then take 180 reason else reason) @
     '' @ '' @ utc_minute_text now"

definition SetSessionLost :: "int \<Rightarrow> string \<Rightarrow> store \<Rightarrow> unit res \<times> store" where
  "SetSessionLost now reason =
     exec ''UPDATE wa_pairing lost'' []
       (writes (set_pairing (\<lambda>p. p\<lparr>p_status := status_text StatusError,
          p_last_event := Some (lost_event now reason)\<rparr>)))"

text \<open>A transaction on the row; both results of the Go function are kept.\<close>

definition pairing_rollback :: "store \<Rightarrow> store \<Rightarrow> store" where
  "pairing_rollback s s1 = s1\<lparr>wa_pairing := wa_pairing s\<rparr>"

definition commit_pairing :: "store \<Rightarrow> store \<Rightarrow> unit res \<times> store" where
  "commit_pairing s s1 =
     (let work = wa_pairing s1
      in exec ''COMMIT'' [] (writes (\<lambda>d. d\<lparr>wa_pairing := work\<rparr>)) (pairing_rollback s s1))"

definition ConsumeResetRequest :: "store \<Rightarrow> (bool \<times> go_error option) \<times> store" where
  "ConsumeResetRequest s =
     (case exec ''BEGIN'' [] (selects (\<lambda>_. Inr ())) s of
        (Inl e, s1) \<Rightarrow> ((False, Some e), s1)
      | (Inr _, s1) \<Rightarrow>
          (case exec ''SELECT wa_pairing'' []
                  (selects (\<lambda>s. one_row (map_option p_reset_requested_at (wa_pairing s)))) s1 of
             (Inl e, s2) \<Rightarrow> if errors_is e ErrNoRows then ((False, None), s2) else ((False, Some e), s2)
           | (Inr None, s2) \<Rightarrow> (case commit_pairing s s2 of (r, s3) \<Rightarrow> ((False, err_of r), s3))
           | (Inr (Some _), s2) \<Rightarrow>
               (case exec ''UPDATE wa_pairing reset'' []
                       (writes (set_pairing (\<lambda>p. p\<lparr>p_reset_requested_at := None,
                          p_last_event := Some ''reset consumed''\<rparr>))) s2 of
                  (Inl e, s3) \<Rightarrow> ((False, Some e), pairing_rollback s s3)
                | (Inr _, s3) \<Rightarrow>
                    (case commit_pairing s s3 of (r, s4) \<Rightarrow> ((True, err_of r), s4)))))"

section \<open>The contract of the store\<close>

lemma evolves_SetQRCode: "evolves s (snd (SetQRCode now c v s))"
  by (auto simp: SetQRCode_def intro!: evolves_exec)

lemma evolves_SetPaired: "evolves s (snd (SetPaired j s))"
  by (auto simp: SetPaired_def intro!: evolves_exec)

lemma evolves_SetEvent: "evolves s (snd (SetEvent st m s))"
  by (auto simp: SetEvent_def intro!: evolves_exec)

lemma evolves_SetSessionLost: "evolves s (snd (SetSessionLost now r s))"
  by (auto simp: SetSessionLost_def intro!: evolves_exec)

lemma evolves_pairing_row: "evolves s s1 \<Longrightarrow> evolves s (s1\<lparr>wa_pairing := p\<rparr>)"
  by (auto simp: evolves_def tables_ok_def)

lemma evolves_commit_pairing:
  assumes "evolves s s1"
  shows "evolves s (snd (commit_pairing s s1))"
proof -
  let ?r = "sent_off ''COMMIT'' (pairing_rollback s s1)"
  have "evolves s (pairing_rollback s s1)"
    unfolding pairing_rollback_def using assms by (rule evolves_pairing_row)
  then have "evolves s ?r" using evolves_sent_off by (rule evolves_trans)
  then show ?thesis
    using exec_snd [of "''COMMIT''" "[]" "writes (\<lambda>d. d\<lparr>wa_pairing := wa_pairing s1\<rparr>)" "pairing_rollback s s1"]
    by (auto simp: commit_pairing_def intro: evolves_pairing_row)
qed

lemma evolves_ConsumeResetRequest: "evolves s (snd (ConsumeResetRequest s))"
  unfolding ConsumeResetRequest_def
  apply (rule evolves_from, simp)
  apply (rule evolves_case_sum [rotated], simp)
  apply (rule evolves_from, erule evolves_after, simp)
  apply (rule evolves_case_sum [rotated], simp)
  apply (simp only: split: option.split, intro conjI impI allI)
   apply (rule evolves_from, erule evolves_commit_pairing, simp)
  apply (rule evolves_from, erule evolves_after, rule evolves_exec, simp)
  apply (rule evolves_case_sum [rotated], simp add: pairing_rollback_def evolves_pairing_row)
  apply (rule evolves_from, erule evolves_commit_pairing, simp)
  done

interpretation qr_op: store_op "SetQRCode now c v" for now c v
  by unfold_locales (rule evolves_SetQRCode)

interpretation paired_op: store_op "SetPaired j" for j
  by unfold_locales (rule evolves_SetPaired)

interpretation event_op: store_op "SetEvent st m" for st m
  by unfold_locales (rule evolves_SetEvent)

interpretation lost_op: store_op "SetSessionLost now r" for now r
  by unfold_locales (rule evolves_SetSessionLost)

interpretation reset_op: store_op ConsumeResetRequest
  by unfold_locales (rule evolves_ConsumeResetRequest)

section \<open>The reason of a lost session stays\<close>

datatype pairing_write = WriteQR int string int | WriteEvent pairing_status string

fun run_write :: "pairing_write \<Rightarrow> store \<Rightarrow> store" where
  "run_write (WriteQR now code validFor) s = snd (SetQRCode now code validFor s)"
| "run_write (WriteEvent st msg) s = snd (SetEvent st msg s)"

definition session_lost :: "string \<Rightarrow> store \<Rightarrow> bool" where
  "session_lost ev s \<longleftrightarrow> prefix sessionLostPrefix ev \<and> map_option p_last_event (wa_pairing s) = Some (Some ev)"

lemma exec_set_pairing:
  "wa_pairing (snd (exec n cols (writes (\<lambda>s. set_pairing (F s) s)) s)) = wa_pairing s \<or>
   wa_pairing (snd (exec n cols (writes (\<lambda>s. set_pairing (F s) s)) s)) =
     map_option (F (sent_off n s)) (wa_pairing s)"
  using exec_snd [of n cols "writes (\<lambda>s. set_pairing (F s) s)" s] by auto

lemma exec_keeps_lost:
  assumes "session_lost ev s" "\<And>d p. p_last_event (F d p) = keepSessionLost (t d p) p"
  shows "session_lost ev (snd (exec n cols (writes (\<lambda>s. set_pairing (F s) s)) s))"
  using exec_set_pairing [of n cols F s] assms
  by (cases "wa_pairing s") (auto simp: session_lost_def keepSessionLost_def)

lemma run_write_keeps_lost: "session_lost ev s \<Longrightarrow> session_lost ev (run_write w s)"
  by (cases w) (auto simp: SetQRCode_def SetEvent_def intro!: exec_keeps_lost)

text \<open>The reason of a lost session survives any number of QR codes and events.\<close>

theorem lost_reason_sticks:
  assumes "SetSessionLost now reason s = (Inr (), s1)" "wa_pairing s \<noteq> None"
  shows "map_option p_last_event (wa_pairing (fold run_write ws s1)) = Some (Some (lost_event now reason))"
proof -
  have "session_lost (lost_event now reason) s1"
    using exec_Inr [OF assms(1) [unfolded SetSessionLost_def]] assms(2)
    by (auto simp: session_lost_def lost_event_def writes_def)
  then have "session_lost (lost_event now reason) (fold run_write ws s1)"
    by (induction ws arbitrary: s1) (auto intro: run_write_keeps_lost)
  then show ?thesis by (simp add: session_lost_def)
qed

text \<open>The event fits \<open>VARCHAR(255)\<close> in bytes, but the cut at 180 bytes can split a character.\<close>

text \<open>The lost-session event fits VARCHAR(255), and is well-formed for a reason of at most 180 bytes.\<close>

theorem lost_event_fits:
  assumes "length (utc_minute_text now) \<le> 58"
  shows "length (lost_event now reason) \<le> 255 \<and>
    (length reason \<le> 180 \<and> valid_utf8 reason \<and> valid_utf8 (utc_minute_text now) \<longrightarrow>
       valid_utf8 (lost_event now reason))"
proof -
  have "valid_utf8 sessionLostPrefix" "valid_utf8 '' @ ''" by code_simp+
  then have "valid_utf8 (sessionLostPrefix @ reason @ '' @ '' @ utc_minute_text now)"
    if "valid_utf8 reason" "valid_utf8 (utc_minute_text now)"
    by (intro valid_utf8_append that)
  then show ?thesis using assms by (simp add: lost_event_def sessionLostPrefix_def)
qed

section \<open>A reset is consumed once\<close>

definition reset_pending :: "store \<Rightarrow> bool" where
  "reset_pending s \<longleftrightarrow> (case wa_pairing s of None \<Rightarrow> False | Some p \<Rightarrow> p_reset_requested_at p \<noteq> None)"

lemma exec_selects_pairing:
  "exec n cols (selects f) s = (x, s1) \<Longrightarrow>
     wa_pairing s1 = wa_pairing s \<and> (\<forall>y. x = Inr y \<longrightarrow> f (sent_off n s) = Inr y)"
  by (cases rule: exec_cases) (auto simp: selects_def)

lemma commit_pairing_result:
  assumes "commit_pairing s s1 = (x, s2)"
  shows "(\<exists>e. x = Inl e) \<and> wa_pairing s2 = wa_pairing s \<or> wa_pairing s2 = wa_pairing s1"
  using assms unfolding commit_pairing_def Let_def
  by (cases rule: exec_cases) (auto simp: pairing_rollback_def writes_def)

text \<open>ConsumeResetRequest answers true only for a pending request, clears it when it succeeds, and leaves the row alone when it answers false.\<close>

theorem reset_consumed_once:
  assumes "ConsumeResetRequest s = ((reset, err), s')"
  shows "(\<not> reset \<longrightarrow> wa_pairing s' = wa_pairing s) \<and>
    (reset \<longrightarrow> reset_pending s) \<and>
    (reset \<and> err = None \<longrightarrow> \<not> reset_pending s') \<and>
    (\<not> reset \<and> err = None \<longrightarrow> honest s \<longrightarrow> \<not> reset_pending s')"
proof -
  obtain a s1 where 1: "exec ''BEGIN'' [] (selects (\<lambda>_. Inr ())) s = (a :: unit res, s1)"
    by (rule prod.exhaust)
  obtain b s2 where 2: "exec ''SELECT wa_pairing'' []
      (selects (\<lambda>s. one_row (map_option p_reset_requested_at (wa_pairing s)))) s1 = (b, s2)"
    by (rule prod.exhaust)
  have q: "wa_pairing s1 = wa_pairing s" "wa_pairing s2 = wa_pairing s"
    using exec_selects_pairing [OF 1] exec_selects_pairing [OF 2] by simp_all
  have "honest s \<Longrightarrow> honest s1"
    using evolves_exec_selects [of s "''BEGIN''" "[]" "\<lambda>_. Inr () :: unit res"] 1
    by (auto simp: evolves_def honest_def suffix_def)
  then have absent: "wa_pairing s = None" if "honest s" "b = Inl e" "errors_is e ErrNoRows" for e
    using that 2 q(1)
    by (auto simp: exec_def take_reply_def emit_def honest_def selects_def one_row_def
        split: list.splits reply.splits option.splits prod.splits)
  show ?thesis
  proof (cases a)
    case (Inl e)
    then have "ConsumeResetRequest s = ((False, Some e), s1)"
      unfolding ConsumeResetRequest_def by (simp add: 1)
    with assms q show ?thesis by auto
  next
    case a: (Inr u)
    show ?thesis
    proof (cases b)
      case (Inl e)
      then have "ConsumeResetRequest s =
          (if errors_is e ErrNoRows then (False, None) else (False, Some e), s2)"
        unfolding ConsumeResetRequest_def by (simp add: 1 2 a)
      with assms q absent [OF _ Inl] show ?thesis by (auto simp: reset_pending_def split: if_splits)
    next
      case b: (Inr ts)
      have ts: "map_option p_reset_requested_at (wa_pairing s) = Some ts"
        using exec_selects_pairing [OF 2] q b by (auto simp: one_row_def split: option.splits)
      show ?thesis
      proof (cases ts)
        case None
        obtain r s3 where c: "commit_pairing s s2 = (r, s3)" by (rule prod.exhaust)
        have "ConsumeResetRequest s = ((False, err_of r), s3)"
          unfolding ConsumeResetRequest_def by (simp add: 1 2 a b None c)
        with assms commit_pairing_result [OF c] q ts None show ?thesis
          by (auto simp: reset_pending_def split: option.splits)
      next
        case (Some t)
        then have pend: "reset_pending s" using ts by (auto simp: reset_pending_def)
        let ?w = "\<lambda>p. p\<lparr>p_reset_requested_at := None, p_last_event := Some ''reset consumed''\<rparr>"
        obtain c s3 where 3: "exec ''UPDATE wa_pairing reset'' [] (writes (set_pairing ?w)) s2 = (c, s3)"
          by (rule prod.exhaust)
        show ?thesis
        proof (cases c)
          case (Inl e)
          then have "ConsumeResetRequest s = ((False, Some e), pairing_rollback s s3)"
            unfolding ConsumeResetRequest_def by (simp add: 1 2 a b Some 3)
          with assms show ?thesis by (auto simp: pairing_rollback_def)
        next
          case c: (Inr v)
          obtain r s4 where d: "commit_pairing s s3 = (r, s4)" by (rule prod.exhaust)
          have "ConsumeResetRequest s = ((True, err_of r), s4)"
            unfolding ConsumeResetRequest_def by (simp add: 1 2 a b Some 3 c d)
          moreover have "wa_pairing s3 = map_option ?w (wa_pairing s)"
            using exec_Inr [OF 3 [unfolded c]] q by (auto simp: writes_def)
          ultimately show ?thesis
            using assms commit_pairing_result [OF d] pend
            by (auto simp: reset_pending_def split: option.splits)
        qed
      qed
    qed
  qed
qed

section \<open>Closed instances\<close>

theorem lost_reason_sticks_witness:
  "\<exists>s1. SetSessionLost 0 ''logged out'' outbound_store = (Inr (), s1) \<and>
    map_option p_last_event (wa_pairing (fold run_write [WriteQR 0 ''qr'' 20, WriteEvent StatusError ''qr timeout''] s1)) =
      Some (Some ''session lost: logged out @ 1970-01-01 00:00 UTC'')"
proof -
  obtain s1 where r: "SetSessionLost 0 ''logged out'' outbound_store = (Inr (), s1)"
    by (simp add: SetSessionLost_def exec_quiet_known outbound_store_ok(2) writes_def)
  have "wa_pairing outbound_store \<noteq> None" by (simp add: outbound_store_def)
  moreover have "lost_event 0 ''logged out'' = ''session lost: logged out @ 1970-01-01 00:00 UTC''"
    by code_simp
  ultimately show ?thesis using lost_reason_sticks [OF r, of "[WriteQR 0 ''qr'' 20, WriteEvent StatusError ''qr timeout'']"] r by auto
qed

theorem lost_event_fits_witness:
  "length (utc_minute_text 1785000000000000000) = 20 \<and>
   utc_minute_text 1785000000000000000 = ''2026-07-25 17:20 UTC'' \<and>
   length (lost_event 1785000000000000000 (replicate 300 (CHR ''x''))) \<le> 255"
proof -
  have t: "utc_minute_text 1785000000000000000 = ''2026-07-25 17:20 UTC''" by code_simp
  then show ?thesis
    using lost_event_fits [of 1785000000000000000 "replicate 300 (CHR ''x'')"] by simp
qed

theorem reset_consumed_once_witness:
  "let s = outbound_store\<lparr>wa_pairing := Some (sample_pairing\<lparr>p_reset_requested_at := Some 1\<rparr>)\<rparr>
   in \<exists>s'. ConsumeResetRequest s = ((True, None), s') \<and> \<not> reset_pending s'"
proof -
  define s where "s = outbound_store\<lparr>wa_pairing := Some (sample_pairing\<lparr>p_reset_requested_at := Some 1\<rparr>)\<rparr>"
  have "replies s = []" "wa_pairing s = Some (sample_pairing\<lparr>p_reset_requested_at := Some 1\<rparr>)"
    using outbound_store_ok(2) by (simp_all add: s_def)
  then obtain s' where r: "ConsumeResetRequest s = ((True, None), s')"
    by (simp add: ConsumeResetRequest_def commit_pairing_def pairing_rollback_def exec_quiet_known
        selects_def one_row_def writes_def)
  then show ?thesis using reset_consumed_once [OF r] by (auto simp: s_def)
qed

text \<open>A reason whose character at byte 180 takes two bytes makes an invalid text.\<close>

text \<open>The byte cut of SetSessionLost can split a character: a well-formed reason gives an ill-formed event.\<close>

theorem lost_event_can_split:
  "\<exists>reason. valid_utf8 reason \<and> \<not> valid_utf8 (lost_event 0 reason)"
proof -
  have "valid_utf8 (replicate 179 (CHR ''a'') @ [CHR 0xC3, CHR 0xB3])" by code_simp
  moreover have "\<not> valid_utf8 (lost_event 0 (replicate 179 (CHR ''a'') @ [CHR 0xC3, CHR 0xB3]))"
    by code_simp
  ultimately show ?thesis by blast
qed

end
