(* ===== verification/Proto.thy ===== *)
theory Proto
  imports GoFloat
begin

text \<open>
  The WhatsApp message as the bridge reads it. \<open>waE2E.Message\<close> is a generated protobuf
  struct (not part of the repository) with one optional member per kind of content. Here
  it is the list of its populated fields; the fields the code does not read are kept by
  name. Go's getters on a nil pointer return the zero value: \<open>flds None = []\<close>.
\<close>

section \<open>Fields\<close>

datatype content_kind =
    ExtendedText | Image | Video | Audio | Document | Sticker | Location | LiveLocation
  | Contact | ContactsArray | Buttons | ButtonsResponse | ListKind | ListResponse
  | Template | TemplateButtonReply | Interactive | InteractiveResponse
  | PollCreation | PollCreationV2 | PollCreationV3 | PollUpdate
  | GroupInvite | Product | Order | SenderKeyDistribution | Album

text \<open>The containers, in the order \<open>unwrapMessage\<close> tries them.\<close>

datatype container_kind =
    DeviceSent | Ephemeral | ViewOnce | ViewOnceV2 | ViewOnceV2Extension
  | DocumentWithCaption | AssociatedChild | Edited

text \<open>
  \<open>ProtocolMessage_Type\<close>: the members the code names; another one by its \<open>String()\<close>.
\<close>

datatype protocol_type =
    Revoke | MessageEdit | EphemeralSetting | EphemeralSyncResponse | HistorySyncNotification
  | AppStateSyncKeyShare | AppStateSyncKeyRequest | MsgFanoutBackfillRequest
  | InitialSecurityNotificationSettingSync | AppStateFatalExceptionNotification
  | SharePhoneNumber | PeerDataOperationRequest | PeerDataOperationRequestResponse
  | RequestWelcome | MediaNotify | CloudApiThreadControlNotification
  | LidMigrationMappingSync | LimitSharing | GroupMemberLabelChange | MessageUnschedule
  | ChatThemeSetting | MarkAsVerifiedAction | CoexStateSync
  | SharedDeviceContactHashKeyShare | SharedDeviceContactHashKeyRequest
  | OtherProtocol string

datatype secret_type =
    SecretMessageEdit
  | OtherSecret string

text \<open>\<open>whatsmeow.UploadResponse\<close>, the members an outbound message copies.\<close>

record upload =
  up_url :: string
  up_direct_path :: string
  up_media_key :: string
  up_file_enc_sha256 :: string
  up_file_sha256 :: string
  up_file_length :: nat

text \<open>
  The members of a content struct that the code reads or sets. \<open>k_text\<close> is the text a kind
  has: \<open>Text\<close>, \<open>Caption\<close>, \<open>DisplayName\<close>, the \<open>Name\<close> of a poll, \<open>ContentText\<close>,
  \<open>SelectedDisplayText\<close> or the \<open>Title\<close> of a list. Pointers are options; a byte slice is nil
  when it is empty.
\<close>

record content =
  k_text :: "string option"
  k_description :: "string option"
  k_mimetype :: "string option"
  k_file_name :: "string option"
  k_title :: "string option"
  k_jpeg_thumbnail :: string
  k_size :: "(nat \<times> nat) option"
  k_thumbnail_size :: "(nat \<times> nat) option"
  k_page_count :: "nat option"
  k_upload :: "upload option"
  k_latitude :: "float64 option"
  k_longitude :: "float64 option"
  k_name :: "string option"
  k_address :: "string option"
  k_url :: "string option"
  k_options :: "string option list"

definition no_content :: content where
  "no_content =
     \<lparr>k_text = None, k_description = None, k_mimetype = None, k_file_name = None, k_title = None,
      k_jpeg_thumbnail = '''', k_size = None, k_thumbnail_size = None, k_page_count = None, k_upload = None,
      k_latitude = None, k_longitude = None, k_name = None, k_address = None, k_url = None,
      k_options = []\<rparr>"

text \<open>\<open>ReactionMessage\<close>; \<open>rm_key_id\<close> is \<open>Key.ID\<close>, \<open>None\<close> when one of the pointers is nil.\<close>

record reaction_message =
  rm_key_id :: "string option"
  rm_text :: "string option"

text \<open>
  A message and its populated fields; \<open>ContextInfo\<close> is \<open>Ctx StanzaID Participant
  QuotedMessage\<close>. \<open>ProtocolMessage\<close> carries \<open>Key.ID\<close> and \<open>EditedMessage\<close>,
  \<open>SecretEncryptedMessage\<close> and \<open>EncReactionMessage\<close> the \<open>ID\<close> of \<open>TargetMessageKey\<close>.
\<close>

datatype msg = Msg "field list"
  and field =
    Conversation string
  | Content content_kind content "ctx option"
  | Container container_kind "msg option"
  | Protocol protocol_type "string option" "msg option"
  | SecretEncrypted secret_type "string option"
  | ReactionField reaction_message
  | EncReaction "string option"
  | MessageContextInfo
  | OtherField string
  and ctx = Ctx "string option" "string option" "msg option"

section \<open>Getters\<close>

fun flds :: "msg option \<Rightarrow> field list" where
  "flds None = []"
| "flds (Some (Msg fs)) = fs"

fun first :: "('a \<Rightarrow> 'b option) \<Rightarrow> 'a list \<Rightarrow> 'b option" where
  "first f [] = None"
| "first f (x # xs) = (case f x of Some y \<Rightarrow> Some y | None \<Rightarrow> first f xs)"

definition conversation :: "msg option \<Rightarrow> string option" where
  "conversation m = first (\<lambda>x. case x of Conversation s \<Rightarrow> Some s | _ \<Rightarrow> None) (flds m)"

definition content :: "content_kind \<Rightarrow> msg option \<Rightarrow> content option" where
  "content k m =
     first (\<lambda>x. case x of Content k' c _ \<Rightarrow> if k' = k then Some c else None | _ \<Rightarrow> None) (flds m)"

definition content_ctx :: "content_kind \<Rightarrow> msg option \<Rightarrow> ctx option" where
  "content_ctx k m =
     (case first (\<lambda>x. case x of Content k' _ c \<Rightarrow> if k' = k then Some c else None | _ \<Rightarrow> None) (flds m)
      of Some c \<Rightarrow> c | None \<Rightarrow> None)"

definition container :: "container_kind \<Rightarrow> msg option \<Rightarrow> msg option" where
  "container k m =
     (case first (\<lambda>x. case x of Container k' i \<Rightarrow> if k' = k then Some i else None | _ \<Rightarrow> None) (flds m)
      of Some i \<Rightarrow> i | None \<Rightarrow> None)"

definition protocol :: "msg option \<Rightarrow> (protocol_type \<times> string option \<times> msg option) option" where
  "protocol m = first (\<lambda>x. case x of Protocol t i e \<Rightarrow> Some (t, i, e) | _ \<Rightarrow> None) (flds m)"

definition secret_encrypted :: "msg option \<Rightarrow> (secret_type \<times> string option) option" where
  "secret_encrypted m =
     first (\<lambda>x. case x of SecretEncrypted t i \<Rightarrow> Some (t, i) | _ \<Rightarrow> None) (flds m)"

definition reaction_field :: "msg option \<Rightarrow> reaction_message option" where
  "reaction_field m = first (\<lambda>x. case x of ReactionField r \<Rightarrow> Some r | _ \<Rightarrow> None) (flds m)"

definition enc_reaction :: "msg option \<Rightarrow> string option option" where
  "enc_reaction m = first (\<lambda>x. case x of EncReaction i \<Rightarrow> Some i | _ \<Rightarrow> None) (flds m)"

fun ctx_stanza :: "ctx option \<Rightarrow> string" where
  "ctx_stanza (Some (Ctx s _ _)) = null_str s"
| "ctx_stanza None = ''''"

fun ctx_participant :: "ctx option \<Rightarrow> string" where
  "ctx_participant (Some (Ctx _ p _)) = null_str p"
| "ctx_participant None = ''''"

fun ctx_quoted :: "ctx option \<Rightarrow> msg option" where
  "ctx_quoted (Some (Ctx _ _ q)) = q"
| "ctx_quoted None = None"

lemmas getter_defs = conversation_def content_def content_ctx_def container_def protocol_def
  secret_encrypted_def reaction_field_def enc_reaction_def

lemma getters_nil [simp]:
  "conversation None = None" "content k None = None" "content_ctx k None = None"
  "container c None = None" "protocol None = None" "secret_encrypted None = None"
  "reaction_field None = None" "enc_reaction None = None"
  by (simp_all add: getter_defs)

lemma first_Some_in: "first f xs = Some y \<Longrightarrow> \<exists>x \<in> set xs. f x = Some y"
  by (induction xs) (auto split: option.splits)

section \<open>Unwrapping\<close>

definition container_order :: "container_kind list" where
  "container_order =
     [DeviceSent, Ephemeral, ViewOnce, ViewOnceV2, ViewOnceV2Extension, DocumentWithCaption,
      AssociatedChild, Edited]"

definition inner :: "msg option \<Rightarrow> msg option" where
  "inner m = first (\<lambda>k. container k m) container_order"

text \<open>\<open>unwrapMessage\<close>: at most eight layers.\<close>

fun unwrap_n :: "nat \<Rightarrow> msg option \<Rightarrow> msg option" where
  "unwrap_n 0 m = m"
| "unwrap_n (Suc n) m = (case inner m of None \<Rightarrow> m | Some i \<Rightarrow> unwrap_n n (Some i))"

definition unwrapMessage :: "msg option \<Rightarrow> msg option" where
  "unwrapMessage m = unwrap_n 8 m"

lemma inner_None [simp]: "inner None = None"
  by (simp add: inner_def container_order_def)

lemma container_size:
  assumes "container k m = Some i"
  shows "size i < size (the m)"
proof -
  obtain fs where m: "m = Some (Msg fs)"
    using assms by (cases m rule: flds.cases) simp_all
  obtain x where "x \<in> set fs" "x = Container k (Some i)"
    using assms unfolding m container_def
    by (auto split: option.splits dest!: first_Some_in split: field.splits if_splits)
  then have "size (Container k (Some i)) \<le> size_list size fs"
    by (simp add: size_list_estimation')
  then show ?thesis by (simp add: m)
qed

lemma inner_size: "inner m = Some i \<Longrightarrow> size i < size (the m)"
  by (auto simp: inner_def dest!: first_Some_in container_size)

text \<open>How deeply a message is wrapped, and what is inside all the wrappers.\<close>

function depth :: "msg option \<Rightarrow> nat" where
  "depth m = (case inner m of None \<Rightarrow> 0 | Some i \<Rightarrow> Suc (depth (Some i)))"
  by pat_completeness auto
termination
  by (relation "measure (\<lambda>m. size (the m))") (auto dest: inner_size)

function leaf :: "msg option \<Rightarrow> msg option" where
  "leaf m = (case inner m of None \<Rightarrow> m | Some i \<Rightarrow> leaf (Some i))"
  by pat_completeness auto
termination
  by (relation "measure (\<lambda>m. size (the m))") (auto dest: inner_size)

declare depth.simps [simp del] leaf.simps [simp del]

lemma inner_leaf: "inner (leaf m) = None"
proof (induction m rule: leaf.induct)
  case (1 m)
  then show ?case by (cases "inner m") (simp_all add: leaf.simps [of m])
qed

lemma unwrap_n_leaf: "depth m \<le> n \<Longrightarrow> unwrap_n n m = leaf m"
proof (induction n arbitrary: m)
  case 0
  then show ?case by (simp add: depth.simps [of m] leaf.simps [of m] split: option.splits)
next
  case (Suc n)
  then show ?case by (simp add: depth.simps [of m] leaf.simps [of m] split: option.splits)
qed

lemma unwrap_n_no_inner: "inner m = None \<Longrightarrow> unwrap_n n m = m"
  by (cases n) simp_all

lemma unwrapMessage_leaf: "depth m \<le> 8 \<Longrightarrow> unwrapMessage m = leaf m"
  by (simp add: unwrapMessage_def unwrap_n_leaf)

lemma unwrapMessage_None [simp]: "unwrapMessage None = None"
  by (simp add: unwrapMessage_def unwrap_n_no_inner)

lemma leaf_step: "inner m = Some i \<Longrightarrow> leaf m = leaf (Some i)"
  by (simp add: leaf.simps [of m])

lemma depth_step: "inner m = Some i \<Longrightarrow> depth m = Suc (depth (Some i))"
  by (simp add: depth.simps [of m])

end
