(* ===== verification/Whatsapp.thy ===== *)
theory Whatsapp
  imports StoreChats Pairing Proto Media
begin

text \<open>
  What the bridge uses of the library \<open>whatsmeow\<close>, which is not part of the repository: its
  data the code reads field by field, and its calls as the record \<open>wa\<close>, an argument of every
  definition that makes one. A call's answer may depend on everything that has happened
  (the trace), so a theorem over all \<open>wa\<close> covers every sequence of answers.
\<close>

section \<open>JIDs\<close>

text \<open>The \<open>Server\<close> of a JID: the library's constants the code names, or another text.\<close>

datatype server =
    DefaultUserServer
  | HiddenUserServer
  | GroupServer
  | BroadcastServer
  | BotServer
  | OtherServer string

record jid =
  j_user :: string
  j_server :: server
  j_device :: nat

text \<open>\<open>whatsmeow.MediaType\<close>, the constants the code names.\<close>

datatype media_type = MediaImage | MediaVideo | MediaAudio | MediaDocument

section \<open>Answers\<close>

text \<open>
  \<open>types.IsOnWhatsAppResponse\<close>; \<open>hit_verified\<close> is \<open>VerifiedName.Details.GetVerifiedName()\<close>,
  absent when one of the pointers is nil.
\<close>

record lookup_hit =
  hit_query :: string
  hit_jid :: jid
  hit_is_in :: bool
  hit_phone :: jid
  hit_verified :: "string option"

record send_response =
  resp_id :: string
  resp_timestamp :: int

text \<open>\<open>types.ContactInfo\<close>.\<close>

record contact_info =
  ct_found :: bool
  ct_full_name :: string
  ct_first_name :: string
  ct_business_name :: string
  ct_push_name :: string

text \<open>\<open>types.MessageInfo\<close> and \<open>events.Message\<close>, the members the code reads.\<close>

record message_info =
  i_id :: string
  i_chat :: jid
  i_sender :: jid
  i_is_from_me :: bool
  i_is_group :: bool
  i_timestamp :: int
  i_push_name :: string

record message_event =
  ev_info :: message_info
  ev_message :: "msg option"

text \<open>
  The calls. \<open>own_jid\<close> is \<open>client.Store.ID\<close> (nil before pairing), \<open>own_lid\<close> is
  \<open>client.Store.GetLID()\<close>. \<open>send_text\<close> sends a conversation under a message ID of the
  caller's; \<open>profile_picture\<close> is the URL, \<open>None\<close> when the answer is nil.
\<close>

record wa = host +
  jid_string :: "jid \<Rightarrow> string"
  parse_jid :: "string \<Rightarrow> jid res"
  to_non_ad :: "jid \<Rightarrow> jid"
  is_empty :: "jid \<Rightarrow> bool"
  empty_jid :: jid
  own_jid :: "jid option"
  own_lid_ad :: jid
  lid_for_pn :: "event list \<Rightarrow> jid \<Rightarrow> jid res"
  pn_for_lid :: "event list \<Rightarrow> jid \<Rightarrow> jid res"
  get_contact :: "event list \<Rightarrow> jid \<Rightarrow> contact_info res"
  on_whatsapp :: "event list \<Rightarrow> string \<Rightarrow> lookup_hit list \<times> go_error option"
  new_message_id :: "event list \<Rightarrow> string"
  send_text :: "event list \<Rightarrow> jid \<Rightarrow> string \<Rightarrow> string \<Rightarrow> send_response res"
  send_message :: "event list \<Rightarrow> jid \<Rightarrow> msg \<Rightarrow> send_response res"
  build_reaction :: "jid \<Rightarrow> jid \<Rightarrow> string \<Rightarrow> string \<Rightarrow> msg"
  decrypt_secret :: "event list \<Rightarrow> message_event \<Rightarrow> msg option res"
  decrypt_reaction :: "event list \<Rightarrow> message_event \<Rightarrow> reaction_message option res"
  download :: "event list \<Rightarrow> content \<Rightarrow> string res"
  upload_media :: "event list \<Rightarrow> string \<Rightarrow> media_type \<Rightarrow> upload res"
  profile_picture :: "event list \<Rightarrow> jid \<Rightarrow> string option res"
  connect :: "event list \<Rightarrow> unit res"
  is_connected :: "event list \<Rightarrow> bool"

section \<open>Names and addresses\<close>

text \<open>\<open>resolvePNForLID\<close>, \<open>canonicalChatJID\<close>, \<open>contactNameForJID\<close>, \<open>selfJID\<close>, \<open>ownPN\<close>, \<open>ownLID\<close>.\<close>

definition resolvePNForLID :: "wa \<Rightarrow> event list \<Rightarrow> jid \<Rightarrow> jid" where
  "resolvePNForLID w h lid =
     (if j_server lid \<noteq> HiddenUserServer then empty_jid w
      else (case pn_for_lid w h lid of Inl _ \<Rightarrow> empty_jid w | Inr pn \<Rightarrow> pn))"

definition canonicalChatJID :: "wa \<Rightarrow> event list \<Rightarrow> jid \<Rightarrow> jid" where
  "canonicalChatJID w h raw =
     (if j_server raw \<noteq> DefaultUserServer \<or> j_user raw = '''' then raw
      else
        (case lid_for_pn w h raw of
           Inl _ \<Rightarrow> raw
         | Inr lid \<Rightarrow> if is_empty w lid \<or> j_user lid = '''' then raw else lid))"

definition contactNameForJID :: "wa \<Rightarrow> event list \<Rightarrow> jid \<Rightarrow> string" where
  "contactNameForJID w h j =
     (if is_empty w j then ''''
      else
        (case get_contact w h j of
           Inl _ \<Rightarrow> ''''
         | Inr c \<Rightarrow>
             if \<not> ct_found c then ''''
             else if trim_space (ct_full_name c) \<noteq> '''' then trim_space (ct_full_name c)
             else if trim_space (ct_first_name c) \<noteq> '''' then trim_space (ct_first_name c)
             else if trim_space (ct_business_name c) \<noteq> '''' then trim_space (ct_business_name c)
             else if trim_space (ct_push_name c) \<noteq> '''' then trim_space (ct_push_name c)
             else ''''))"

definition selfJID :: "wa \<Rightarrow> string" where
  "selfJID w = (case own_jid w of None \<Rightarrow> '''' | Some j \<Rightarrow> jid_string w j)"

definition ownPN :: "wa \<Rightarrow> jid" where
  "ownPN w = (case own_jid w of None \<Rightarrow> empty_jid w | Some j \<Rightarrow> to_non_ad w j)"

definition ownLID :: "wa \<Rightarrow> jid" where
  "ownLID w = to_non_ad w (own_lid_ad w)"

section \<open>Retrying a store call\<close>

text \<open>
  \<open>storeRetry\<close>: up to one attempt per entry of \<open>retryDelays\<close>; \<open>err\<close> reads the error of a
  result, \<open>r\<close> is the result so far.
\<close>

definition retryDelays :: "int list" where
  "retryDelays = [0, 2 * second, 5 * second]"

definition retry_done :: "go_error option \<Rightarrow> bool" where
  "retry_done e =
     (case e of None \<Rightarrow> True
      | Some e \<Rightarrow> errors_is e ErrNotAuthor \<or> errors_is e ErrEditsUnsupported)"

fun retry :: "('r \<Rightarrow> go_error option) \<Rightarrow> (store \<Rightarrow> 'r \<times> store) \<Rightarrow> int list \<Rightarrow> 'r \<Rightarrow> store \<Rightarrow> 'r \<times> store" where
  "retry err run [] r s = (r, s)"
| "retry err run (d # ds) r s =
     (case run s of (r1, s1) \<Rightarrow> if retry_done (err r1) then (r1, s1) else retry err run ds r1 s1)"

definition storeRetry :: "(store \<Rightarrow> unit res \<times> store) \<Rightarrow> store \<Rightarrow> unit res \<times> store" where
  "storeRetry run s = retry err_of run retryDelays (Inr ()) s"

context store_op
begin

lemma retry_evolves: "evolves s (snd (retry err run ds r s))"
proof (induction ds arbitrary: r s)
  case (Cons d ds)
  obtain r1 s1 where "run s = (r1, s1)" by (rule prod.exhaust)
  with Cons [of s1 r1] run_evolves [of s] show ?case
    by (auto intro: evolves_trans)
qed simp

lemma retry_invariant:
  assumes "I s" "\<And>s r s1. I s \<Longrightarrow> run s = (r, s1) \<Longrightarrow> I s1"
  shows "I (snd (retry err run ds r s))"
  using assms(1)
proof (induction ds arbitrary: r s)
  case (Cons d ds)
  obtain r1 s1 where "run s = (r1, s1)" by (rule prod.exhaust)
  with Cons assms(2) show ?case by auto
qed simp

end

lemma storeRetry_quiet: "fst (run s) = Inr () \<Longrightarrow> storeRetry run s = run s"
  by (cases "run s") (simp add: storeRetry_def retryDelays_def retry_done_def)

section \<open>Attempts of an outbound row\<close>

definition outboundMaxAttempts :: nat where
  "outboundMaxAttempts = 5"

text \<open>\<open>outboundBackoffSQL\<close>.\<close>

definition backoff_seconds :: "int \<Rightarrow> int" where
  "backoff_seconds attempts =
     (if attempts = 0 then 0 else if attempts = 1 then 10 else if attempts = 2 then 30
      else if attempts = 3 then 60 else if attempts = 4 then 120 else 300)"

definition backoff_passed :: "int \<Rightarrow> outbound_row \<Rightarrow> bool" where
  "backoff_passed now r \<longleftrightarrow>
     (case o_last_attempt_at r of
        None \<Rightarrow> True
      | Some t \<Rightarrow> t < now - backoff_seconds (o_attempts r) * second)"

definition attempted_row :: "nat \<Rightarrow> string \<Rightarrow> int \<Rightarrow> outbound_row \<Rightarrow> outbound_row" where
  "attempted_row n msg now r =
     r\<lparr>o_attempts := int n, o_last_attempt_at := Some now, o_error_message := Some msg\<rparr>"

definition markAttempt :: "int \<Rightarrow> nat \<Rightarrow> string \<Rightarrow> string \<Rightarrow> store \<Rightarrow> store" where
  "markAttempt oid attempts capCode msg s =
     (let msg = (if 500 < length msg then take 500 msg else msg);
          nextAttempts = attempts + 1
      in if outboundMaxAttempts \<le> nextAttempts
         then snd (FailOutbound oid nextAttempts capCode msg s)
         else snd (exec ''UPDATE wa_outbound attempt'' []
                (update_outbound oid (attempted_row nextAttempts msg)) s))"

definition codeSendFailed :: string where
  "codeSendFailed = ''SEND_FAILED''"

definition markOutboundPermanentlyFailed :: "int \<Rightarrow> string \<Rightarrow> string \<Rightarrow> store \<Rightarrow> store" where
  "markOutboundPermanentlyFailed oid code msg s =
     snd (FailOutbound oid outboundMaxAttempts code msg s)"

lemma evolves_markAttempt: "evolves s (markAttempt oid n c m s)"
  by (auto simp: markAttempt_def Let_def attempted_row_def evolves_FailOutbound intro!: evolves_exec)

end
