(* ===== verification/Messages.thy ===== *)
theory Messages
  imports Whatsapp
begin

text \<open>
  \<open>internal/wabridge/messages.go\<close> and the classification part of \<open>wabridge.go\<close>: what a
  WhatsApp message is to the inbox (its type, text and media), what it does to an earlier
  one (edit, delete, reaction), what it quotes, and the texts the chat list shows. All of it
  is pure; the decryption calls are arguments.
\<close>

section \<open>Labels\<close>

text \<open>The texts with characters beyond ASCII, by their UTF-8 bytes.\<close>

definition pin :: string where "pin = [CHR 0xF0, CHR 0x9F, CHR 0x93, CHR 0x8D, CHR 0x20]"
definition person :: string where "person = [CHR 0xF0, CHR 0x9F, CHR 0x91, CHR 0xA4, CHR 0x20]"
definition camera :: string where "camera = [CHR 0xF0, CHR 0x9F, CHR 0x93, CHR 0xB7, CHR 0x20]"
definition movie_camera :: string where
  "movie_camera = [CHR 0xF0, CHR 0x9F, CHR 0x8E, CHR 0xA5, CHR 0x20]"
definition microphone :: string where
  "microphone = [CHR 0xF0, CHR 0x9F, CHR 0x8E, CHR 0xA4, CHR 0x20]"
definition page :: string where "page = [CHR 0xF0, CHR 0x9F, CHR 0x93, CHR 0x84, CHR 0x20]"
definition ballot_box :: string where
  "ballot_box = [CHR 0xF0, CHR 0x9F, CHR 0x97, CHR 0xB3, CHR 0xEF, CHR 0xB8, CHR 0x8F, CHR 0x20]"
definition radio_button :: string where
  "radio_button = [CHR 0xF0, CHR 0x9F, CHR 0x94, CHR 0x98, CHR 0x20]"
definition play :: string where "play = [CHR 0xE2, CHR 0x96, CHR 0xB6, CHR 0x20]"
definition clipboard :: string where
  "clipboard = [CHR 0xF0, CHR 0x9F, CHR 0x93, CHR 0x8B, CHR 0x20]"
definition bar_chart :: string where
  "bar_chart = [CHR 0xF0, CHR 0x9F, CHR 0x93, CHR 0x8A, CHR 0x20]"
definition bullet :: string where "bullet = [CHR 0xE2, CHR 0x80, CHR 0xA2, CHR 0x20]"
definition ubicacion :: string where "ubicacion = ''Ubicaci'' @ [CHR 0xC3, CHR 0xB3] @ ''n''"

lemmas label_defs = pin_def person_def camera_def movie_camera_def microphone_def page_def
  ballot_box_def radio_button_def play_def clipboard_def bar_chart_def bullet_def ubicacion_def

section \<open>Skipped chats\<close>

definition isSkippedChat :: "jid \<Rightarrow> bool" where
  "isSkippedChat j \<longleftrightarrow>
     (j_server j = BroadcastServer \<and> j_user j = ''status'') \<or> j_server j = BotServer"

section \<open>Edits and deletes\<close>

datatype proto_action =
    ActionNone
  | ActionEdit string msg
  | ActionRevoke string
  | ActionDrop string

definition editAction :: "string \<Rightarrow> msg option \<Rightarrow> proto_action" where
  "editAction targetID edited =
     (case edited of
        None \<Rightarrow> ActionDrop ''edit without target or content''
      | Some e \<Rightarrow> if targetID = '''' then ActionDrop ''edit without target or content''
                  else ActionEdit targetID e)"

definition resolveAction ::
  "message_event \<Rightarrow> (message_event \<Rightarrow> msg option res) option \<Rightarrow> proto_action" where
  "resolveAction evt decrypt =
     (let m = unwrapMessage (ev_message evt)
      in case protocol m of
           Some (t, key, edited) \<Rightarrow>
             (if t = MessageEdit then editAction (null_str key) edited
              else if t = Revoke \<and> null_str key \<noteq> '''' then ActionRevoke (null_str key)
              else ActionNone)
         | None \<Rightarrow>
             (case secret_encrypted m of
                None \<Rightarrow> ActionNone
              | Some (OtherSecret t, _) \<Rightarrow> ActionDrop (''secret message type '' @ t)
              | Some (SecretMessageEdit, target) \<Rightarrow>
                  (case decrypt of
                     None \<Rightarrow> ActionDrop ''no decryptor''
                   | Some d \<Rightarrow>
                       (case d evt of
                          Inl e \<Rightarrow> ActionDrop (''edit not decrypted: '' @ asciiOnly (error_text e))
                        | Inr p \<Rightarrow>
                            (let plain = unwrapMessage p
                             in case protocol plain of
                                  Some (MessageEdit, key, edited) \<Rightarrow>
                                    editAction (if null_str key = '''' then null_str target
                                                else null_str key) edited
                                | _ \<Rightarrow> editAction (null_str target) plain)))))"

section \<open>Reactions\<close>

text \<open>\<open>None\<close> is a message that is no reaction (\<open>ok = false\<close>).\<close>

definition reactionOf ::
  "message_event \<Rightarrow> (message_event \<Rightarrow> reaction_message option res) option
   \<Rightarrow> reaction_message option res option" where
  "reactionOf evt decrypt =
     (let m = unwrapMessage (ev_message evt)
      in case reaction_field m of
           Some r \<Rightarrow> Some (Inr (Some r))
         | None \<Rightarrow>
             (case enc_reaction m of
                None \<Rightarrow> None
              | Some target \<Rightarrow>
                  (case decrypt of
                     None \<Rightarrow> Some (Inl (ErrText ''no reaction decryptor''))
                   | Some d \<Rightarrow>
                       Some (case d evt of
                          Inl e \<Rightarrow> Inl e
                        | Inr None \<Rightarrow> Inr None
                        | Inr (Some r) \<Rightarrow>
                            Inr (Some (if null_str (rm_key_id r) = '''' then r\<lparr>rm_key_id := target\<rparr>
                                       else r))))))"

definition senderNonAD :: "wa \<Rightarrow> jid \<Rightarrow> string" where
  "senderNonAD w j = (if is_empty w j then '''' else jid_string w (to_non_ad w j))"

definition reactionRecord :: "wa \<Rightarrow> message_info \<Rightarrow> string \<Rightarrow> reaction_message \<Rightarrow> reaction" where
  "reactionRecord w info chatJID rm =
     \<lparr>r_id = i_id info, r_chat_jid = chatJID,
      r_sender_jid = nullString (senderNonAD w (i_sender info)), r_sender_aliases = [],
      r_from_me = i_is_from_me info, r_is_group = i_is_group info,
      r_target_id = null_str (rm_key_id rm), r_emoji = null_str (rm_text rm),
      r_timestamp = i_timestamp info\<rparr>"

section \<open>Classification\<close>

text \<open>
  \<open>mediaDescriptor\<close>. \<open>md_downloadable\<close> is nil (\<open>None\<close>) for a location.
\<close>

record media_descriptor =
  md_downloadable :: "content option"
  md_mime :: string
  md_filename :: string
  md_embedded_thumbnail :: string
  md_location_name :: string
  md_location_address :: string

definition no_media :: media_descriptor where
  "no_media =
     \<lparr>md_downloadable = None, md_mime = '''', md_filename = '''', md_embedded_thumbnail = '''',
      md_location_name = '''', md_location_address = ''''\<rparr>"

definition coordinates :: "float64 \<Rightarrow> float64 \<Rightarrow> string" where
  "coordinates lat lng = fixed6 lat @ '', '' @ fixed6 lng"

definition pollOptionNames :: "string option list \<Rightarrow> string list" where
  "pollOptionNames opts = filter (\<lambda>n. n \<noteq> '''') (map (\<lambda>o'. trim_space (null_str o')) opts)"

definition pollPreview :: "string \<Rightarrow> string list \<Rightarrow> string" where
  "pollPreview name options =
     (let n = trim_space name
      in join [CHR 0x0A]
           ((if n \<noteq> '''' then bar_chart @ n else bar_chart @ ''Encuesta'') #
            map (\<lambda>o'. bullet @ o') options))"

definition proto_label :: "string \<Rightarrow> string" where
  "proto_label s = ''[proto: '' @ s @ '']''"

definition classifyProtocol :: "protocol_type \<Rightarrow> string \<times> string \<times> media_descriptor option" where
  "classifyProtocol t =
     (case t of
        Revoke \<Rightarrow> (''revoked'', '''', None)
      | OtherProtocol n \<Rightarrow> (''other'', proto_label (''protocolMessage/'' @ n), None)
      | _ \<Rightarrow> (''system'', '''', None))"

text \<open>The proto names of the fields, as \<open>setProtoFields\<close> lists them.\<close>

fun content_name :: "content_kind \<Rightarrow> string" where
  "content_name ExtendedText = ''extendedTextMessage''"
| "content_name Image = ''imageMessage''"
| "content_name Video = ''videoMessage''"
| "content_name Audio = ''audioMessage''"
| "content_name Document = ''documentMessage''"
| "content_name Sticker = ''stickerMessage''"
| "content_name Location = ''locationMessage''"
| "content_name LiveLocation = ''liveLocationMessage''"
| "content_name Contact = ''contactMessage''"
| "content_name ContactsArray = ''contactsArrayMessage''"
| "content_name Buttons = ''buttonsMessage''"
| "content_name ButtonsResponse = ''buttonsResponseMessage''"
| "content_name ListKind = ''listMessage''"
| "content_name ListResponse = ''listResponseMessage''"
| "content_name Template = ''templateMessage''"
| "content_name TemplateButtonReply = ''templateButtonReplyMessage''"
| "content_name Interactive = ''interactiveMessage''"
| "content_name InteractiveResponse = ''interactiveResponseMessage''"
| "content_name PollCreation = ''pollCreationMessage''"
| "content_name PollCreationV2 = ''pollCreationMessageV2''"
| "content_name PollCreationV3 = ''pollCreationMessageV3''"
| "content_name PollUpdate = ''pollUpdateMessage''"
| "content_name GroupInvite = ''groupInviteMessage''"
| "content_name Product = ''productMessage''"
| "content_name Order = ''orderMessage''"
| "content_name SenderKeyDistribution = ''senderKeyDistributionMessage''"
| "content_name Album = ''albumMessage''"

fun container_name :: "container_kind \<Rightarrow> string" where
  "container_name DeviceSent = ''deviceSentMessage''"
| "container_name Ephemeral = ''ephemeralMessage''"
| "container_name ViewOnce = ''viewOnceMessage''"
| "container_name ViewOnceV2 = ''viewOnceMessageV2''"
| "container_name ViewOnceV2Extension = ''viewOnceMessageV2Extension''"
| "container_name DocumentWithCaption = ''documentWithCaptionMessage''"
| "container_name AssociatedChild = ''associatedChildMessage''"
| "container_name Edited = ''editedMessage''"

fun field_name :: "field \<Rightarrow> string" where
  "field_name (Conversation _) = ''conversation''"
| "field_name (Content k _ _) = content_name k"
| "field_name (Container k _) = container_name k"
| "field_name (Protocol _ _ _) = ''protocolMessage''"
| "field_name (SecretEncrypted _ _) = ''secretEncryptedMessage''"
| "field_name (ReactionField _) = ''reactionMessage''"
| "field_name (EncReaction _) = ''encReactionMessage''"
| "field_name MessageContextInfo = ''messageContextInfo''"
| "field_name (OtherField n) = n"

definition setProtoFields :: "msg option \<Rightarrow> string list" where
  "setProtoFields m = filter (\<lambda>n. n \<noteq> ''messageContextInfo'') (map field_name (flds m))"

text \<open>
  \<open>classifyMessage\<close>: the cases of its switch, tried in order; each gives the message type,
  the text and the media.
\<close>

type_synonym classified = "string \<times> string \<times> media_descriptor option"

definition content_rule ::
  "content_kind \<Rightarrow> (content \<Rightarrow> classified) \<Rightarrow> msg option \<Rightarrow> classified option" where
  "content_rule k f m = map_option f (content k m)"

definition conversation_rule :: "msg option \<Rightarrow> classified option" where
  "conversation_rule m =
     (if null_str (conversation m) \<noteq> '''' then Some (''text'', null_str (conversation m), None)
      else None)"

definition media_of :: "content \<Rightarrow> media_descriptor" where
  "media_of c = no_media
     \<lparr>md_downloadable := Some c, md_mime := null_str (k_mimetype c)\<rparr>"

definition media_with_thumbnail :: "content \<Rightarrow> media_descriptor" where
  "media_with_thumbnail c = (media_of c)\<lparr>md_embedded_thumbnail := k_jpeg_thumbnail c\<rparr>"

definition float_of :: "float64 option \<Rightarrow> float64" where
  "float_of v = (case v of None \<Rightarrow> float_zero | Some f \<Rightarrow> f)"

definition location_body :: "content \<Rightarrow> string" where
  "location_body c = coordinates (float_of (k_latitude c)) (float_of (k_longitude c))"

definition location_media :: "content \<Rightarrow> media_descriptor" where
  "location_media c = no_media
     \<lparr>md_embedded_thumbnail := k_jpeg_thumbnail c,
      md_location_name := trim_space (null_str (k_name c)),
      md_location_address := trim_space (null_str (k_address c))\<rparr>"

definition poll_rule :: "content_kind \<Rightarrow> msg option \<Rightarrow> classified option" where
  "poll_rule k = content_rule k (\<lambda>c.
     (''other'', pollPreview (null_str (k_text c)) (pollOptionNames (k_options c)), None))"

definition or_else :: "string \<Rightarrow> string \<Rightarrow> string" where
  "or_else a b = (if a = '''' then b else a)"

definition system_rule :: "content_kind \<Rightarrow> msg option \<Rightarrow> classified option" where
  "system_rule k = content_rule k (\<lambda>_. (''system'', '''', None))"

definition media_rules :: "(msg option \<Rightarrow> classified option) list" where
  "media_rules =
     [conversation_rule,
      content_rule ExtendedText (\<lambda>c. (''text'', null_str (k_text c), None)),
      content_rule Image (\<lambda>c. (''image'', null_str (k_text c), Some (media_with_thumbnail c))),
      content_rule Video (\<lambda>c. (''video'', null_str (k_text c), Some (media_with_thumbnail c))),
      content_rule Audio (\<lambda>c. (''audio'', '''', Some (media_of c))),
      content_rule Document (\<lambda>c. (''document'', null_str (k_text c),
        Some ((media_with_thumbnail c)\<lparr>md_filename := null_str (k_file_name c)\<rparr>))),
      content_rule Sticker (\<lambda>c. (''sticker'', '''', Some (media_of c))),
      content_rule Location (\<lambda>c. (''location'', location_body c, Some (location_media c))),
      content_rule LiveLocation (\<lambda>c. (''location'', location_body c,
        Some (no_media\<lparr>md_embedded_thumbnail := k_jpeg_thumbnail c\<rparr>))),
      content_rule Contact (\<lambda>c. (''contact'', null_str (k_text c), None)),
      \<lambda>m. map_option (\<lambda>r. (''reaction'', null_str (rm_text r), None)) (reaction_field m),
      \<lambda>m. map_option (\<lambda>(t, _, _). classifyProtocol t) (protocol m)]"

definition rich_rules :: "(msg option \<Rightarrow> classified option) list" where
  "rich_rules =
     [poll_rule PollCreation, poll_rule PollCreationV2, poll_rule PollCreationV3,
      content_rule PollUpdate (\<lambda>_. (''other'', ballot_box @ ''Voto en encuesta'', None)),
      system_rule SenderKeyDistribution,
      system_rule Album,
      \<lambda>m. if secret_encrypted m \<noteq> None \<or> enc_reaction m \<noteq> None then Some (''system'', '''', None)
          else None,
      content_rule Buttons (\<lambda>c. (''other'',
        radio_button @ or_else (trim_space (null_str (k_text c))) ''Mensaje con botones'', None)),
      content_rule ButtonsResponse (\<lambda>c. (''other'', play @ null_str (k_text c), None)),
      content_rule ListKind (\<lambda>c. (''other'',
        clipboard @ or_else (or_else (trim_space (null_str (k_text c)))
          (trim_space (null_str (k_description c)))) ''Lista interactiva'', None)),
      content_rule ListResponse (\<lambda>c. (''other'', play @ null_str (k_text c), None)),
      content_rule Template (\<lambda>_. (''other'', clipboard @ ''Plantilla'', None))]"

definition unknown_message :: "msg option \<Rightarrow> classified" where
  "unknown_message m =
     (''other'', (if setProtoFields m = [] then '''' else proto_label (join '', '' (setProtoFields m))),
      None)"

definition classifyMessage :: "msg option \<Rightarrow> classified" where
  "classifyMessage msg =
     (let m = unwrapMessage msg
      in case first (\<lambda>rule. rule m) (media_rules @ rich_rules) of
           Some c \<Rightarrow> c | None \<Rightarrow> unknown_message m)"

section \<open>Texts of the chat list\<close>

definition LocationNameMax :: nat where "LocationNameMax = 255"
definition LocationAddressMax :: nat where "LocationAddressMax = 500"

definition locationFields :: "media_descriptor option \<Rightarrow> string option \<times> string option" where
  "locationFields m =
     (case m of
        None \<Rightarrow> (None, None)
      | Some d \<Rightarrow> (nullString (truncateRunes (md_location_name d) LocationNameMax),
                   nullString (truncateRunes (md_location_address d) LocationAddressMax)))"

definition locationLabel :: "string \<Rightarrow> string" where
  "locationLabel name =
     (if trim_space name \<noteq> '''' then GoText.truncate (pin @ trim_space name) 160
      else pin @ ubicacion)"

definition previewFor :: "string \<Rightarrow> string \<Rightarrow> media_descriptor option \<Rightarrow> string" where
  "previewFor msgType body m =
     (if msgType = ''location''
      then locationLabel (case m of None \<Rightarrow> '''' | Some d \<Rightarrow> md_location_name d)
      else if body \<noteq> '''' then GoText.truncate body 160
      else if msgType = ''image'' then camera @ ''Imagen''
      else if msgType = ''video'' then movie_camera @ ''Video''
      else if msgType = ''audio'' then microphone @ ''Audio''
      else if msgType = ''document'' then
        (case m of
           Some d \<Rightarrow> if md_filename d \<noteq> '''' then page @ md_filename d else page @ ''Documento''
         | None \<Rightarrow> page @ ''Documento'')
      else if msgType = ''sticker'' then ''Sticker''
      else if msgType = ''contact'' then person @ ''Contacto''
      else if msgType = ''reaction'' then body
      else if msgType = ''revoked'' then ''Mensaje eliminado''
      else '''')"

definition defaultStatus :: "bool \<Rightarrow> string" where
  "defaultStatus fromMe = (if fromMe then ''sent'' else ''received'')"

section \<open>Quotes\<close>

definition maxJIDLen :: nat where "maxJIDLen = 64"
definition quotedPreviewMax :: nat where "quotedPreviewMax = 255"

text \<open>The contents that can carry a reply, in the order \<open>contextInfoOf\<close> asks them.\<close>

definition context_kinds :: "content_kind list" where
  "context_kinds =
     [ExtendedText, Image, Video, Audio, Document, Sticker, Location, LiveLocation, Contact,
      ContactsArray, Buttons, ButtonsResponse, ListKind, ListResponse, Template,
      TemplateButtonReply, Interactive, InteractiveResponse, PollCreation, GroupInvite, Product,
      Order]"

definition contextInfoOf :: "msg option \<Rightarrow> ctx option" where
  "contextInfoOf msg = first (\<lambda>k. content_ctx k (unwrapMessage msg)) context_kinds"

record quote_info =
  qi_message_id :: "string option"
  qi_preview :: "string option"
  qi_sender_jid :: "string option"

definition no_quote :: quote_info where
  "no_quote = \<lparr>qi_message_id = None, qi_preview = None, qi_sender_jid = None\<rparr>"

definition quoteLabel :: "string \<Rightarrow> string \<Rightarrow> string \<Rightarrow> string" where
  "quoteLabel msgType body filename =
     (if msgType = ''location'' then pin @ ubicacion
      else if msgType = ''contact'' then person @ (if body \<noteq> '''' then body else ''Contacto'')
      else if trim_space body \<noteq> '''' then body
      else if msgType = ''image'' then camera @ ''Foto''
      else if msgType = ''video'' then movie_camera @ ''Video''
      else if msgType = ''audio'' then microphone @ ''Audio''
      else if msgType = ''document'' then page @ (if filename \<noteq> '''' then filename else ''Documento'')
      else if msgType = ''sticker'' then ''Sticker''
      else if msgType = ''revoked'' then ''Mensaje eliminado''
      else '''')"

definition quotedPreview :: "msg option \<Rightarrow> string" where
  "quotedPreview qm =
     (case unwrapMessage qm of
        None \<Rightarrow> ''''
      | Some m \<Rightarrow>
          (case classifyMessage (Some m) of (msgType, body, media) \<Rightarrow>
             if msgType = ''system'' \<or> (msgType = ''other'' \<and> has_prefix body ''[proto:'') then ''''
             else
               (case media of
                  Some d \<Rightarrow>
                    if msgType = ''location'' \<and> md_location_name d \<noteq> ''''
                    then truncateRunes (locationLabel (md_location_name d)) quotedPreviewMax
                    else truncateRunes (quoteLabel msgType body (md_filename d)) quotedPreviewMax
                | None \<Rightarrow> truncateRunes (quoteLabel msgType body '''') quotedPreviewMax)))"

definition quoteFromContext :: "ctx option \<Rightarrow> quote_info" where
  "quoteFromContext ci =
     (let sid = ctx_stanza ci
      in if sid = '''' \<or> 64 < length sid then no_quote
         else \<lparr>qi_message_id = nullString sid,
               qi_preview = nullString (quotedPreview (ctx_quoted ci)),
               qi_sender_jid =
                 (if ctx_participant ci \<noteq> '''' \<and> length (ctx_participant ci) \<le> maxJIDLen
                  then nullString (ctx_participant ci) else None)\<rparr>)"

definition participantFor :: "wa \<Rightarrow> quoted_row \<Rightarrow> jid \<Rightarrow> jid \<Rightarrow> jid \<Rightarrow> jid" where
  "participantFor w row chat pn lid =
     (let stored = (case q_sender_jid row of None \<Rightarrow> Inl (ErrText '''') | Some s \<Rightarrow> parse_jid w s)
      in if q_from_me row then
           (if j_server chat = HiddenUserServer \<and> \<not> is_empty w lid then to_non_ad w lid
            else if j_server chat = GroupServer \<and> \<not> is_empty w lid \<and>
                    (case stored of Inr j \<Rightarrow> j_server j = HiddenUserServer | Inl _ \<Rightarrow> False)
              then to_non_ad w lid
            else to_non_ad w pn)
         else if j_server chat = GroupServer then
           (case stored of Inl _ \<Rightarrow> empty_jid w | Inr j \<Rightarrow> to_non_ad w j)
         else to_non_ad w chat)"

definition buildQuoteContext :: "wa \<Rightarrow> string \<Rightarrow> jid \<Rightarrow> quoted_row \<Rightarrow> ctx" where
  "buildQuoteContext w stanzaID participant row =
     Ctx (Some stanzaID)
         (if is_empty w participant then None else Some (jid_string w participant))
         (Some (Msg [Conversation
            (quoteLabel (q_message_type row) (null_str (q_body row))
               (null_str (q_media_filename row)))]))"

text \<open>Setting the \<open>ContextInfo\<close> of one content of a message.\<close>

fun set_ctx :: "content_kind \<Rightarrow> ctx \<Rightarrow> field list \<Rightarrow> field list" where
  "set_ctx k ci [] = []"
| "set_ctx k ci (Content k' c x # fs) =
     (if k' = k then Content k' c (Some ci) # fs else Content k' c x # set_ctx k ci fs)"
| "set_ctx k ci (f # fs) = f # set_ctx k ci fs"

fun set_inner :: "container_kind \<Rightarrow> msg \<Rightarrow> field list \<Rightarrow> field list" where
  "set_inner k i [] = []"
| "set_inner k i (Container k' x # fs) =
     (if k' = k then Container k' (Some i) # fs else Container k' x # set_inner k i fs)"
| "set_inner k i (f # fs) = f # set_inner k i fs"

definition quotable_kinds :: "content_kind list" where
  "quotable_kinds = [ExtendedText, Image, Video, Audio, Document, Location]"

definition attachQuote :: "msg option \<Rightarrow> ctx option \<Rightarrow> msg option" where
  "attachQuote msg ci =
     (case (msg, ci) of
        (Some m, Some c) \<Rightarrow>
          (case conversation msg of
             Some t \<Rightarrow> Some (Msg [Content ExtendedText (no_content\<lparr>k_text := Some t\<rparr>) (Some c)])
           | None \<Rightarrow>
               (case first (\<lambda>k. map_option (\<lambda>_. k) (content k msg)) quotable_kinds of
                  Some k \<Rightarrow> Some (Msg (set_ctx k c (flds msg)))
                | None \<Rightarrow>
                    (case container DocumentWithCaption msg of
                       Some i \<Rightarrow>
                         if content Document (Some i) \<noteq> None
                         then Some (Msg (set_inner DocumentWithCaption
                                (Msg (set_ctx Document c (flds (Some i)))) (flds msg)))
                         else msg
                     | None \<Rightarrow> msg)))
      | _ \<Rightarrow> msg)"

end
