(* ===== verification/NewChat.thy ===== *)
theory NewChat
  imports Whatsapp
begin

text \<open>
  \<open>internal/wabridge/newchat.go\<close>: the first message to a phone number. Each tick takes at
  most one \<open>resolve\<close> row of \<open>wa_outbound\<close>, looks its number up, claims a message ID on the
  row, sends, stamps the row and only then writes the chat and the message. A tick is one
  step of the model: the clocks stand still while it runs, and what the database and
  WhatsApp answer is arbitrary.
\<close>

section \<open>State\<close>

definition featureNewChat :: string where
  "featureNewChat = ''wa_outbound.to_phone''"

definition newChatMinGap :: int where
  "newChatMinGap = 20 * second"

definition newChatMaxAge :: int where
  "newChatMaxAge = 23 * hour"

record new_chat_row =
  n_id :: int
  n_client_request_id :: "string option"
  n_to_phone :: "string option"
  n_to_name :: "string option"
  n_body :: "string option"
  n_kind :: "string option"
  n_attempts :: nat
  n_wa_message_id :: "string option"
  n_expired :: bool

record new_chat_writes =
  w_chat :: chat
  w_msg :: message
  w_wa_id :: string

text \<open>
  The state of \<open>Bridge\<close>: the store, the uploader, \<open>newChatState\<close> (which the outbound loop
  owns), the process clock \<open>b.clock()\<close>, the one error \<open>fatalCh\<close> can hold, and since when
  \<open>WatchConnection\<close> has seen no connection. \<open>last_lookup = None\<close> is the zero time.
\<close>

record bridge =
  st :: store
  files :: uploader
  last_lookup :: "int option"
  sent_map :: "int \<Rightarrow> new_chat_writes option"
  wall :: int
  fatal :: "go_error option"
  disconnected_since :: "int option"
  online_loops :: nat

section \<open>The row to work on\<close>

text \<open>\<open>mxPhoneRE\<close>: \<open>^\+52[0-9]{10}$\<close>.\<close>

definition mxPhone :: "string \<Rightarrow> bool" where
  "mxPhone s \<longleftrightarrow>
     take 3 s = ''+52'' \<and> length s = 13 \<and> list_all (\<lambda>c. 48 \<le> byte c \<and> byte c \<le> 57) (drop 3 s)"

text \<open>\<open>TIMESTAMPDIFF(SECOND, a, b)\<close> drops the fraction of a second.\<close>

definition seconds_between :: "int \<Rightarrow> int \<Rightarrow> int" where
  "seconds_between a b = (if a \<le> b then (b - a) div second else - ((a - b) div second))"

definition new_chat_row_of :: "int \<Rightarrow> outbound_row \<Rightarrow> new_chat_row" where
  "new_chat_row_of now r =
     \<lparr>n_id = o_id r, n_client_request_id = o_client_request_id r, n_to_phone = o_to_phone r,
      n_to_name = o_to_name r, n_body = o_body r, n_kind = o_kind r,
      n_attempts = nat (o_attempts r), n_wa_message_id = o_whatsapp_message_id r,
      n_expired = (newChatMaxAge div second < seconds_between (o_created_at r) now)\<rparr>"

definition resolvable :: "int \<Rightarrow> outbound_row \<Rightarrow> bool" where
  "resolvable now r \<longleftrightarrow>
     o_status r = ''resolve'' \<and> o_attempts r < int outboundMaxAttempts \<and> backoff_passed now r"

definition first_resolvable :: "int \<Rightarrow> outbound_row list \<Rightarrow> outbound_row option" where
  "first_resolvable now rs =
     (case sort_key o_id (filter (resolvable now) rs) of [] \<Rightarrow> None | r # _ \<Rightarrow> Some r)"

definition to_phone_cols :: "(string \<times> string) list" where
  "to_phone_cols =
     [(''wa_outbound.to_phone'', ''to_phone''), (''wa_outbound.to_name'', ''to_name'')]"

definition queryResolveOutbound :: "store \<Rightarrow> new_chat_row option res \<times> store" where
  "queryResolveOutbound =
     exec ''SELECT wa_outbound resolve'' to_phone_cols
       (selects (\<lambda>s. Inr (map_option (new_chat_row_of (server_now s))
          (first_resolvable (utc_now s) (wa_outbound s)))))"

section \<open>Ending a row\<close>

definition failNewChat :: "int \<Rightarrow> string \<Rightarrow> string \<Rightarrow> store \<Rightarrow> store" where
  "failNewChat oid code detail s = snd (FailOutbound oid outboundMaxAttempts code detail s)"

text \<open>
  \<open>finishNewChat\<close>: the stamp, then the chat, the message and the row's \<open>chat_jid\<close>, each with
  its retries.
\<close>

definition finish_writes :: "int \<Rightarrow> new_chat_writes \<Rightarrow> store \<Rightarrow> store" where
  "finish_writes oid w s =
     (case storeRetry (UpsertChat (w_chat w)) s of
        (Inl _, s1) \<Rightarrow> s1
      | (Inr _, s1) \<Rightarrow>
          snd (storeRetry (SetOutboundChat oid (ch_jid (w_chat w)))
                 (snd (storeRetry (InsertMessage (w_msg w)) s1))))"

definition finishNewChat :: "int \<Rightarrow> new_chat_writes \<Rightarrow> bridge \<Rightarrow> bridge" where
  "finishNewChat oid w b =
     (case storeRetry (MarkNewChatSent oid (w_wa_id w)) (st b) of
        (Inl _, s1) \<Rightarrow> b\<lparr>st := s1\<rparr>
      | (Inr _, s1) \<Rightarrow> b\<lparr>st := finish_writes oid w s1, sent_map := (sent_map b)(oid := None)\<rparr>)"

section \<open>Sending a row\<close>

definition newChatDisplayName ::
  "wa \<Rightarrow> event list \<Rightarrow> jid \<Rightarrow> lookup_hit \<Rightarrow> string option \<Rightarrow> string option" where
  "newChatDisplayName w h target hit toName =
     (if contactNameForJID w h target \<noteq> '''' then nullString (contactNameForJID w h target)
      else if contactNameForJID w h (hit_phone hit) \<noteq> ''''
        then nullString (contactNameForJID w h (hit_phone hit))
      else if (case hit_verified hit of None \<Rightarrow> False | Some v \<Rightarrow> trim_space v \<noteq> '''')
        then nullString (trim_space (null_str (hit_verified hit)))
      else nullString (trim_space (null_str toName)))"

definition new_chat_writes_of ::
  "wa \<Rightarrow> event list \<Rightarrow> jid \<Rightarrow> lookup_hit \<Rightarrow> new_chat_row \<Rightarrow> send_response \<Rightarrow> new_chat_writes" where
  "new_chat_writes_of w h target hit r resp =
     \<lparr>w_chat =
        \<lparr>ch_jid = jid_string w target,
         ch_display_name = newChatDisplayName w h target hit (n_to_name r),
         ch_phone_e164 =
           (if j_server (hit_phone hit) = DefaultUserServer \<and> j_user (hit_phone hit) \<noteq> ''''
            then nullString (''+'' @ j_user (hit_phone hit)) else n_to_phone r),
         ch_is_group = False, ch_profile_pic_url = None,
         ch_last_message_at = Some (resp_timestamp resp),
         ch_last_message_preview = nullString (GoText.truncate (null_str (n_body r)) 160),
         ch_last_message_from_me = True, ch_increment_unread = False\<rparr>,
      w_msg = empty_message
        \<lparr>m_id := resp_id resp, m_chat_jid := jid_string w target,
         m_sender_jid := nullString (selfJID w), m_from_me := True, m_message_type := ''text'',
         m_body := nullString (null_str (n_body r)),
         m_client_request_id := n_client_request_id r, m_timestamp := resp_timestamp resp,
         m_status := Some ''sent''\<rparr>,
      w_wa_id = resp_id resp\<rparr>"

text \<open>The send itself and what follows it.\<close>

definition send_claimed ::
  "wa \<Rightarrow> jid \<Rightarrow> lookup_hit \<Rightarrow> new_chat_row \<Rightarrow> string \<Rightarrow> bridge \<Rightarrow> bridge" where
  "send_claimed w target hit r waID b =
     (let s1 = emit (WaSend (n_id r) (jid_string w target) waID) (st b)
      in case send_text w (trace s1) target (null_str (n_body r)) waID of
           Inl e \<Rightarrow> b\<lparr>st := markAttempt (n_id r) (n_attempts r) codeSendFailed (error_text e) s1\<rparr>
         | Inr resp \<Rightarrow>
             (let wr = new_chat_writes_of w (trace s1) target hit r resp
              in finishNewChat (n_id r) wr
                   (b\<lparr>st := s1, sent_map := (sent_map b)(n_id r := Some wr)\<rparr>)))"

text \<open>The claim of the message ID before the send.\<close>

definition claim_and_send ::
  "wa \<Rightarrow> jid \<Rightarrow> lookup_hit \<Rightarrow> new_chat_row \<Rightarrow> bridge \<Rightarrow> bridge" where
  "claim_and_send w target hit r b =
     (if n_wa_message_id r = None \<or> null_str (n_wa_message_id r) = '''' then
        (let waID = new_message_id w (trace (st b))
         in case ClaimNewChatMessageID (n_id r) waID (st b) of
              (Inl _, s1) \<Rightarrow> b\<lparr>st := s1\<rparr>
            | (Inr claimed, s1) \<Rightarrow>
                if \<not> claimed then b\<lparr>st := s1\<rparr>
                else send_claimed w target hit r waID (b\<lparr>st := s1\<rparr>))
      else send_claimed w target hit r (null_str (n_wa_message_id r)) b)"

text \<open>The lookup, which starts the pause before the next one.\<close>

definition lookup_and_send :: "wa \<Rightarrow> new_chat_row \<Rightarrow> string \<Rightarrow> bridge \<Rightarrow> bridge" where
  "lookup_and_send w r phone b =
     (let b1 = b\<lparr>last_lookup := Some (wall b), st := emit (WaLookup (n_id r) phone) (st b)\<rparr>
      in case on_whatsapp w (trace (st b1)) phone of (res, err) \<Rightarrow>
        (case (res, err) of
           ([], Some e) \<Rightarrow>
             b1\<lparr>st := markAttempt (n_id r) (n_attempts r) ''LOOKUP_FAILED''
                       (''whatsapp lookup: '' @ error_text e) (st b1)\<rparr>
         | ([], None) \<Rightarrow>
             b1\<lparr>st := failNewChat (n_id r) ''NOT_ON_WHATSAPP'' ''number is not on WhatsApp'' (st b1)\<rparr>
         | (hit # _, _) \<Rightarrow>
             if \<not> hit_is_in hit then
               b1\<lparr>st := failNewChat (n_id r) ''NOT_ON_WHATSAPP'' ''number is not on WhatsApp'' (st b1)\<rparr>
             else
               (let target = hit_jid hit
                in if j_user target = '''' \<or>
                      j_server target \<noteq> DefaultUserServer \<and> j_server target \<noteq> HiddenUserServer
                   then b1\<lparr>st := failNewChat (n_id r) ''INVALID_PHONE''
                               (''lookup returned a non-user JID '' @ jid_string w target) (st b1)\<rparr>
                   else
                     claim_and_send w
                       (if j_server target = DefaultUserServer
                        then canonicalChatJID w (trace (st b1)) target else target)
                       hit r b1)))"

definition sendNewChatRow :: "wa \<Rightarrow> new_chat_row \<Rightarrow> bridge \<Rightarrow> bridge" where
  "sendNewChatRow w r b =
     (case sent_map b (n_id r) of
        Some wr \<Rightarrow> finishNewChat (n_id r) wr b
      | None \<Rightarrow>
          if n_expired r then
            b\<lparr>st := failNewChat (n_id r) ''EXPIRED''
                (''queued more than 23h0m0s ago, not sent'' @
                 (case n_wa_message_id r of None \<Rightarrow> ''''
                  | Some i \<Rightarrow> '' (an earlier attempt may have sent it as '' @ i @ '')''))
                (st b)\<rparr>
          else if null_str (n_kind r) \<noteq> ''text'' \<or> trim_space (null_str (n_body r)) = '''' then
            b\<lparr>st := failNewChat (n_id r) ''UNSUPPORTED_KIND''
                (''a new chat takes a text message, got kind '' @ null_str (n_kind r)) (st b)\<rparr>
          else if \<not> mxPhone (null_str (n_to_phone r)) then
            b\<lparr>st := failNewChat (n_id r) ''INVALID_PHONE''
                (''to_phone must be +52 and 10 digits, got '' @ quoteForLog (null_str (n_to_phone r)))
                (st b)\<rparr>
          else lookup_and_send w r (null_str (n_to_phone r)) b)"

definition too_soon :: "bridge \<Rightarrow> bool" where
  "too_soon b \<longleftrightarrow> (case last_lookup b of None \<Rightarrow> False | Some t \<Rightarrow> wall b - t < newChatMinGap)"

definition processNewChats :: "wa \<Rightarrow> bridge \<Rightarrow> bridge" where
  "processNewChats w b =
     (if FeatureOff featureNewChat (st b) then b
      else if too_soon b then b
      else
        (case Fallback featureNewChat queryResolveOutbound None None (st b) of
           (Inl _, s1) \<Rightarrow> b\<lparr>st := s1\<rparr>
         | (Inr None, s1) \<Rightarrow> b\<lparr>st := s1\<rparr>
         | (Inr (Some r), s1) \<Rightarrow> sendNewChatRow w r (b\<lparr>st := s1\<rparr>)))"

section \<open>The contract of the store\<close>

lemma storeRetry_upsert: "evolves s (snd (storeRetry (UpsertChat c) s))"
  unfolding storeRetry_def by (rule upsert_op.retry_evolves)

lemma storeRetry_insert: "evolves s (snd (storeRetry (InsertMessage m) s))"
  unfolding storeRetry_def by (rule insert_op.retry_evolves)

lemma storeRetry_sent: "evolves s (snd (storeRetry (MarkNewChatSent oid i) s))"
  unfolding storeRetry_def by (rule sent_op.retry_evolves)

lemma storeRetry_set_chat: "evolves s (snd (storeRetry (SetOutboundChat oid j) s))"
  unfolding storeRetry_def by (rule set_chat_op.retry_evolves)

lemma evolves_emit [simp]: "evolves s (emit e s)"
  by (auto simp: evolves_def tables_ok_def emit_def)

lemma evolves_finish_writes: "evolves s (finish_writes oid w s)"
proof -
  obtain x s1 where u: "storeRetry (UpsertChat (w_chat w)) s = (x, s1)" by (rule prod.exhaust)
  have "evolves s s1" using storeRetry_upsert [of s "w_chat w"] u by simp
  moreover have "evolves s1 (snd (storeRetry (SetOutboundChat oid (ch_jid (w_chat w)))
      (snd (storeRetry (InsertMessage (w_msg w)) s1))))"
    using storeRetry_insert storeRetry_set_chat by (rule evolves_trans)
  ultimately show ?thesis by (cases x) (auto simp: finish_writes_def u intro: evolves_trans)
qed

lemma evolves_finishNewChat: "evolves (st b) (st (finishNewChat oid w b))"
proof -
  obtain x s1 where u: "storeRetry (MarkNewChatSent oid (w_wa_id w)) (st b) = (x, s1)"
    by (rule prod.exhaust)
  have "evolves (st b) s1" using storeRetry_sent [of "st b" oid "w_wa_id w"] u by simp
  then show ?thesis
    using evolves_finish_writes [of s1 oid w]
    by (cases x) (auto simp: finishNewChat_def u intro: evolves_trans)
qed

lemma evolves_send_claimed: "evolves (st b) (st (send_claimed w target hit r waID b))"
proof -
  let ?s1 = "emit (WaSend (n_id r) (jid_string w target) waID) (st b)"
  have f: "evolves ?s1 (st (finishNewChat oid wr (b\<lparr>st := ?s1, sent_map := m\<rparr>)))" for oid wr m
    using evolves_finishNewChat [of "b\<lparr>st := ?s1, sent_map := m\<rparr>" oid wr] by simp
  show ?thesis
    using evolves_trans [OF evolves_emit f] evolves_trans [OF evolves_emit evolves_markAttempt]
    by (auto simp: send_claimed_def Let_def split: sum.split)
qed

lemma evolves_claim_and_send: "evolves (st b) (st (claim_and_send w target hit r b))"
proof -
  obtain x s1 where c: "ClaimNewChatMessageID (n_id r) (new_message_id w (trace (st b))) (st b) = (x, s1)"
    by (rule prod.exhaust)
  have "evolves (st b) s1" using evolves_Claim [of "st b"] c by (metis snd_conv)
  moreover have "evolves s1 (st (send_claimed w target hit r i (b\<lparr>st := s1\<rparr>)))" for i
    using evolves_send_claimed [of "b\<lparr>st := s1\<rparr>"] by simp
  ultimately show ?thesis
    by (cases x)
      (auto simp: claim_and_send_def c Let_def intro: evolves_trans evolves_send_claimed)
qed

lemma evolves_failNewChat: "evolves s (failNewChat oid c d s)"
  by (simp add: failNewChat_def evolves_FailOutbound)

lemma evolves_lookup_and_send: "evolves (st b) (st (lookup_and_send w r phone b))"
proof -
  let ?s = "emit (WaLookup (n_id r) phone) (st b)"
  let ?b1 = "b\<lparr>last_lookup := Some (wall b), st := ?s\<rparr>"
  have c: "evolves ?s (st (claim_and_send w t hit r ?b1))" for t hit
    using evolves_claim_and_send [of ?b1] by simp
  show ?thesis
    using evolves_trans [OF evolves_emit c] evolves_trans [OF evolves_emit evolves_markAttempt]
      evolves_trans [OF evolves_emit evolves_failNewChat]
    by (auto simp: lookup_and_send_def Let_def split: prod.split list.split option.split)
qed

lemma evolves_sendNewChatRow: "evolves (st b) (st (sendNewChatRow w r b))"
  by (auto simp: sendNewChatRow_def evolves_finishNewChat evolves_failNewChat
      evolves_lookup_and_send split: option.split)

lemma evolves_queryResolve:
  "evolves s (snd (Fallback featureNewChat queryResolveOutbound None None s))"
  by (auto simp: queryResolveOutbound_def intro!: evolves_Fallback)

lemma evolves_processNewChats: "evolves (st b) (st (processNewChats w b))"
proof -
  obtain x s1 where q: "Fallback featureNewChat queryResolveOutbound None None (st b) = (x, s1)"
    by (rule prod.exhaust)
  have e: "evolves (st b) s1" using evolves_queryResolve [of "st b"] q by simp
  have "evolves s1 (st (sendNewChatRow w r (b\<lparr>st := s1\<rparr>)))" for r
    using evolves_sendNewChatRow [of "b\<lparr>st := s1\<rparr>"] by simp
  then show ?thesis
    using e by (auto simp: processNewChats_def q split: sum.split option.split intro: evolves_trans)
qed

section \<open>A concrete bridge\<close>

text \<open>
  A WhatsApp on which every number has an account and every send succeeds, and a bridge
  with one queued first message.
\<close>

definition plain_jid :: "string \<Rightarrow> server \<Rightarrow> jid" where
  "plain_jid u sv = \<lparr>j_user = u, j_server = sv, j_device = 0\<rparr>"

definition sample_wa :: wa where
  "sample_wa =
     \<lparr>remote_path = ''/srv/wa_media'', public_base_url = ''https://x/wa_media'',
      sha256_hex = (\<lambda>d. ''5f'' @ decimal (length d)), mime_extensions = (\<lambda>_. []), parse_authority = Some,
      unicode_lower = (\<lambda>k. k), image_size = (\<lambda>_. Inr (400, 100)), scale_jpeg = (\<lambda>_ _ _. Inr ''jpg''),
      temp_dir = (\<lambda>_. Inr ()), temp_pdf = (\<lambda>_. Inr ()),
      pdfinfo = (\<lambda>_. Inl (ErrText ''none'')), pdftoppm = (\<lambda>_. Inl (ErrText ''none'', '''')),
      jid_string = (\<lambda>j. j_user j), parse_jid = (\<lambda>s. Inr (plain_jid s DefaultUserServer)),
      to_non_ad = (\<lambda>j. j\<lparr>j_device := 0\<rparr>), is_empty = (\<lambda>j. j_server j = OtherServer ''''),
      empty_jid = plain_jid '''' (OtherServer ''''), own_jid = Some (plain_jid ''me'' DefaultUserServer),
      own_lid_ad = plain_jid ''melid'' HiddenUserServer,
      lid_for_pn = (\<lambda>_ _. Inl (ErrText ''no lid'')), pn_for_lid = (\<lambda>_ _. Inl (ErrText ''no pn'')),
      get_contact = (\<lambda>_ _. Inl (ErrText ''none'')),
      on_whatsapp = (\<lambda>_ p. ([\<lparr>hit_query = p, hit_jid = plain_jid (drop 1 p) DefaultUserServer, hit_is_in = True,
         hit_phone = plain_jid (drop 1 p) DefaultUserServer, hit_verified = None\<rparr>], None)),
      new_message_id = (\<lambda>_. ''W1''),
      send_text = (\<lambda>_ _ _ i. Inr \<lparr>resp_id = i, resp_timestamp = 500\<rparr>),
      send_message = (\<lambda>_ _ _. Inr \<lparr>resp_id = ''W9'', resp_timestamp = 500\<rparr>),
      build_reaction = (\<lambda>_ _ i e. Msg [ReactionField \<lparr>rm_key_id = Some i, rm_text = Some e\<rparr>]),
      decrypt_secret = (\<lambda>_ _. Inl (ErrText ''no secret'')),
      decrypt_reaction = (\<lambda>_ _. Inl (ErrText ''no secret'')),
      download = (\<lambda>_ _. Inr ''bytes''),
      upload_media = (\<lambda>_ d _. Inr \<lparr>up_url = ''u'', up_direct_path = ''p'', up_media_key = ''k'',
        up_file_enc_sha256 = ''e'', up_file_sha256 = ''s'', up_file_length = length d\<rparr>),
      profile_picture = (\<lambda>_ _. Inr None), connect = (\<lambda>_. Inr ()), is_connected = (\<lambda>_. True)\<rparr>"

definition queued_row :: outbound_row where
  "queued_row = (sample_outbound 7 ''resolve'')
     \<lparr>o_to_phone := Some ''+525512345678'', o_kind := Some ''text''\<rparr>"

definition sample_uploader :: uploader where
  "sample_uploader =
     \<lparr>ensured_ok = False, remote_files = (\<lambda>_. None), sftp_replies = []\<rparr>"

definition sample_bridge :: bridge where
  "sample_bridge =
     \<lparr>st = sample_store\<lparr>wa_outbound := [queued_row]\<rparr>, files = sample_uploader, last_lookup = None,
      sent_map = (\<lambda>_. None), wall = 0, fatal = None, disconnected_since = None,
      online_loops = 0\<rparr>"

end
