(* ===== verification/Inbound.thy ===== *)
theory Inbound
  imports Messages NewChat
begin

text \<open>
  The event handlers of \<open>internal/wabridge/wabridge.go\<close>: a live message (an edit, a delete, a
  reaction or a row of its own), typing, receipts, and the history that arrives after pairing.
  A handler is one step of the model; the lookups it makes in whatsmeow's local tables between
  two statements see the same trace.
\<close>

section \<open>Every form of an address\<close>

text \<open>The closure \<open>add\<close> of \<open>chatAliases\<close> and \<open>senderAliases\<close>.\<close>

definition add_alias :: "wa \<Rightarrow> jid \<Rightarrow> string list \<Rightarrow> string list" where
  "add_alias w j out =
     (if is_empty w j \<or> j_user j = '''' \<or> jid_string w j \<in> set out then out
      else out @ [jid_string w j])"

definition chatAliases :: "wa \<Rightarrow> event list \<Rightarrow> jid \<Rightarrow> jid \<Rightarrow> string list" where
  "chatAliases w h raw canonical =
     add_alias w (resolvePNForLID w h raw)
       (add_alias w (resolvePNForLID w h canonical)
         (add_alias w raw [jid_string w canonical]))"

definition senderAliases :: "wa \<Rightarrow> event list \<Rightarrow> jid \<Rightarrow> string list" where
  "senderAliases w h sender =
     (if is_empty w sender then []
      else
        (let base = to_non_ad w sender;
             out = add_alias w sender [jid_string w base]
         in if j_server base = HiddenUserServer then add_alias w (resolvePNForLID w h base) out
            else if j_server base = DefaultUserServer then
              (case lid_for_pn w h base of Inl _ \<Rightarrow> out | Inr lid \<Rightarrow> add_alias w lid out)
            else out))"

section \<open>Names, phones and pictures\<close>

definition resolveDisplayName :: "wa \<Rightarrow> event list \<Rightarrow> message_info \<Rightarrow> string option" where
  "resolveDisplayName w h i =
     (let pn = resolvePNForLID w h (i_chat i)
      in if \<not> i_is_group i \<and> contactNameForJID w h (i_chat i) \<noteq> ''''
           then nullString (contactNameForJID w h (i_chat i))
         else if \<not> i_is_group i \<and> \<not> is_empty w pn \<and> contactNameForJID w h pn \<noteq> ''''
           then nullString (contactNameForJID w h pn)
         else if \<not> i_is_from_me i then nullString (trim_space (i_push_name i))
         else None)"

definition resolveDisplayNameForJID :: "wa \<Rightarrow> event list \<Rightarrow> jid \<Rightarrow> string \<Rightarrow> string option" where
  "resolveDisplayNameForJID w h j convName =
     (let pn = resolvePNForLID w h j
      in if trim_space convName \<noteq> '''' then nullString (trim_space convName)
         else if j_server j = GroupServer then None
         else if contactNameForJID w h j \<noteq> '''' then nullString (contactNameForJID w h j)
         else if \<not> is_empty w pn \<and> contactNameForJID w h pn \<noteq> ''''
           then nullString (contactNameForJID w h pn)
         else None)"

definition resolvePhone :: "wa \<Rightarrow> event list \<Rightarrow> jid \<Rightarrow> string option" where
  "resolvePhone w h chat =
     (let pn = resolvePNForLID w h chat
      in if j_server chat = DefaultUserServer \<and> j_user chat \<noteq> '''' then nullString (''+'' @ j_user chat)
         else if j_server chat = HiddenUserServer \<and> \<not> is_empty w pn \<and> j_user pn \<noteq> ''''
           then nullString (''+'' @ j_user pn)
         else None)"

definition fetchProfilePicURL :: "wa \<Rightarrow> event list \<Rightarrow> jid \<Rightarrow> string option" where
  "fetchProfilePicURL w h j =
     (case profile_picture w h j of
        Inl _ \<Rightarrow> None | Inr None \<Rightarrow> None | Inr (Some url) \<Rightarrow> nullString url)"

section \<open>The media of an incoming message\<close>

definition uploadLocationPreview ::
  "wa \<Rightarrow> media_descriptor option \<Rightarrow> uploader \<Rightarrow> string option \<times> uploader" where
  "uploadLocationPreview w m u =
     (case m of
        None \<Rightarrow> (None, u)
      | Some d \<Rightarrow>
          if md_downloadable d \<noteq> None \<or> md_embedded_thumbnail d = '''' then (None, u)
          else
            (case UploadThumbnail w (sha256_hex w (md_embedded_thumbnail d)) (md_embedded_thumbnail d) u of
               (Inl _, u1) \<Rightarrow> (None, u1)
             | (Inr turl, u1) \<Rightarrow> (nullString turl, u1)))"

text \<open>The empty string is \<open>nil\<close>.\<close>

definition deriveInboundThumbnail ::
  "wa \<Rightarrow> string \<Rightarrow> media_descriptor option \<Rightarrow> string \<Rightarrow> string res" where
  "deriveInboundThumbnail w msgType m data =
     (case m of
        None \<Rightarrow> Inr ''''
      | Some d \<Rightarrow>
          if md_embedded_thumbnail d \<noteq> '''' then Inr (md_embedded_thumbnail d)
          else if msgType = ''document'' \<and> contains (md_mime d) ''pdf'' then
            (case ExtractPDFPreview w data of
               (_, Some e) \<Rightarrow> Inl e | (prev, None) \<Rightarrow> Inr (pv_thumbnail prev))
          else Inr '''')"

record inbound_media =
  im_url :: "string option"
  im_mime :: "string option"
  im_size :: "int option"
  im_name :: "string option"
  im_sha256 :: "string option"
  im_thumb_url :: "string option"

definition no_inbound_media :: inbound_media where
  "no_inbound_media = \<lparr>im_url = None, im_mime = None, im_size = None, im_name = None,
     im_sha256 = None, im_thumb_url = None\<rparr>"

definition store_thumbnail ::
  "wa \<Rightarrow> string \<Rightarrow> media_descriptor \<Rightarrow> string \<Rightarrow> string \<Rightarrow> uploader \<Rightarrow> string option \<times> uploader" where
  "store_thumbnail w msgType d data sha u =
     (case deriveInboundThumbnail w msgType (Some d) data of
        Inl _ \<Rightarrow> (None, u)
      | Inr thumb \<Rightarrow>
          if thumb = '''' then (None, u)
          else
            (case UploadThumbnail w sha thumb u of
               (Inl _, u1) \<Rightarrow> (None, u1) | (Inr turl, u1) \<Rightarrow> (nullString turl, u1)))"

text \<open>Download, upload and thumbnail: each step that fails leaves the columns after it NULL.\<close>

definition receive_media ::
  "wa \<Rightarrow> event list \<Rightarrow> string \<Rightarrow> media_descriptor option \<Rightarrow> uploader \<Rightarrow> inbound_media \<times> uploader" where
  "receive_media w h msgType m u =
     (case m of
        None \<Rightarrow> (no_inbound_media, u)
      | Some d \<Rightarrow>
          (case md_downloadable d of
             None \<Rightarrow>
               (case uploadLocationPreview w m u of
                  (t, u1) \<Rightarrow> (no_inbound_media\<lparr>im_thumb_url := t\<rparr>, u1))
           | Some c \<Rightarrow>
               (case download w h c of
                  Inl _ \<Rightarrow> (no_inbound_media, u)
                | Inr data \<Rightarrow>
                    (case Upload w data (md_mime d) (md_filename d) u of
                       (Inl _, u1) \<Rightarrow> (no_inbound_media, u1)
                     | (Inr (url, sha), u1) \<Rightarrow>
                         (case store_thumbnail w msgType d data sha u1 of
                            (t, u2) \<Rightarrow>
                              (\<lparr>im_url = nullString url, im_mime = nullString (md_mime d),
                                im_size = Some (int (length data)), im_name = nullString (md_filename d),
                                im_sha256 = nullString sha, im_thumb_url = t\<rparr>, u2))))))"

section \<open>Edits and deletes\<close>

text \<open>\<open>tailPreview\<close>: the label of a recomputed chat tail.\<close>

definition tailPreview :: "tail_row \<Rightarrow> string" where
  "tailPreview t =
     (if tl_revoked t then ''Mensaje eliminado''
      else previewFor (tl_message_type t) (null_str (tl_body t))
        (if tl_media_filename t \<noteq> None \<or> tl_location_name t \<noteq> None
         then Some (no_media\<lparr>md_filename := null_str (tl_media_filename t),
                             md_location_name := null_str (tl_location_name t)\<rparr>)
         else None))"

definition recomputeTail :: "string \<Rightarrow> store \<Rightarrow> store" where
  "recomputeTail chatJID s = snd (storeRetry (RecomputeChatTail chatJID tailPreview) s)"

definition edit_as_row :: "wa \<Rightarrow> message_info \<Rightarrow> string \<Rightarrow> string \<Rightarrow> message" where
  "edit_as_row w i chatJID body = empty_message
     \<lparr>m_id := i_id i, m_chat_jid := chatJID, m_sender_jid := nullString (jid_string w (i_sender i)),
      m_from_me := i_is_from_me i, m_message_type := ''text'', m_body := nullString body,
      m_timestamp := i_timestamp i, m_status := Some (defaultStatus (i_is_from_me i))\<rparr>"

definition storeEditAsRow :: "wa \<Rightarrow> message_info \<Rightarrow> string \<Rightarrow> string \<Rightarrow> store \<Rightarrow> store" where
  "storeEditAsRow w i chatJID body s =
     (case storeRetry (InsertMessage (edit_as_row w i chatJID body)) s of
        (Inl _, s1) \<Rightarrow> s1
      | (Inr _, s1) \<Rightarrow> recomputeTail chatJID s1)"

definition located_err :: "message_ref \<times> bool \<times> go_error option \<Rightarrow> go_error option" where
  "located_err r = snd (snd r)"

text \<open>
  \<open>storeRetry\<close> around \<open>ApplyEdit\<close> and \<open>RevokeMessage\<close>: \<open>ref\<close> and \<open>found\<close> keep what the last
  attempt assigned.
\<close>

definition retry_located ::
  "(store \<Rightarrow> (message_ref \<times> bool \<times> go_error option) \<times> store) \<Rightarrow> store
   \<Rightarrow> (message_ref \<times> bool \<times> go_error option) \<times> store" where
  "retry_located run s = retry located_err run retryDelays (no_ref, False, None) s"

definition apply_edit :: "wa \<Rightarrow> message_info \<Rightarrow> string list \<Rightarrow> string \<Rightarrow> msg \<Rightarrow> store \<Rightarrow> store" where
  "apply_edit w i chats targetID edited s =
     (let body = fst (snd (classifyMessage (Some edited)))
      in case retry_located (ApplyEdit chats targetID (i_is_from_me i) (nullString body)) s of
           ((ref, found, err), s1) \<Rightarrow>
             (case err of
                Some e \<Rightarrow>
                  if errors_is e ErrNotAuthor then s1
                  else if errors_is e ErrEditsUnsupported
                    then storeEditAsRow w i (ref_chat_jid ref) body s1
                  else s1
              | None \<Rightarrow> if \<not> found then s1 else recomputeTail (ref_chat_jid ref) s1))"

definition apply_revoke :: "message_info \<Rightarrow> string list \<Rightarrow> string \<Rightarrow> store \<Rightarrow> bool \<times> store" where
  "apply_revoke i chats targetID s =
     (case retry_located (RevokeMessage chats targetID (i_is_from_me i) (i_is_group i)) s of
        ((ref, found, err), s1) \<Rightarrow>
          (case err of
             Some e \<Rightarrow> (errors_is e ErrNotAuthor, s1)
           | None \<Rightarrow> if \<not> found then (False, s1) else (True, recomputeTail (ref_chat_jid ref) s1)))"

definition applyProtocolAction ::
  "wa \<Rightarrow> message_info \<Rightarrow> string list \<Rightarrow> proto_action \<Rightarrow> store \<Rightarrow> bool \<times> store" where
  "applyProtocolAction w i chats act s =
     (case act of
        ActionDrop _ \<Rightarrow> (True, s)
      | ActionEdit targetID edited \<Rightarrow> (True, apply_edit w i chats targetID edited s)
      | ActionRevoke targetID \<Rightarrow> apply_revoke i chats targetID s
      | ActionNone \<Rightarrow> (False, s))"

section \<open>Reactions\<close>

definition storeReaction ::
  "wa \<Rightarrow> message_info \<Rightarrow> string list \<Rightarrow> reaction_message \<Rightarrow> store \<Rightarrow> store" where
  "storeReaction w i chats rm s =
     (if null_str (rm_key_id rm) = '''' then s
      else
        (let rec = reactionRecord w i (hd chats) rm;
             (chat, s1) =
               (if 1 < length chats then
                  (case LocateMessage (r_target_id rec) chats s of
                     ((ref, found, err), s1) \<Rightarrow>
                       (if err = None \<and> found then ref_chat_jid ref else r_chat_jid rec, s1))
                else (r_chat_jid rec, s))
         in snd (UpsertReaction
              (rec\<lparr>r_chat_jid := chat, r_sender_aliases := senderAliases w (trace s1) (i_sender i)\<rparr>) s1)))"

section \<open>A live message\<close>

definition chat_of_message ::
  "wa \<Rightarrow> event list \<Rightarrow> message_info \<Rightarrow> jid \<Rightarrow> string \<Rightarrow> chat" where
  "chat_of_message w h i canonical preview =
     \<lparr>ch_jid = jid_string w canonical, ch_display_name = resolveDisplayName w h i,
      ch_phone_e164 = resolvePhone w h (i_chat i), ch_is_group = i_is_group i,
      ch_profile_pic_url = fetchProfilePicURL w h canonical,
      ch_last_message_at = Some (i_timestamp i), ch_last_message_preview = nullString preview,
      ch_last_message_from_me = i_is_from_me i, ch_increment_unread = (\<not> i_is_from_me i)\<rparr>"

definition row_of_message ::
  "message_info \<Rightarrow> string \<Rightarrow> string \<Rightarrow> classified \<Rightarrow> quote_info \<Rightarrow> inbound_media \<Rightarrow> message" where
  "row_of_message i sender chatJID c q im =
     (case c of (msgType, body, m) \<Rightarrow>
       \<lparr>m_id = i_id i, m_chat_jid = chatJID, m_sender_jid = nullString sender,
        m_from_me = i_is_from_me i, m_message_type = msgType, m_body = nullString body,
        m_media_url = im_url im, m_media_mime = im_mime im, m_media_size = im_size im,
        m_media_filename = im_name im, m_media_sha256 = im_sha256 im,
        m_media_thumbnail_url = im_thumb_url im, m_quoted_message_id = qi_message_id q,
        m_quoted_preview = qi_preview q, m_quoted_sender_jid = qi_sender_jid q,
        m_target_message_id = None, m_client_request_id = None,
        m_location_name = fst (locationFields m), m_location_address = snd (locationFields m),
        m_timestamp = i_timestamp i, m_status = Some (defaultStatus (i_is_from_me i))\<rparr>)"

text \<open>The last part of \<open>handleMessage\<close>: media, the chat row, the message row.\<close>

definition store_message ::
  "wa \<Rightarrow> message_event \<Rightarrow> jid \<Rightarrow> classified \<Rightarrow> bridge \<Rightarrow> bridge" where
  "store_message w evt canonical c b =
     (let i = ev_info evt; h = trace (st b);
          quote = quoteFromContext (contextInfoOf (ev_message evt))
      in case c of (msgType, body, m) \<Rightarrow>
        (case receive_media w h msgType m (files b) of
           (im, u1) \<Rightarrow>
             (case UpsertChat (chat_of_message w h i canonical (previewFor msgType body m)) (st b) of
                (Inl _, s1) \<Rightarrow> b\<lparr>files := u1, st := s1\<rparr>
              | (Inr _, s1) \<Rightarrow>
                  b\<lparr>files := u1,
                    st := snd (InsertMessage (row_of_message i (jid_string w (i_sender i))
                            (jid_string w canonical) c quote im) s1)\<rparr>)))"

definition handleMessage :: "wa \<Rightarrow> message_event \<Rightarrow> bridge \<Rightarrow> bridge" where
  "handleMessage w evt b =
     (let i = ev_info evt; h = trace (st b);
          canonical = canonicalChatJID w h (i_chat i);
          chats = chatAliases w h (i_chat i) canonical
      in if isSkippedChat (i_chat i) then b
         else
           (case applyProtocolAction w i chats (resolveAction evt (Some (decrypt_secret w h))) (st b) of
              (True, s1) \<Rightarrow> b\<lparr>st := s1\<rparr>
            | (False, s1) \<Rightarrow>
                (case reactionOf evt (Some (decrypt_reaction w (trace s1))) of
                   Some (Inl _) \<Rightarrow> b\<lparr>st := s1\<rparr>
                 | Some (Inr None) \<Rightarrow> b\<lparr>st := s1\<rparr>
                 | Some (Inr (Some rm)) \<Rightarrow> b\<lparr>st := storeReaction w i chats rm s1\<rparr>
                 | None \<Rightarrow>
                     (let c = classifyMessage (ev_message evt)
                      in if fst c = ''system'' then b\<lparr>st := s1\<rparr>
                         else store_message w evt canonical c (b\<lparr>st := s1\<rparr>)))))"

section \<open>Typing and receipts\<close>

text \<open>\<open>events.ChatPresence\<close>; the state is composing or another.\<close>

definition composingTTL :: int where
  "composingTTL = 15 * second"

definition handleChatPresence :: "wa \<Rightarrow> jid \<Rightarrow> string \<Rightarrow> bridge \<Rightarrow> bridge" where
  "handleChatPresence w chat state b =
     (let chatJID = jid_string w (canonicalChatJID w (trace (st b)) chat)
      in if state = ''composing''
         then b\<lparr>st := snd (SetPeerTyping chatJID (Some (wall b + composingTTL)) (st b))\<rparr>
         else b\<lparr>st := snd (SetPeerTyping chatJID None (st b))\<rparr>)"

datatype receipt_type =
    ReceiptDelivered
  | ReceiptRead
  | ReceiptReadSelf
  | ReceiptPlayed
  | OtherReceipt string

record receipt =
  rc_chat :: jid
  rc_is_from_me :: bool
  rc_type :: receipt_type
  rc_message_ids :: "string list"

definition isSelfRead :: "receipt \<Rightarrow> bool" where
  "isSelfRead r \<longleftrightarrow> rc_is_from_me r \<and> (rc_type r = ReceiptRead \<or> rc_type r = ReceiptReadSelf)"

definition receipt_status :: "receipt_type \<Rightarrow> string option" where
  "receipt_status t =
     (case t of
        ReceiptRead \<Rightarrow> Some ''read'' | ReceiptReadSelf \<Rightarrow> Some ''read''
      | ReceiptPlayed \<Rightarrow> Some ''read'' | ReceiptDelivered \<Rightarrow> Some ''delivered''
      | OtherReceipt _ \<Rightarrow> None)"

definition handleReceipt :: "wa \<Rightarrow> receipt \<Rightarrow> bridge \<Rightarrow> bridge" where
  "handleReceipt w r b =
     (if rc_message_ids r = [] then b
      else if isSelfRead r then
        b\<lparr>st := snd (ClearUnreadUpTo (jid_string w (canonicalChatJID w (trace (st b)) (rc_chat r)))
                      (rc_message_ids r) (st b))\<rparr>
      else
        (case receipt_status (rc_type r) of
           None \<Rightarrow> b
         | Some newStatus \<Rightarrow>
             b\<lparr>st := snd (MarkMessagesStatus (rc_message_ids r) newStatus (st b))\<rparr>))"

section \<open>History\<close>

text \<open>
  A conversation of a history sync. Each message is what \<open>ParseWebMessage\<close> makes of it,
  \<open>None\<close> when it is nil or cannot be parsed.
\<close>

record conversation =
  cv_id :: string
  cv_name :: string
  cv_messages :: "message_event option list"

text \<open>One message of a conversation; the answer tells whether it counts as inserted.\<close>

definition history_row ::
  "wa \<Rightarrow> message_info \<Rightarrow> string \<Rightarrow> classified \<Rightarrow> quote_info \<Rightarrow> string option \<Rightarrow> message" where
  "history_row w i chatJID c q thumb =
     (let m = snd (snd c)
      in (row_of_message i (jid_string w (i_sender i)) chatJID c q no_inbound_media)
           \<lparr>m_media_mime := (case m of None \<Rightarrow> None | Some d \<Rightarrow> nullString (md_mime d)),
            m_media_filename := (case m of None \<Rightarrow> None | Some d \<Rightarrow> nullString (md_filename d)),
            m_media_thumbnail_url := thumb\<rparr>)"

definition history_store ::
  "wa \<Rightarrow> string \<Rightarrow> message_event \<Rightarrow> bridge \<Rightarrow> bool \<times> bridge" where
  "history_store w chatJID evt b =
     (let i = ev_info evt; c = classifyMessage (ev_message evt)
      in if fst c = ''system'' then (False, b)
         else if fst c = ''reaction'' then
           (case reactionOf evt None of
              Some (Inr (Some rm)) \<Rightarrow>
                (False, b\<lparr>st := snd (UpsertReaction ((reactionRecord w i chatJID rm)
                   \<lparr>r_sender_aliases := senderAliases w (trace (st b)) (i_sender i)\<rparr>) (st b))\<rparr>)
            | _ \<Rightarrow> (False, b))
         else
           (case uploadLocationPreview w (snd (snd c)) (files b) of
              (thumb, u1) \<Rightarrow>
                (case InsertMessage (history_row w i chatJID c
                        (quoteFromContext (contextInfoOf (ev_message evt))) thumb) (st b) of
                   (Inl _, s1) \<Rightarrow> (False, b\<lparr>files := u1, st := s1\<rparr>)
                 | (Inr _, s1) \<Rightarrow> (True, b\<lparr>files := u1, st := s1\<rparr>))))"

definition history_message ::
  "wa \<Rightarrow> string \<Rightarrow> string list \<Rightarrow> bool \<Rightarrow> message_event option \<Rightarrow> bridge \<Rightarrow> bool \<times> bridge" where
  "history_message w chatJID chats isGroup parsed b =
     (case parsed of
        None \<Rightarrow> (False, b)
      | Some evt \<Rightarrow>
          (case resolveAction evt None of
             ActionRevoke targetID \<Rightarrow>
               (case RevokeMessage chats targetID (i_is_from_me (ev_info evt)) isGroup (st b) of
                  ((ref, found, err), s1) \<Rightarrow>
                    if (case err of Some e \<Rightarrow> errors_is e ErrNotAuthor | None \<Rightarrow> found)
                    then (False, b\<lparr>st := s1\<rparr>)
                    else history_store w chatJID evt (b\<lparr>st := s1\<rparr>))
           | _ \<Rightarrow> history_store w chatJID evt b))"

fun history_messages ::
  "wa \<Rightarrow> string \<Rightarrow> string list \<Rightarrow> bool \<Rightarrow> message_event option list \<Rightarrow> bridge \<Rightarrow> nat \<times> bridge" where
  "history_messages w chatJID chats isGroup [] b = (0, b)"
| "history_messages w chatJID chats isGroup (p # ps) b =
     (case history_message w chatJID chats isGroup p b of
        (ins, b1) \<Rightarrow>
          (case history_messages w chatJID chats isGroup ps b1 of
             (n, b2) \<Rightarrow> ((if ins then Suc n else n), b2)))"

definition chat_of_conversation :: "wa \<Rightarrow> event list \<Rightarrow> jid \<Rightarrow> string \<Rightarrow> chat" where
  "chat_of_conversation w h j name =
     \<lparr>ch_jid = jid_string w j, ch_display_name = resolveDisplayNameForJID w h j name,
      ch_phone_e164 = resolvePhone w h j, ch_is_group = (j_server j = GroupServer),
      ch_profile_pic_url = None, ch_last_message_at = None, ch_last_message_preview = None,
      ch_last_message_from_me = False, ch_increment_unread = False\<rparr>"

definition history_conversation :: "wa \<Rightarrow> conversation \<Rightarrow> bridge \<Rightarrow> bridge" where
  "history_conversation w cv b =
     (case parse_jid w (cv_id cv) of
        Inl _ \<Rightarrow> b
      | Inr raw \<Rightarrow>
          if isSkippedChat raw then b
          else
            (let h = trace (st b); j = canonicalChatJID w h raw; chatJID = jid_string w j
             in case UpsertChat (chat_of_conversation w h j (cv_name cv)) (st b) of
                  (Inl _, s1) \<Rightarrow> b\<lparr>st := s1\<rparr>
                | (Inr _, s1) \<Rightarrow>
                    (case history_messages w chatJID (chatAliases w h raw j)
                            (j_server j = GroupServer) (cv_messages cv) (b\<lparr>st := s1\<rparr>) of
                       (n, b2) \<Rightarrow>
                         if 0 < n then b2\<lparr>st := snd (RecomputeChatTail chatJID tailPreview (st b2))\<rparr>
                         else b2)))"

text \<open>\<open>n\<close> conversations are begun before the ten minutes are over.\<close>

definition handleHistorySync :: "wa \<Rightarrow> nat \<Rightarrow> conversation list \<Rightarrow> bridge \<Rightarrow> bridge" where
  "handleHistorySync w n convs b = foldl (\<lambda>b cv. history_conversation w cv b) b (take n convs)"

end
