(* ===== verification/CheckNumber.thy ===== *)
theory CheckNumber
  imports Inbound
begin

text \<open>
  \<open>internal/wabridge/checknumber.go\<close>: the command line asks the running bridge whether a phone
  has WhatsApp, through a request file and a result file next to \<open>config.yaml\<close>. The files'
  JSON (\<open>encoding/json\<close>) and the quoting of \<open>%q\<close> are arguments; what is written in a file is
  its text.
\<close>

section \<open>The phone\<close>

definition checkPhone :: "string \<Rightarrow> bool" where
  "checkPhone s \<longleftrightarrow>
     take 1 s = ''+'' \<and> 9 \<le> length s \<and> length s \<le> 16 \<and> list_all is_digit (drop 1 s)"

definition NormalizeCheckPhone :: "(string \<Rightarrow> string) \<Rightarrow> string \<Rightarrow> string res" where
  "NormalizeCheckPhone quoted raw =
     (let s = filter (\<lambda>c. c \<notin> set '' -()'') (trim_space raw);
          s = (if has_prefix s ''+'' then s else ''+'' @ s)
      in if checkPhone s then Inr s
         else Inl (ErrText (''phone '' @ quoted raw @
           '': want international form, e.g. +525512345678 or +5215512345678'')))"

section \<open>One lookup\<close>

record check_request =
  cq_id :: string
  cq_phone :: string

record check_result =
  cr_id :: string
  cr_phone :: string
  cr_error :: string
  cr_is_in :: bool
  cr_query :: string
  cr_jid :: string
  cr_phone_number :: string
  cr_verified_name :: string
  cr_store_jid :: string

definition empty_result :: check_result where
  "empty_result =
     \<lparr>cr_id = '''', cr_phone = '''', cr_error = '''', cr_is_in = False, cr_query = '''', cr_jid = '''',
      cr_phone_number = '''', cr_verified_name = '''', cr_store_jid = ''''\<rparr>"

definition store_jid_of :: "wa \<Rightarrow> event list \<Rightarrow> lookup_hit \<Rightarrow> string" where
  "store_jid_of w h hit =
     (if hit_is_in hit \<and> j_user (hit_jid hit) \<noteq> ''''
      then jid_string w (if j_server (hit_jid hit) = DefaultUserServer
                         then canonicalChatJID w h (hit_jid hit) else hit_jid hit)
      else '''')"

definition hit_result :: "wa \<Rightarrow> event list \<Rightarrow> lookup_hit \<Rightarrow> check_result \<Rightarrow> check_result" where
  "hit_result w h hit res = res
     \<lparr>cr_is_in := hit_is_in hit, cr_query := hit_query hit,
      cr_jid := (if is_empty w (hit_jid hit) then '''' else jid_string w (hit_jid hit)),
      cr_phone_number := (if is_empty w (hit_phone hit) then '''' else jid_string w (hit_phone hit)),
      cr_verified_name := null_str (hit_verified hit), cr_store_jid := store_jid_of w h hit\<rparr>"

definition checkNumber ::
  "(string \<Rightarrow> string) \<Rightarrow> wa \<Rightarrow> check_request \<Rightarrow> store \<Rightarrow> check_result \<times> store" where
  "checkNumber quoted w req s =
     (let res = empty_result\<lparr>cr_id := cq_id req, cr_phone := cq_phone req\<rparr>
      in case NormalizeCheckPhone quoted (cq_phone req) of
           Inl e \<Rightarrow> (res\<lparr>cr_error := error_text e\<rparr>, s)
         | Inr phone \<Rightarrow>
             if \<not> is_connected w (trace s) then
               (res\<lparr>cr_error := ''bridge is not connected to WhatsApp''\<rparr>, s)
             else
               (let s1 = emit (WaCheck phone) s
                in case on_whatsapp w (trace s1) phone of
                     ([], Some e) \<Rightarrow> (res\<lparr>cr_error := ''lookup: '' @ error_text e\<rparr>, s1)
                   | ([], None) \<Rightarrow> (res, s1)
                   | (hit # _, err) \<Rightarrow>
                       (hit_result w (trace s1) hit
                          (case err of None \<Rightarrow> res
                           | Some e \<Rightarrow> res\<lparr>cr_error := ''lookup warning: '' @ error_text e\<rparr>), s1)))"

section \<open>The two files\<close>

text \<open>
  The directory with the two files; \<open>disk_answers\<close> says which of the next file operations
  the system refuses. \<open>writeFileAtomic\<close> writes a temporary file nobody reads and renames it.
\<close>

record check_dir =
  req_file :: "string option"
  res_file :: "string option"
  disk_answers :: "go_error option list"

definition disk_op :: "(check_dir \<Rightarrow> check_dir) \<Rightarrow> check_dir \<Rightarrow> go_error option \<times> check_dir" where
  "disk_op f d =
     (case disk_answers d of
        [] \<Rightarrow> (None, f d)
      | None # rest \<Rightarrow> (None, f (d\<lparr>disk_answers := rest\<rparr>))
      | Some e # rest \<Rightarrow> (Some e, d\<lparr>disk_answers := rest\<rparr>))"

definition read_file :: "(check_dir \<Rightarrow> string option) \<Rightarrow> check_dir \<Rightarrow> string res \<times> check_dir" where
  "read_file file d =
     (case disk_op id d of
        (Some e, d1) \<Rightarrow> (Inl e, d1)
      | (None, d1) \<Rightarrow>
          ((case file d of None \<Rightarrow> Inl (ErrText ''file does not exist'') | Some t \<Rightarrow> Inr t), d1))"

definition writeFileAtomic :: "(check_dir \<Rightarrow> check_dir) \<Rightarrow> check_dir \<Rightarrow> go_error option \<times> check_dir" where
  "writeFileAtomic put d =
     (case disk_op id d of (Some e, d1) \<Rightarrow> (Some e, d1) | (None, d1) \<Rightarrow> disk_op put d1)"

definition put_req :: "string option \<Rightarrow> check_dir \<Rightarrow> check_dir" where
  "put_req t d = d\<lparr>req_file := t\<rparr>"

definition put_res :: "string option \<Rightarrow> check_dir \<Rightarrow> check_dir" where
  "put_res t d = d\<lparr>res_file := t\<rparr>"

record codec =
  quoted_form :: "string \<Rightarrow> string"
  marshal_request :: "check_request \<Rightarrow> string"
  unmarshal_request :: "string \<Rightarrow> check_request res"
  marshal_result :: "check_result \<Rightarrow> string"
  unmarshal_result :: "string \<Rightarrow> check_result res"

text \<open>A tick of \<open>WatchCheckRequests\<close>.\<close>

definition answerCheckRequest :: "codec \<Rightarrow> wa \<Rightarrow> check_dir \<times> store \<Rightarrow> check_dir \<times> store" where
  "answerCheckRequest c w ds =
     (case ds of (d, s) \<Rightarrow>
        (case read_file req_file d of
           (Inl _, d1) \<Rightarrow> (d1, s)
         | (Inr data, d1) \<Rightarrow>
             (let d2 = snd (disk_op (put_req None) d1)
              in case (case unmarshal_request c data of
                         Inl e \<Rightarrow> (empty_result\<lparr>cr_error := ''bad request file: '' @ error_text e\<rparr>, s)
                       | Inr req \<Rightarrow> checkNumber (quoted_form c) w req s) of
                   (res, s1) \<Rightarrow>
                     (snd (writeFileAtomic (put_res (Some (marshal_result c res))) d2), s1))))"

text \<open>\<open>n\<close> ticks come before the context of the attempt ends.\<close>

definition WatchCheckRequests :: "codec \<Rightarrow> wa \<Rightarrow> nat \<Rightarrow> check_dir \<times> store \<Rightarrow> check_dir \<times> store" where
  "WatchCheckRequests c w n = (answerCheckRequest c w) ^^ n"

text \<open>
  The command line. \<open>ticks\<close> is what happens between two looks at the result file, one entry
  per look before the deadline; \<open>nonce\<close> is the random request ID.
\<close>

fun await_result ::
  "codec \<Rightarrow> string \<Rightarrow> (check_dir \<times> 's \<Rightarrow> check_dir \<times> 's) list \<Rightarrow> check_dir \<times> 's
   \<Rightarrow> check_result res \<times> check_dir \<times> 's" where
  "await_result c nonce [] (d, s) =
     (Inl (ErrText (''no answer from the bridge: it must be running (service or ''
        @ [CHR 0x60] @ ''wabridge run'' @ [CHR 0x60] @ '') and connected'')),
      snd (disk_op (put_req None) d), s)"
| "await_result c nonce (t # ts) ds =
     (case t ds of (d, s) \<Rightarrow>
        (case read_file res_file d of
           (Inl _, d1) \<Rightarrow> await_result c nonce ts (d1, s)
         | (Inr data, d1) \<Rightarrow>
             (case unmarshal_result c data of
                Inl _ \<Rightarrow> await_result c nonce ts (d1, s)
              | Inr res \<Rightarrow>
                  if cr_id res \<noteq> nonce then await_result c nonce ts (d1, s)
                  else (Inr res, snd (disk_op (put_res None) d1), s))))"

definition RequestCheckNumber ::
  "codec \<Rightarrow> string \<Rightarrow> string \<Rightarrow> (check_dir \<times> 's \<Rightarrow> check_dir \<times> 's) list \<Rightarrow> check_dir \<times> 's
   \<Rightarrow> check_result res \<times> check_dir \<times> 's" where
  "RequestCheckNumber c nonce rawPhone ticks ds =
     (case ds of (d, s) \<Rightarrow>
        (case NormalizeCheckPhone (quoted_form c) rawPhone of
           Inl e \<Rightarrow> (Inl e, d, s)
         | Inr phone \<Rightarrow>
             (let d1 = snd (disk_op (put_res None) d);
                  req = \<lparr>cq_id = nonce, cq_phone = phone\<rparr>
              in case writeFileAtomic (put_req (Some (marshal_request c req))) d1 of
                   (Some e, d2) \<Rightarrow> (Inl e, d2, s)
                 | (None, d2) \<Rightarrow> await_result c nonce ticks (d2, s))))"

section \<open>What a lookup guarantees\<close>

lemma trim_space_filter_id:
  assumes "checkPhone s"
  shows "filter (\<lambda>c. c \<notin> set '' -()'') s = s" "has_prefix s ''+''"
proof -
  obtain ds where s: "s = CHR ''+'' # ds" "list_all is_digit ds"
    using assms by (cases s) (auto simp: checkPhone_def)
  have "\<not> is_digit c" if "c \<in> set '' -()''" for c
    using that by (auto simp: is_digit_def byte_def)
  then have "\<forall>c \<in> set ds. c \<notin> set '' -()''" using s(2) by (auto simp: list_all_iff)
  then have "filter (\<lambda>c. c \<notin> set '' -()'') ds = ds" by (intro filter_True) simp
  then show "filter (\<lambda>c. c \<notin> set '' -()'') s = s" by (simp add: s)
  show "has_prefix s ''+''" by (simp add: s has_prefix_def)
qed

lemma chunks_ascii: "\<forall>c \<in> set s. byte c < 128 \<Longrightarrow> chunks s = map (\<lambda>c. [c]) s"
  by (induction s) simp_all

lemma is_space_ascii:
  assumes "is_space [c]"
  shows "byte c \<in> {9, 10, 11, 12, 13, 32}"
proof -
  have "[c] \<in> set (map (\<lambda>n. [char_of (n::nat)]) [9, 10, 11, 12, 13, 32])"
    using assms unfolding is_space_def space_runes_def set_append set_map
    by (elim UnE) (assumption | (elim imageE; simp) | simp)+
  then obtain n :: nat where n: "n \<in> set [9, 10, 11, 12, 13, 32]" and c: "c = char_of n"
    unfolding set_map by (elim imageE) simp
  from n have "n < 256" "n \<in> {9, 10, 11, 12, 13, 32}" by auto
  then show ?thesis unfolding c byte_def of_char_of by (simp only: mod_less)
qed

lemma trim_checked:
  assumes "checkPhone s"
  shows "trim_space s = s"
proof -
  obtain ds where s: "s = CHR ''+'' # ds" "list_all is_digit ds"
    using assms by (cases s) (auto simp: checkPhone_def)
  have plus_byte: "byte (CHR ''+'') = 43" by (simp add: byte_def)
  have "byte c = 43 \<or> (48 \<le> byte c \<and> byte c \<le> 57)" if "c \<in> set s" for c
  proof -
    have "c = CHR ''+'' \<or> is_digit c" using s that by (auto simp: list_all_iff)
    then show ?thesis by (elim disjE) (simp_all add: plus_byte is_digit_def)
  qed
  moreover have "byte c < 128 \<and> \<not> is_space [c]" if "byte c = 43 \<or> (48 \<le> byte c \<and> byte c \<le> 57)" for c
  proof -
    have "byte c \<notin> {9, 10, 11, 12, 13, 32}" using that by auto
    then show ?thesis using that is_space_ascii [of c] by linarith
  qed
  ultimately have all: "\<forall>c \<in> set s. byte c < 128 \<and> \<not> is_space [c]" by blast
  then have ch: "chunks s = map (\<lambda>c. [c]) s" by (intro chunks_ascii) simp
  have drop: "dropWhile is_space (map (\<lambda>c. [c]) t) = map (\<lambda>c. [c]) t" if "set t \<subseteq> set s" for t
    using that all by (cases t) auto
  have "dropWhile is_space (rev (chunks s)) = rev (chunks s)"
    using drop [of "rev s"] by (simp add: ch rev_map)
  then show ?thesis using drop [of s] by (simp add: trim_space_def ch)
qed

lemma normalized_again:
  "NormalizeCheckPhone q raw = Inr phone \<Longrightarrow> checkPhone phone \<and> NormalizeCheckPhone q phone = Inr phone"
proof -
  assume "NormalizeCheckPhone q raw = Inr phone"
  then have ok: "checkPhone phone" by (auto simp: NormalizeCheckPhone_def Let_def split: if_splits)
  then show ?thesis
    unfolding NormalizeCheckPhone_def Let_def trim_checked [OF ok] trim_space_filter_id(1) [OF ok]
    using trim_space_filter_id(2) [OF ok] by simp
qed

lemma checkNumber_tables:
  "\<exists>es. snd (checkNumber q w req s) = s\<lparr>trace := trace s @ es\<rparr> \<and> set es \<subseteq> range WaCheck"
proof -
  have id: "\<exists>es. s = s\<lparr>trace := trace s @ es\<rparr> \<and> set es \<subseteq> range WaCheck" by (rule exI [of _ "[]"]) simp
  have one: "\<exists>es. emit (WaCheck p) s = s\<lparr>trace := trace s @ es\<rparr> \<and> set es \<subseteq> range WaCheck" for p
    by (rule exI [of _ "[WaCheck p]"]) (simp add: emit_def)
  show ?thesis
    using id one
    by (simp add: checkNumber_def Let_def split: sum.split prod.split list.split option.split)
qed

lemma answer_keeps_tables:
  "\<exists>es. snd (answerCheckRequest c w (d, s)) = s\<lparr>trace := trace s @ es\<rparr> \<and> set es \<subseteq> range WaCheck"
proof -
  have id: "\<exists>es. s = s\<lparr>trace := trace s @ es\<rparr> \<and> set es \<subseteq> range WaCheck" by (rule exI [of _ "[]"]) simp
  then show ?thesis
    using checkNumber_tables [of "quoted_form c" w _ s]
    by (auto simp: answerCheckRequest_def Let_def split: prod.split sum.split)
       (metis snd_conv)
qed

text \<open>Number checks change no table: their ticks only add lookups to the trace.\<close>

theorem check_writes_nothing:
  "\<exists>es. snd (WatchCheckRequests c w n (d, s)) = s\<lparr>trace := trace s @ es\<rparr> \<and> set es \<subseteq> range WaCheck"
proof (induction n)
  case 0
  show ?case by (rule exI [of _ "[]"]) (simp add: WatchCheckRequests_def)
next
  case (Suc n)
  obtain d1 s1 where n: "WatchCheckRequests c w n (d, s) = (d1, s1)" by (rule prod.exhaust)
  then obtain es where es: "s1 = s\<lparr>trace := trace s @ es\<rparr>" "set es \<subseteq> range WaCheck" using Suc.IH by auto
  obtain fs where fs: "snd (answerCheckRequest c w (d1, s1)) = s1\<lparr>trace := trace s1 @ fs\<rparr>"
    "set fs \<subseteq> range WaCheck"
    using answer_keeps_tables by blast
  have "snd (WatchCheckRequests c w (Suc n) (d, s)) = s1\<lparr>trace := trace s1 @ fs\<rparr>"
    using n fs(1) by (simp add: WatchCheckRequests_def)
  then show ?case using es fs(2) by (intro exI [of _ "es @ fs"]) simp
qed

lemma disk_quiet: "disk_answers d = [] \<Longrightarrow> disk_op f d = (None, f d)"
  by (simp add: disk_op_def)

text \<open>C36: A check of a number through the request and result files answers what the lookup of the normalised number gives, and leaves no file behind.\<close>

theorem check_round_trip:
  assumes "unmarshal_request c (marshal_request c \<lparr>cq_id = nonce, cq_phone = phone\<rparr>) =
      Inr \<lparr>cq_id = nonce, cq_phone = phone\<rparr>"
    and "unmarshal_result c (marshal_result c
        (fst (checkNumber (quoted_form c) w \<lparr>cq_id = nonce, cq_phone = phone\<rparr> s))) =
      Inr (fst (checkNumber (quoted_form c) w \<lparr>cq_id = nonce, cq_phone = phone\<rparr> s))"
    and "disk_answers d = []" "NormalizeCheckPhone (quoted_form c) raw = Inr phone"
  shows "RequestCheckNumber c nonce raw (answerCheckRequest c w # ticks) (d, s) =
    (Inr (fst (checkNumber (quoted_form c) w \<lparr>cq_id = nonce, cq_phone = phone\<rparr> s)),
     d\<lparr>req_file := None, res_file := None\<rparr>,
     snd (checkNumber (quoted_form c) w \<lparr>cq_id = nonce, cq_phone = phone\<rparr> s))"
proof -
  let ?req = "\<lparr>cq_id = nonce, cq_phone = phone\<rparr>"
  obtain res s1 where r: "checkNumber (quoted_form c) w ?req s = (res, s1)" by (rule prod.exhaust)
  have "NormalizeCheckPhone (quoted_form c) phone = Inr phone" using normalized_again [OF assms(4)] by simp
  then have "cr_id (fst (checkNumber (quoted_form c) w ?req s)) = nonce"
    by (auto simp: checkNumber_def Let_def hit_result_def empty_result_def
        split: prod.split list.split option.split)
  then have id: "cr_id res = nonce" by (simp add: r)
  show ?thesis
    using assms
    by (simp add: RequestCheckNumber_def Let_def writeFileAtomic_def disk_quiet put_req_def put_res_def
        answerCheckRequest_def read_file_def r id)
qed

section \<open>A concrete run\<close>

text \<open>A codec that writes one field after the other, each with its length in front.\<close>

definition fields_text :: "string list \<Rightarrow> string" where
  "fields_text fs = concat (map (\<lambda>f. replicate (length f) (CHR ''#'') @ CHR '':'' # f) fs)"

fun text_fields :: "nat \<Rightarrow> string \<Rightarrow> string list" where
  "text_fields 0 s = []"
| "text_fields (Suc n) s =
     (let k = length (takeWhile (\<lambda>c. c = CHR ''#'') s); r = drop (k + 1) s
      in take k r # text_fields n (drop k r))"

lemma text_fields_round: "text_fields (length fs) (fields_text fs @ rest) = fs"
proof (induction fs)
  case (Cons f fs)
  have "takeWhile (\<lambda>c. c = CHR ''#'') (replicate (length f) (CHR ''#'') @ CHR '':'' # u) =
      replicate (length f) (CHR ''#'')" for u
    by (subst takeWhile_append2) auto
  then show ?case using Cons by (simp add: fields_text_def Let_def)
qed simp

definition sample_codec :: codec where
  "sample_codec =
     \<lparr>quoted_form = (\<lambda>s. s),
      marshal_request = (\<lambda>r. fields_text [cq_id r, cq_phone r]),
      unmarshal_request = (\<lambda>t. case text_fields 2 t of [i, p] \<Rightarrow> Inr \<lparr>cq_id = i, cq_phone = p\<rparr>
        | _ \<Rightarrow> Inl (ErrText ''bad'')),
      marshal_result = (\<lambda>r. fields_text [cr_id r, cr_phone r, cr_error r,
        (if cr_is_in r then ''t'' else ''f''), cr_query r, cr_jid r, cr_phone_number r,
        cr_verified_name r, cr_store_jid r]),
      unmarshal_result = (\<lambda>t. case text_fields 9 t of
          [i, p, e, n, q, j, pn, v, sj] \<Rightarrow>
            Inr \<lparr>cr_id = i, cr_phone = p, cr_error = e, cr_is_in = (n = ''t''), cr_query = q, cr_jid = j,
              cr_phone_number = pn, cr_verified_name = v, cr_store_jid = sj\<rparr>
        | _ \<Rightarrow> Inl (ErrText ''bad''))\<rparr>"

lemma sample_codec_round:
  "unmarshal_request sample_codec (marshal_request sample_codec r) = Inr r"
  "unmarshal_result sample_codec (marshal_result sample_codec x) = Inr x"
proof -
  have two: "text_fields 2 (fields_text [a, b]) = [a, b]" for a b
  proof -
    have n: "length [a, b] = 2" by simp
    show ?thesis using text_fields_round [of "[a, b]" "''''"] unfolding n append_Nil2 .
  qed
  show "unmarshal_request sample_codec (marshal_request sample_codec r) = Inr r"
    unfolding sample_codec_def by (simp add: two)
  have nine: "text_fields 9 (fields_text [a, b, d, e, f, g, h, i, j]) = [a, b, d, e, f, g, h, i, j]"
    for a b d e f g h i j
  proof -
    have n: "length [a, b, d, e, f, g, h, i, j] = 9" by simp
    show ?thesis using text_fields_round [of "[a, b, d, e, f, g, h, i, j]" "''''"] unfolding n append_Nil2 .
  qed
  show "unmarshal_result sample_codec (marshal_result sample_codec x) = Inr x"
    unfolding sample_codec_def by (simp add: nine)
qed

theorem check_round_trip_witness:
  "\<exists>res. fst (RequestCheckNumber sample_codec ''n1'' ''+525512345678'' [answerCheckRequest sample_codec sample_wa]
      (\<lparr>req_file = None, res_file = Some ''old'', disk_answers = []\<rparr>, sample_store)) = Inr res"
proof -
  have ok: "checkPhone ''+525512345678''" by (simp add: checkPhone_def is_digit_def byte_def)
  have "NormalizeCheckPhone (quoted_form sample_codec) ''+525512345678'' = Inr ''+525512345678''"
    unfolding NormalizeCheckPhone_def Let_def trim_checked [OF ok] trim_space_filter_id(1) [OF ok]
    using ok trim_space_filter_id(2) [OF ok] by simp
  from check_round_trip [OF sample_codec_round _ this, of "\<lparr>req_file = None, res_file = Some ''old'',
      disk_answers = []\<rparr>"]
  show ?thesis by simp
qed

end
