(* ===== verification/Logfile.thy ===== *)
theory Logfile
  imports GoText
begin

text \<open>
  \<open>internal/logfile/logfile.go\<close>: the file behind everything the program prints. Each line gets
  the date in front, and a file past 10 MB is renamed to \<open>.1\<close> at the next line start. The pipe
  that \<open>Setup\<close> puts in front of it is the operating system's; each write it makes is one
  \<open>log_write\<close>. The date is an argument.
\<close>

section \<open>The file\<close>

definition maxSize :: nat where
  "maxSize = 10 * 2 ^ 20"

text \<open>
  What the system answers to the next file operations: done, or refused after \<open>n\<close> bytes of a
  write. \<open>lf_null\<close> says that the handle is the null device.
\<close>

datatype disk_reply = Done | Refused go_error nat

record rotating_file =
  lf_main :: "string option"
  lf_rotated :: "string option"
  lf_null :: bool
  lf_size :: nat
  lf_line_start :: bool
  lf_replies :: "disk_reply list"

definition next_reply :: "rotating_file \<Rightarrow> disk_reply \<times> rotating_file" where
  "next_reply rf =
     (case lf_replies rf of [] \<Rightarrow> (Done, rf) | r # rs \<Rightarrow> (r, rf\<lparr>lf_replies := rs\<rparr>))"

text \<open>\<open>open\<close>: opening creates the file, then its size is read.\<close>

definition open_log :: "rotating_file \<Rightarrow> go_error option \<times> rotating_file" where
  "open_log rf =
     (case next_reply rf of
        (Refused e _, rf1) \<Rightarrow> (Some (Wrapped ''open log file'' e), rf1)
      | (Done, rf1) \<Rightarrow>
          (let text = null_str (lf_main rf1); rf2 = rf1\<lparr>lf_main := Some text\<rparr>
           in case next_reply rf2 of
                (Refused e _, rf3) \<Rightarrow> (Some e, rf3)
              | (Done, rf3) \<Rightarrow> (None, rf3\<lparr>lf_null := False, lf_size := length text\<rparr>)))"

definition rotate_log :: "rotating_file \<Rightarrow> rotating_file" where
  "rotate_log rf =
     (let rf1 = (case next_reply rf of (Done, r) \<Rightarrow> r\<lparr>lf_rotated := None\<rparr> | (Refused _ _, r) \<Rightarrow> r);
          rf2 = (case next_reply rf1 of
                   (Done, r) \<Rightarrow> (if lf_main r = None then r
                                 else r\<lparr>lf_rotated := lf_main r, lf_main := None\<rparr>)
                 | (Refused _ _, r) \<Rightarrow> r)
      in case open_log rf2 of (None, rf3) \<Rightarrow> rf3 | (Some _, rf3) \<Rightarrow> rf3\<lparr>lf_null := True\<rparr>)"

text \<open>A write to the handle: the bytes that got out, the error.\<close>

definition write_bytes :: "string \<Rightarrow> rotating_file \<Rightarrow> nat \<times> go_error option \<times> rotating_file" where
  "write_bytes t rf =
     (if lf_null rf then (length t, None, rf\<lparr>lf_size := lf_size rf + length t\<rparr>)
      else
        (case next_reply rf of
           (Done, r) \<Rightarrow>
             (length t, None, r\<lparr>lf_main := Some (null_str (lf_main r) @ t), lf_size := lf_size r + length t\<rparr>)
         | (Refused e n, r) \<Rightarrow>
             (min n (length t), Some e,
              r\<lparr>lf_main := Some (null_str (lf_main r) @ take n t), lf_size := lf_size r + min n (length t)\<rparr>)))"

definition newline :: char where
  "newline = CHR 0x0A"

definition line_of :: "string \<Rightarrow> string" where
  "line_of p = takeWhile (\<lambda>c. c \<noteq> newline) p @ (if newline \<in> set p then [newline] else [])"

definition stamp_line :: "string \<Rightarrow> rotating_file \<Rightarrow> rotating_file" where
  "stamp_line stamp rf =
     (if lf_line_start rf then (snd (snd (write_bytes stamp rf)))\<lparr>lf_line_start := False\<rparr> else rf)"

lemma line_of_nonempty: "p \<noteq> [] \<Longrightarrow> line_of p \<noteq> []"
  by (cases p) (auto simp: line_of_def)

text \<open>The loop of \<open>Write\<close>.\<close>

function write_lines ::
  "string \<Rightarrow> string \<Rightarrow> nat \<Rightarrow> rotating_file \<Rightarrow> nat \<times> go_error option \<times> rotating_file" where
  "write_lines stamp p written rf =
     (if p = [] then (written, None, rf)
      else
        (let rf1 = stamp_line stamp rf; line = line_of p;
             rf2 = (if newline \<in> set p then rf1\<lparr>lf_line_start := True\<rparr> else rf1)
         in case write_bytes line rf2 of
              (n, Some e, rf3) \<Rightarrow> (written + n, Some e, rf3)
            | (n, None, rf3) \<Rightarrow> write_lines stamp (drop (length line) p) (written + n) rf3))"
  by pat_completeness auto
termination
  by (relation "measure (\<lambda>(_, p, _, _). length p)") (auto intro!: diff_less simp: line_of_nonempty)

declare write_lines.simps [simp del]

definition log_write ::
  "string \<Rightarrow> string \<Rightarrow> rotating_file \<Rightarrow> nat \<times> go_error option \<times> rotating_file" where
  "log_write stamp p rf =
     write_lines stamp p 0 (if maxSize \<le> lf_size rf \<and> lf_line_start rf then rotate_log rf else rf)"

definition openRotating :: "rotating_file \<Rightarrow> go_error option \<times> rotating_file" where
  "openRotating rf = open_log (rf\<lparr>lf_line_start := True\<rparr>)"

section \<open>The text of the log\<close>

text \<open>The printed bytes with the date in front of every line.\<close>

fun stamped :: "string \<Rightarrow> bool \<Rightarrow> string \<Rightarrow> string" where
  "stamped stamp ls [] = []"
| "stamped stamp ls (c # p) = (if ls then stamp else []) @ c # stamped stamp (c = newline) p"

definition log_ok :: "rotating_file \<Rightarrow> bool" where
  "log_ok rf \<longleftrightarrow>
     lf_replies rf = [] \<and> \<not> lf_null rf \<and> lf_main rf \<noteq> None \<and> lf_size rf = length (null_str (lf_main rf))"

definition appended :: "string \<Rightarrow> bool \<Rightarrow> rotating_file \<Rightarrow> rotating_file" where
  "appended t ls rf =
     rf\<lparr>lf_main := Some (null_str (lf_main rf) @ t), lf_size := lf_size rf + length t,
       lf_line_start := ls\<rparr>"

lemma write_ok: "log_ok rf \<Longrightarrow> write_bytes t rf = (length t, None, appended t (lf_line_start rf) rf)"
  by (simp add: log_ok_def write_bytes_def next_reply_def appended_def)

lemma appended_ok: "log_ok rf \<Longrightarrow> log_ok (appended t ls rf)"
  by (auto simp: log_ok_def appended_def)

lemma appended_twice: "appended u l2 (appended t l1 rf) = appended (t @ u) l2 rf"
  by (simp add: appended_def)

lemma stamped_no_newline: "newline \<notin> set p \<Longrightarrow> stamped stamp False p = p"
  by (induction p) auto

lemma stamped_line:
  "p \<noteq> [] \<Longrightarrow> stamped stamp ls p = (if ls then stamp else []) @ line_of p @
    stamped stamp True (drop (length (line_of p)) p)"
proof (induction p arbitrary: ls)
  case (Cons c p)
  show ?case
  proof (cases "c = newline \<or> p = []")
    case True
    then show ?thesis by (auto simp: line_of_def)
  next
    case False
    then show ?thesis using Cons.IH [of False] by (auto simp: line_of_def)
  qed
qed simp

lemma appended_line_start [simp]: "lf_line_start (appended t ls rf) = ls"
  by (simp add: appended_def)

lemma appended_restart: "(appended t ls rf)\<lparr>lf_line_start := l\<rparr> = appended t l rf"
  by (simp add: appended_def)

lemma line_of_le: "length (line_of p) \<le> length p"
proof (induction p)
  case (Cons c p)
  then show ?case by (auto simp: line_of_def)
qed (simp add: line_of_def)

lemma line_of_take: "line_of p = take (length (line_of p)) p"
proof (induction p)
  case (Cons c p)
  then show ?case by (auto simp: line_of_def)
qed (simp add: line_of_def)

lemma line_of_whole: "drop (length (line_of p)) p = [] \<Longrightarrow> line_of p = p"
  using line_of_take [of p] by (metis append_Nil2 append_take_drop_id)

lemma line_of_rest: "drop (length (line_of p)) p \<noteq> [] \<Longrightarrow> newline \<in> set p"
proof (rule ccontr)
  assume d: "drop (length (line_of p)) p \<noteq> []" and n: "newline \<notin> set p"
  have "takeWhile (\<lambda>c. c \<noteq> newline) p = p"
    using n by (intro takeWhile_eq_all_conv [THEN iffD2]) auto
  then have "line_of p = p" unfolding line_of_def using n by (metis append_Nil2)
  then show False using d by simp
qed

lemma line_of_last: "p \<noteq> [] \<Longrightarrow> line_of p = p \<Longrightarrow> last p = newline \<longleftrightarrow> newline \<in> set p"
  by (auto simp: line_of_def split: if_splits) (metis last_snoc)+

lemma stamp_line_ok:
  "log_ok rf \<Longrightarrow> stamp_line stamp rf =
    appended (if lf_line_start rf then stamp else []) False rf"
proof (cases "lf_line_start rf")
  case True
  then show "log_ok rf \<Longrightarrow> ?thesis" by (simp add: stamp_line_def write_ok appended_def)
next
  case False
  then show "log_ok rf \<Longrightarrow> ?thesis" by (cases rf) (auto simp: stamp_line_def appended_def log_ok_def)
qed

text \<open>The loop writes exactly the stamped text.\<close>

lemma write_lines_ok:
  "log_ok rf \<Longrightarrow> write_lines stamp p k rf =
    (k + length p, None,
     if p = [] then rf
     else appended (stamped stamp (lf_line_start rf) p) (last p = newline) rf)"
proof (induction p arbitrary: k rf rule: measure_induct_rule [of length])
  case (less p)
  show ?case
  proof (cases "p = []")
    case True
    then show ?thesis by (simp add: write_lines.simps)
  next
    case False
    define line where "line = line_of p"
    define rf1 where "rf1 = appended ((if lf_line_start rf then stamp else []) @ line) (newline \<in> set p) rf"
    define rest where "rest = drop (length line) p"
    have len: "0 < length line" "length line \<le> length p"
      using line_of_nonempty [OF False] by (simp_all add: line_def line_of_le)
    have ok: "log_ok rf1" using less.prems by (simp add: rf1_def appended_ok)
    have step: "write_lines stamp p k rf = write_lines stamp rest (k + length line) rf1"
      using False less.prems
      by (simp add: write_lines.simps [of stamp p] Let_def stamp_line_ok line_def [symmetric] rest_def
          appended_line_start write_ok appended_ok appended_twice appended_restart rf1_def)
    have st: "stamped stamp (lf_line_start rf) p =
        (if lf_line_start rf then stamp else []) @ line @ stamped stamp True rest"
      using stamped_line [OF False] by (simp add: line_def rest_def)
    show ?thesis
    proof (cases "rest = []")
      case True
      then have whole: "line_of p = p" unfolding rest_def line_def by (rule line_of_whole)
      then have l: "length line = length p" by (simp add: line_def)
      have "(newline \<in> set p) = (last p = newline)" using line_of_last [OF False whole] by simp
      moreover have "stamped stamp (lf_line_start rf) p = (if lf_line_start rf then stamp else []) @ line"
        using st True by simp
      ultimately have "rf1 = appended (stamped stamp (lf_line_start rf) p) (last p = newline) rf"
        by (simp only: rf1_def)
      moreover have "write_lines stamp p k rf = (k + length p, None, rf1)"
        using True by (simp add: step l write_lines.simps [of stamp "[]"])
      ultimately show ?thesis using False by simp
    next
      case False
      then have nl: "newline \<in> set p" using line_of_rest by (auto simp: rest_def line_def)
      have last: "last rest = last p" using False by (simp add: rest_def last_drop)
      have len': "length rest < length p" "length line + length rest = length p"
        using len \<open>p \<noteq> []\<close> by (auto simp: rest_def intro!: diff_less)
      have "write_lines stamp rest (k + length line) rf1 = (k + length p, None,
          appended (stamped stamp True rest) (last p = newline) rf1)"
        using less.IH [OF len'(1) ok, of "k + length line"] False len'(2) nl last
        by (simp add: rf1_def add.assoc)
      then show ?thesis
        using st \<open>p \<noteq> []\<close> by (simp add: step rf1_def appended_twice)
    qed
  qed
qed

definition rotated :: "rotating_file \<Rightarrow> rotating_file" where
  "rotated rf = rf\<lparr>lf_rotated := lf_main rf, lf_main := Some '''', lf_size := 0\<rparr>"

lemma rotate_ok:
  assumes "log_ok rf"
  shows "rotate_log rf = rotated rf" "log_ok (rotated rf)"
  using assms
  by (cases rf; auto simp: log_ok_def rotate_log_def rotated_def next_reply_def open_log_def Let_def)+

definition rolled :: "rotating_file \<Rightarrow> rotating_file" where
  "rolled rf = (if maxSize \<le> lf_size rf \<and> lf_line_start rf then rotated rf else rf)"

lemma rolled_ok: "log_ok rf \<Longrightarrow> log_ok (rolled rf)" "lf_line_start (rolled rf) = lf_line_start rf"
  using rotate_ok [of rf] by (simp_all add: rolled_def rotated_def)

lemma log_write_ok:
  "log_ok rf \<Longrightarrow> p \<noteq> [] \<Longrightarrow> log_write stamp p rf =
    (length p, None, appended (stamped stamp (lf_line_start rf) p) (last p = newline) (rolled rf))"
proof -
  assume a: "log_ok rf" "p \<noteq> []"
  have "log_write stamp p rf = write_lines stamp p 0 (rolled rf)"
    using rotate_ok(1) [OF a(1)] by (simp add: log_write_def rolled_def)
  then show ?thesis using write_lines_ok [OF rolled_ok(1) [OF a(1)]] a(2) by (simp add: rolled_ok(2))
qed

text \<open>C37: A write to the log reports its whole length, puts the date in front of every line and nothing else, and rotates first exactly when the file is full at a line start.\<close>

theorem log_write_stamps:
  assumes "log_ok rf" "p \<noteq> []"
  shows "fst (log_write stamp p rf) = length p \<and> fst (snd (log_write stamp p rf)) = None \<and>
    (if maxSize \<le> lf_size rf \<and> lf_line_start rf
     then lf_main (snd (snd (log_write stamp p rf))) = Some (stamped stamp True p) \<and>
       lf_rotated (snd (snd (log_write stamp p rf))) = lf_main rf
     else lf_main (snd (snd (log_write stamp p rf))) =
         Some (null_str (lf_main rf) @ stamped stamp (lf_line_start rf) p) \<and>
       lf_rotated (snd (snd (log_write stamp p rf))) = lf_rotated rf)"
  using log_write_ok [OF assms, of stamp] by (simp add: rolled_def rotated_def appended_def)

text \<open>The buffer of \<open>io.Copy\<close>, and the most a write of it can add: a date per byte.\<close>

definition copyBuffer :: nat where
  "copyBuffer = 32768"

definition logBound :: nat where
  "logBound = maxSize + 12 * copyBuffer"

definition dated_write :: "string \<times> string \<Rightarrow> bool" where
  "dated_write sp \<longleftrightarrow> length (fst sp) = 11 \<and> snd sp \<noteq> [] \<and> length (snd sp) \<le> copyBuffer \<and>
     last (snd sp) = newline"

definition run_log :: "(string \<times> string) list \<Rightarrow> rotating_file \<Rightarrow> rotating_file" where
  "run_log ws rf = foldl (\<lambda>rf (stamp, p). snd (snd (log_write stamp p rf))) rf ws"

definition small :: "rotating_file \<Rightarrow> bool" where
  "small rf \<longleftrightarrow> length (null_str (lf_main rf)) \<le> logBound \<and> length (null_str (lf_rotated rf)) \<le> logBound"

lemma stamped_length: "length (stamped stamp ls p) \<le> length p * (length stamp + 1)"
proof (induction p arbitrary: ls)
  case (Cons c p)
  show ?case using Cons.IH [of "c = newline"] by simp
qed simp

lemma small_write:
  assumes "log_ok rf" "lf_line_start rf" "small rf" "dated_write (stamp, p)"
  shows "log_ok (snd (snd (log_write stamp p rf))) \<and> lf_line_start (snd (snd (log_write stamp p rf))) \<and>
    small (snd (snd (log_write stamp p rf)))"
proof -
  have p: "p \<noteq> []" "last p = newline" "length stamp = 11" "length p \<le> copyBuffer"
    using assms(4) by (simp_all add: dated_write_def)
  have "length (stamped stamp True p) \<le> length p * 12"
    using stamped_length [of stamp True p] by (simp add: p)
  then have len: "length (stamped stamp True p) \<le> 12 * copyBuffer" using p(4) by simp
  have roll: "length (null_str (lf_main (rolled rf))) \<le> maxSize" "length (null_str (lf_rotated (rolled rf))) \<le> logBound"
    using assms by (auto simp: rolled_def rotated_def small_def log_ok_def)
  then show ?thesis
    using log_write_ok [OF assms(1) p(1), of stamp] len rolled_ok(1) [OF assms(1)] p(2) assms(2)
    by (simp add: appended_ok small_def) (simp add: appended_def logBound_def)
qed

text \<open>Whole dated lines keep both log files under the bound.\<close>

theorem log_stays_small:
  assumes "log_ok rf" "lf_line_start rf" "small rf" "list_all dated_write ws"
  shows "length (null_str (lf_main (run_log ws rf))) \<le> logBound \<and>
    length (null_str (lf_rotated (run_log ws rf))) \<le> logBound"
proof -
  have "log_ok (run_log ws rf) \<and> lf_line_start (run_log ws rf) \<and> small (run_log ws rf)"
    using assms
  proof (induction ws rule: rev_induct)
    case (snoc w ws)
    then show ?case
      using small_write [of "run_log ws rf" "fst w" "snd w"]
      by (simp add: run_log_def split_beta)
  qed (simp add: run_log_def)
  then show ?thesis by (simp add: small_def)
qed

section \<open>A concrete log\<close>

definition new_log :: rotating_file where
  "new_log = \<lparr>lf_main = Some '''', lf_rotated = None, lf_null = False, lf_size = 0,
     lf_line_start = True, lf_replies = []\<rparr>"

theorem log_write_stamps_witness:
  "lf_main (snd (snd (log_write ''2025-01-02 '' (''ab'' @ [newline] @ ''c'') new_log))) =
    Some (stamped ''2025-01-02 '' True (''ab'' @ [newline] @ ''c''))"
  using log_write_stamps [of new_log "(''ab'' @ [newline] @ ''c'')" "''2025-01-02 ''"]
  by (simp add: new_log_def log_ok_def maxSize_def)

theorem log_stays_small_witness:
  "length (null_str (lf_main (run_log (replicate 5 (''2025-01-02 '', [newline])) new_log))) \<le> logBound"
  using log_stays_small [of new_log "replicate 5 (''2025-01-02 '', [newline])"]
  by (simp add: new_log_def log_ok_def small_def logBound_def dated_write_def copyBuffer_def list_all_iff)

end
