(* ===== verification/LogPipe.thy ===== *)
theory LogPipe
  imports Logfile
begin

text \<open>
  \<open>Setup\<close> of \<open>internal/logfile/logfile.go\<close>: everything the program prints goes into a pipe, and
  one goroutine copies it with \<open>io.Copy\<close> to the log file and, for \<open>wabridge run\<close>, to the
  original standard output first. A chunk is what one read of the pipe gives.
\<close>

section \<open>The state behind the pipe\<close>

text \<open>
  \<open>lp_copying\<close>: the goroutine is still in \<open>io.Copy\<close>. \<open>lp_reader\<close>: the read end of the pipe is
  open; only that goroutine refers to it, so after the copying the finalizer that \<open>os.File\<close>
  documents closes it at some garbage collection. \<open>lp_unread\<close> is what was printed and not read
  from the pipe, \<open>lp_waiting\<close> counts the prints that wait for room in it, \<open>lp_closed\<close> says that
  the returned function has run.
\<close>

record log_pipe =
  lp_file :: rotating_file
  lp_tee :: bool
  lp_console :: string
  lp_console_replies :: "disk_reply list"
  lp_copying :: bool
  lp_reader :: bool
  lp_unread :: string
  lp_waiting :: nat
  lp_closed :: bool

text \<open>The result of \<open>os.Pipe\<close> is an argument; without a pipe the file is closed again.\<close>

definition Setup :: "unit res \<Rightarrow> bool \<Rightarrow> rotating_file \<Rightarrow> log_pipe res" where
  "Setup pipe tee rf =
     (case openRotating rf of
        (Some e, _) \<Rightarrow> Inl e
      | (None, rf1) \<Rightarrow>
          (case pipe of
             Inl e \<Rightarrow> Inl e
           | Inr _ \<Rightarrow>
               Inr \<lparr>lp_file = rf1, lp_tee = tee, lp_console = '''', lp_console_replies = [],
                    lp_copying = True, lp_reader = True, lp_unread = '''', lp_waiting = 0,
                    lp_closed = False\<rparr>))"

section \<open>Copying\<close>

text \<open>\<open>os.Stdout.Write\<close> of the tee: whether all of the chunk was taken.\<close>

definition console_write :: "string \<Rightarrow> log_pipe \<Rightarrow> bool \<times> log_pipe" where
  "console_write p lp =
     (case lp_console_replies lp of
        [] \<Rightarrow> (True, lp\<lparr>lp_console := lp_console lp @ p\<rparr>)
      | Done # rs \<Rightarrow> (True, lp\<lparr>lp_console := lp_console lp @ p, lp_console_replies := rs\<rparr>)
      | Refused _ n # rs \<Rightarrow>
          (False, lp\<lparr>lp_console := lp_console lp @ take n p, lp_console_replies := rs\<rparr>))"

definition file_write :: "string \<Rightarrow> string \<Rightarrow> log_pipe \<Rightarrow> log_pipe" where
  "file_write stamp p lp =
     (case log_write stamp p (lp_file lp) of
        (n, err, rf) \<Rightarrow> lp\<lparr>lp_file := rf, lp_copying := (err = None \<and> n = length p)\<rparr>)"

text \<open>
  One round of \<open>io.Copy\<close>: \<open>io.MultiWriter\<close> writes to the console, then to the file, and stops
  at the first that fails; \<open>io.Copy\<close> ends with the first write that fails or is short.
\<close>

definition copy_chunk :: "string \<Rightarrow> string \<Rightarrow> log_pipe \<Rightarrow> log_pipe" where
  "copy_chunk stamp p lp =
     (if \<not> lp_tee lp then file_write stamp p lp
      else (case console_write p lp of
              (False, lp1) \<Rightarrow> lp1\<lparr>lp_copying := False\<rparr>
            | (True, lp1) \<Rightarrow> file_write stamp p lp1))"

text \<open>
  The program prints a chunk, that is, it writes it to a pipe of \<open>cap\<close> bytes. When nobody reads
  the pipe any more the chunk stays there, or the print waits once the pipe is full. Without a
  read end, or after the close, the write fails.
\<close>

datatype print_result =
    Printed
  | Waits
  | Fails

definition print_chunk :: "nat \<Rightarrow> string \<times> string \<Rightarrow> log_pipe \<Rightarrow> print_result \<times> log_pipe" where
  "print_chunk cap sp lp =
     (if lp_closed lp \<or> \<not> lp_reader lp then (Fails, lp)
      else if lp_copying lp then (Printed, copy_chunk (fst sp) (snd sp) lp)
      else
        (let lp1 = lp\<lparr>lp_unread := lp_unread lp @ take (cap - length (lp_unread lp)) (snd sp)\<rparr>
         in if length (lp_unread lp) + length (snd sp) \<le> cap then (Printed, lp1)
            else (Waits, lp1\<lparr>lp_waiting := Suc (lp_waiting lp)\<rparr>)))"

definition print_all :: "nat \<Rightarrow> (string \<times> string) list \<Rightarrow> log_pipe \<Rightarrow> log_pipe" where
  "print_all cap sps lp = foldl (\<lambda>lp sp. snd (print_chunk cap sp lp)) lp sps"

text \<open>A collection once the goroutine has ended: the read end is closed, a waiting write fails.\<close>

definition collect :: "log_pipe \<Rightarrow> log_pipe" where
  "collect lp = (if lp_copying lp then lp else lp\<lparr>lp_reader := False, lp_waiting := 0\<rparr>)"

datatype log_event =
    Print string string
  | Collect

definition log_event_step :: "nat \<Rightarrow> log_pipe \<Rightarrow> log_event \<Rightarrow> log_pipe" where
  "log_event_step cap lp e =
     (case e of Print stamp p \<Rightarrow> snd (print_chunk cap (stamp, p) lp) | Collect \<Rightarrow> collect lp)"

text \<open>
  The function \<open>Setup\<close> returns: once, the write end is closed, which ends a waiting write and,
  when all is read, the copy; the file is closed too.
\<close>

definition close_log :: "log_pipe \<Rightarrow> log_pipe" where
  "close_log lp =
     (if lp_closed lp then lp else lp\<lparr>lp_copying := False, lp_waiting := 0, lp_closed := True\<rparr>)"

section \<open>As long as the disk takes everything\<close>

lemma print_all_Cons: "print_all cap (sp # sps) lp = print_all cap sps (snd (print_chunk cap sp lp))"
  by (simp add: print_all_def)

definition flowing :: "log_pipe \<Rightarrow> bool" where
  "flowing lp \<longleftrightarrow> log_ok (lp_file lp) \<and> lp_copying lp \<and> lp_reader lp \<and> \<not> lp_closed lp \<and>
     lp_console_replies lp = []"

lemma print_flowing:
  assumes "flowing lp" "p \<noteq> []"
  shows "print_chunk cap (stamp, p) lp = (Printed, lp
    \<lparr>lp_file := snd (snd (log_write stamp p (lp_file lp))),
     lp_console := (if lp_tee lp then lp_console lp @ p else lp_console lp)\<rparr>)"
  using assms log_write_ok [of "lp_file lp" p stamp]
  by (cases lp) (simp add: flowing_def print_chunk_def copy_chunk_def file_write_def console_write_def)

lemma flowing_print:
  assumes "flowing lp" "p \<noteq> []"
  shows "flowing (snd (print_chunk cap (stamp, p) lp))"
  using assms log_write_ok [of "lp_file lp" p stamp] rolled_ok(1) [of "lp_file lp"]
  by (simp add: print_flowing) (simp add: flowing_def appended_ok)

lemma print_all_flowing:
  assumes "flowing lp" "list_all (\<lambda>sp. snd sp \<noteq> []) sps"
  shows "flowing (print_all cap sps lp) \<and> lp_tee (print_all cap sps lp) = lp_tee lp \<and>
    lp_unread (print_all cap sps lp) = lp_unread lp \<and>
    lp_file (print_all cap sps lp) = run_log sps (lp_file lp) \<and>
    lp_console (print_all cap sps lp) =
      (if lp_tee lp then lp_console lp @ concat (map snd sps) else lp_console lp)"
  using assms
proof (induction sps arbitrary: lp)
  case Nil
  then show ?case by (simp add: print_all_def run_log_def)
next
  case (Cons sp sps)
  obtain stamp p where sp: "sp = (stamp, p)" by (rule prod.exhaust)
  have p: "p \<noteq> []" using Cons.prems(2) sp by simp
  have tail: "list_all (\<lambda>sp. snd sp \<noteq> []) sps" using Cons.prems(2) by simp
  show ?case
    using Cons.IH [OF flowing_print [OF Cons.prems(1) p, of cap stamp] tail] print_flowing [OF Cons.prems(1) p, of cap stamp]
    by (simp add: print_all_Cons sp run_log_def)
qed

section \<open>After the first write that fails\<close>

text \<open>What was printed is lost: nothing behind the pipe changes any more.\<close>

definition printed :: "log_event list \<Rightarrow> string" where
  "printed es = concat (map (case_log_event (\<lambda>_ p. p) '''') es)"

lemma stalled_step:
  assumes "\<not> lp_copying lp" "\<not> lp_closed lp"
  shows "\<not> lp_copying (log_event_step cap lp e) \<and> \<not> lp_closed (log_event_step cap lp e) \<and>
    lp_file (log_event_step cap lp e) = lp_file lp \<and> lp_console (log_event_step cap lp e) = lp_console lp"
  using assms by (cases e) (simp_all add: log_event_step_def print_chunk_def collect_def Let_def)

lemma stalled_events:
  assumes "\<not> lp_copying lp" "\<not> lp_closed lp"
  shows "\<not> lp_copying (foldl (log_event_step cap) lp es) \<and> \<not> lp_closed (foldl (log_event_step cap) lp es) \<and>
    lp_file (foldl (log_event_step cap) lp es) = lp_file lp \<and>
    lp_console (foldl (log_event_step cap) lp es) = lp_console lp"
  using assms by (induction es arbitrary: lp) (simp_all add: stalled_step)

lemma collected_fails:
  assumes "\<not> lp_copying lp" "\<not> lp_closed lp" "Collect \<in> set es"
  shows "\<not> lp_reader (foldl (log_event_step cap) lp es)"
proof -
  have gone: "\<not> lp_reader (foldl (log_event_step cap) l es')" if "\<not> lp_reader l" for l es'
    using that
  proof (induction es' arbitrary: l)
    case (Cons e es')
    then show ?case
      by (cases e) (simp_all add: log_event_step_def print_chunk_def collect_def)
  qed simp
  obtain us vs where es: "es = us @ Collect # vs" using assms(3) by (meson split_list)
  have "\<not> lp_copying (foldl (log_event_step cap) lp us)" using stalled_events [OF assms(1,2)] by blast
  then show ?thesis by (auto simp: es log_event_step_def collect_def intro!: gone)
qed

lemma stalled_pipe:
  assumes "\<not> lp_copying lp" "\<not> lp_closed lp" "lp_reader lp" "length (lp_unread lp) \<le> cap" "Collect \<notin> set es"
  shows "lp_reader (foldl (log_event_step cap) lp es) \<and>
    lp_unread (foldl (log_event_step cap) lp es) = take cap (lp_unread lp @ printed es)"
  using assms
proof (induction es arbitrary: lp)
  case (Cons e es)
  then obtain stamp p where e: "e = Print stamp p" by (cases e) auto
  let ?lp = "log_event_step cap lp e"
  have u: "lp_unread ?lp = lp_unread lp @ take (cap - length (lp_unread lp)) p" "lp_reader ?lp"
    using Cons.prems by (simp_all add: e log_event_step_def print_chunk_def Let_def)
  have "take cap (lp_unread ?lp @ printed es) = take cap (lp_unread lp @ printed (e # es))"
    using Cons.prems(4) unfolding u(1)
    by (cases "length p \<le> cap - length (lp_unread lp)") (simp_all add: e printed_def)
  then show ?case
    using Cons.IH [of ?lp] stalled_step [OF Cons.prems(1,2), of cap e] Cons.prems u by simp
qed (simp add: printed_def)

text \<open>A write of the file that fails, by the first answer it gets.\<close>

lemma refused_line:
  assumes "\<not> lf_null rf" "lf_replies rf = Refused e n # rs" "lf_line_start rf = False" "p \<noteq> []"
  shows "fst (snd (write_lines stamp p k rf)) = Some e"
  using assms
  by (simp add: write_lines.simps [of stamp p] stamp_line_def write_bytes_def next_reply_def Let_def)

lemma refused_write:
  assumes "\<not> lf_null rf" "lf_replies rf = replicate (if lf_line_start rf then Suc 0 else 0) Done @ Refused e n # rs"
    and "lf_size rf < maxSize" "p \<noteq> []"
  shows "fst (snd (log_write stamp p rf)) = Some e"
proof (cases "lf_line_start rf")
  case True
  then show ?thesis
    using assms
    by (simp add: log_write_def write_lines.simps [of stamp p] stamp_line_def write_bytes_def next_reply_def
        Let_def)
next
  case False
  then show ?thesis using assms refused_line [of rf e n rs p stamp 0] by (simp add: log_write_def)
qed

text \<open>While every write is taken, the console shows what was printed and the file the dated lines.\<close>

theorem tee_shows_everything:
  assumes "flowing lp" "lp_tee lp" "list_all (\<lambda>sp. snd sp \<noteq> []) sps"
  shows "lp_console (print_all cap sps lp) = lp_console lp @ concat (map snd sps) \<and>
    lp_file (print_all cap sps lp) = run_log sps (lp_file lp) \<and> lp_unread (print_all cap sps lp) = lp_unread lp"
  using print_all_flowing [OF assms(1,3)] assms(2) by simp

text \<open>C34: One write the disk refuses ends the log for good, even when later writes would be taken: over any later prints and garbage collections nothing reaches the file or the console; until a collection closes the read end of the pipe, prints fill it and one that does not fit waits; from then on none waits and every print fails.\<close>

theorem log_stops_at_first_error:
  fixes later cap
  assumes "lp_copying lp" "lp_reader lp" "\<not> lp_closed lp" "lp_console_replies lp = []"
    and "length (lp_unread lp) \<le> cap" "fst (snd (log_write stamp p (lp_file lp))) = Some e"
  defines "lp1 \<equiv> snd (print_chunk cap (stamp, p) lp)"
  defines "lp2 \<equiv> foldl (log_event_step cap) lp1 later"
  shows "lp_file lp2 = lp_file lp1 \<and> lp_console lp2 = lp_console lp1 \<and>
    (if Collect \<in> set later then print_chunk cap sp lp2 = (Fails, lp2)
     else lp_unread lp2 = take cap (lp_unread lp @ printed later) \<and>
       (fst (print_chunk cap sp lp2) = Waits \<longleftrightarrow> cap < length (lp_unread lp2) + length (snd sp))) \<and>
    lp_waiting (collect lp2) = 0 \<and> print_chunk cap sp (collect lp2) = (Fails, collect lp2)"
proof -
  have s: "\<not> lp_copying lp1" "\<not> lp_closed lp1" "lp_reader lp1" "lp_unread lp1 = lp_unread lp"
    using assms(1-4,6) unfolding lp1_def
    by (auto simp: print_chunk_def copy_chunk_def file_write_def console_write_def split: prod.split)
  have s2: "\<not> lp_copying lp2" "\<not> lp_closed lp2" "lp_file lp2 = lp_file lp1" "lp_console lp2 = lp_console lp1"
    using stalled_events [OF s(1,2)] by (simp_all add: lp2_def)
  have "print_chunk cap sp lp2 = (Fails, lp2)" if "Collect \<in> set later"
    using collected_fails [OF s(1,2) that] by (simp add: lp2_def print_chunk_def)
  moreover have "lp_reader lp2 \<and> lp_unread lp2 = take cap (lp_unread lp @ printed later)" if "Collect \<notin> set later"
    using stalled_pipe [OF s(1-3) _ that] s(4) assms(5) by (simp add: lp2_def)
  ultimately show ?thesis
    using s2 by (auto simp: print_chunk_def collect_def Let_def)
qed

section \<open>A full disk\<close>

definition full_disk :: log_pipe where
  "full_disk = \<lparr>lp_file = new_log\<lparr>lf_replies := [Done, Refused (ErrText ''no space left on device'') 0]\<rparr>,
     lp_tee = True, lp_console = '''', lp_console_replies = [], lp_copying = True, lp_reader = True,
     lp_unread = '''', lp_waiting = 0, lp_closed = False\<rparr>"

text \<open>
  A pipe of three bytes after a disk that was full for one write: the first two prints fit, the
  third waits; after the collection the next one fails, and the console shows the first only.
\<close>

theorem log_stops_at_first_error_witness:
  "let lp1 = snd (print_chunk 3 (''d'', ''a'') full_disk);
       lp2 = foldl (log_event_step 3) lp1 [Print ''d'' ''b'', Print ''d'' ''c'']
   in lp_console lp2 = ''a'' \<and> lp_unread lp2 = ''bc'' \<and> fst (print_chunk 3 (''d'', ''xy'') lp2) = Waits \<and>
     fst (print_chunk 3 (''d'', ''xy'') (collect lp2)) = Fails"
proof -
  have e: "fst (snd (log_write ''d'' ''a'' (lp_file full_disk))) = Some (ErrText ''no space left on device'')"
    by (rule refused_write) (simp_all add: full_disk_def new_log_def maxSize_def)
  have c: "lp_console (snd (print_chunk 3 (''d'', ''a'') full_disk)) = ''a''"
    by (simp add: full_disk_def print_chunk_def copy_chunk_def console_write_def file_write_def split: prod.split)
  have f: "lp_copying full_disk" "lp_reader full_disk" "\<not> lp_closed full_disk" "lp_console_replies full_disk = []"
    "lp_unread full_disk = ''''"
    by (simp_all add: full_disk_def)
  have "length (lp_unread full_disk) \<le> 3" by (simp add: f)
  from log_stops_at_first_error [OF f(1-4) this e, of "[Print ''d'' ''b'', Print ''d'' ''c'']" "(''d'', ''xy'')"]
  show ?thesis unfolding Let_def c f(5) by (simp add: printed_def)
qed

end
