(* ===== verification/Service.thy ===== *)
theory Service
  imports GoFloat Sql
begin

text \<open>
  The process around the bridge: \<open>internal/config/config.go\<close> (defaults and the place of the
  session database), \<open>internal/tunnel/tunnel.go\<close>, \<open>store.Open\<close>, and the supervisor of
  \<open>cmd/wabridge/main.go\<close> with its attempts and pauses. Files, SSH, YAML and the libraries'
  constructors are arguments; an attempt is the list of what it opens and closes.
\<close>

section \<open>Configuration\<close>

record config =
  ssh_host :: string
  ssh_port :: int
  ssh_user :: string
  ssh_private_key_path :: string
  ssh_private_key_passphrase :: string
  ssh_known_hosts_path :: string
  mysql_user :: string
  mysql_password :: string
  mysql_database :: string
  mysql_local_tunnel_port :: int
  media_remote_path :: string
  media_public_base_url :: string
  wm_store_path :: string
  wm_log_level :: string
  wm_legacy_store_path :: bool
  service_name :: string
  service_display_name :: string
  service_description :: string

text \<open>
  The operating system: \<open>os.UserHomeDir\<close>, \<open>filepath.IsAbs\<close>, \<open>Abs\<close>, \<open>Join\<close> and \<open>Dir\<close>, which
  differ between systems, and the files: \<open>stat_dir\<close> tells whether a path is there and is a
  directory. \<open>unmarshal_yaml\<close> is \<open>yaml.Unmarshal\<close>.
\<close>

record system =
  user_home :: "string res"
  is_abs :: "string \<Rightarrow> bool"
  abs_path :: "string \<Rightarrow> string res"
  join_path :: "string \<Rightarrow> string \<Rightarrow> string"
  dir_path :: "string \<Rightarrow> string"
  stat_dir :: "string \<Rightarrow> bool res"
  file_text :: "string \<Rightarrow> string res"
  unmarshal_yaml :: "string \<Rightarrow> config res"

definition ExpandHome :: "system \<Rightarrow> string \<Rightarrow> string" where
  "ExpandHome os p =
     (if p = '''' \<or> \<not> has_prefix p ''~'' then p
      else
        (case user_home os of
           Inl _ \<Rightarrow> p
         | Inr home \<Rightarrow>
             if p = ''~'' then home
             else if has_prefix p ''~/'' \<or> has_prefix p [CHR ''~'', CHR 0x5C]
               then join_path os home (drop 2 p)
             else p))"

definition fileExists :: "system \<Rightarrow> string \<Rightarrow> bool" where
  "fileExists os p = (case stat_dir os p of Inl _ \<Rightarrow> False | Inr d \<Rightarrow> \<not> d)"

definition anchored_path :: "system \<Rightarrow> string \<Rightarrow> string \<Rightarrow> string" where
  "anchored_path os p baseDir =
     join_path os (case abs_path os baseDir of Inr a \<Rightarrow> a | Inl _ \<Rightarrow> baseDir) p"

definition resolveStorePath :: "system \<Rightarrow> string \<Rightarrow> string \<Rightarrow> string \<times> bool" where
  "resolveStorePath os p baseDir =
     (if is_abs os p then (p, False)
      else
        (let anchored = anchored_path os p baseDir
         in if fileExists os anchored then (anchored, False)
            else
              (case abs_path os p of
                 Inl _ \<Rightarrow> (anchored, False)
               | Inr legacy \<Rightarrow>
                   if legacy \<noteq> anchored \<and> fileExists os legacy then (legacy, True)
                   else (anchored, False))))"

definition with_defaults :: "config \<Rightarrow> config" where
  "with_defaults c = c
     \<lparr>ssh_port := (if ssh_port c = 0 then 22 else ssh_port c),
      mysql_local_tunnel_port :=
        (if mysql_local_tunnel_port c = 0 then 53306 else mysql_local_tunnel_port c),
      wm_store_path := (if wm_store_path c = '''' then ''whatsmeow.db'' else wm_store_path c),
      wm_log_level := (if wm_log_level c = '''' then ''INFO'' else wm_log_level c)\<rparr>"

definition Load :: "system \<Rightarrow> string \<Rightarrow> config res" where
  "Load os path =
     (case file_text os path of
        Inl e \<Rightarrow> Inl (Wrapped (''read config '' @ path) e)
      | Inr text \<Rightarrow>
          (case unmarshal_yaml os text of
             Inl e \<Rightarrow> Inl (Wrapped ''parse config'' e)
           | Inr c0 \<Rightarrow>
               (let c = with_defaults c0;
                    place = resolveStorePath os (ExpandHome os (wm_store_path c)) (dir_path os path)
                in Inr (c\<lparr>ssh_private_key_path := ExpandHome os (ssh_private_key_path c),
                          ssh_known_hosts_path := ExpandHome os (ssh_known_hosts_path c),
                          wm_store_path := fst place, wm_legacy_store_path := snd place\<rparr>))))"

section \<open>The tunnel\<close>

text \<open>
  What an attempt holds. \<open>SessionStore\<close> is the SQLite container of \<open>wabridge.New\<close>;
  \<open>WaConnection\<close> is the running WhatsApp client: its connection, or the goroutine with which the
  library connects again after a drop.
\<close>

datatype resource = SshClient | SftpClient | Listener | Database | SessionStore | WaConnection

datatype effect = Acquire resource | Release resource

text \<open>
  How the library left a started client by the time the attempt ends: ended by the library (a
  logout, the last QR code, a replaced stream), connected, or connecting again after a drop.
\<close>

datatype client_state = ClientEnded | ClientConnected | ClientReconnecting

text \<open>What the libraries answer in one attempt.\<close>

record attempt =
  read_key :: "unit res"
  parse_key :: "unit res"
  load_known_hosts :: "unit res"
  ssh_dial :: "unit res"
  new_sftp :: "unit res"
  listen :: "unit res"
  open_db :: "unit res"
  ping_db :: "unit res"
  open_session_store :: "unit res"
  first_device :: "unit res"
  start_bridge :: "unit res"
  client_at_stop :: client_state
  ended_by :: "go_error option"

text \<open>What \<open>Open\<close> does before it dials.\<close>

definition open_steps :: "config \<Rightarrow> attempt \<Rightarrow> unit res" where
  "open_steps c a =
     (case read_key a of
        Inl e \<Rightarrow> Inl (Wrapped ''read ssh key'' e)
      | Inr _ \<Rightarrow>
          (case parse_key a of
             Inl e \<Rightarrow> Inl (Wrapped ''parse ssh key'' e)
           | Inr _ \<Rightarrow>
               (case (if ssh_known_hosts_path c = '''' then Inr () else load_known_hosts a) of
                  Inl e \<Rightarrow> Inl (Wrapped ''load known_hosts'' e)
                | Inr _ \<Rightarrow> Inr ())))"

definition int_text :: "int \<Rightarrow> string" where
  "int_text n = (if n < 0 then ''-'' @ decimal (nat (- n)) else decimal (nat n))"

text \<open>\<open>net.JoinHostPort\<close>, and \<open>LocalMySQLAddr\<close>.\<close>

definition join_host_port :: "string \<Rightarrow> string \<Rightarrow> string" where
  "join_host_port host port =
     (if CHR '':'' \<in> set host then ''['' @ host @ '']:'' @ port else host @ '':'' @ port)"

definition LocalMySQLAddr :: "config \<Rightarrow> string" where
  "LocalMySQLAddr c = ''127.0.0.1:'' @ int_text (mysql_local_tunnel_port c)"

definition tunnel_Open :: "config \<Rightarrow> attempt \<Rightarrow> unit res \<times> effect list" where
  "tunnel_Open c a =
     (case open_steps c a of
        Inl e \<Rightarrow> (Inl e, [])
      | Inr _ \<Rightarrow>
          (case ssh_dial a of
             Inl e \<Rightarrow>
               (Inl (Wrapped (''ssh dial '' @ join_host_port (ssh_host c) (int_text (ssh_port c))) e), [])
           | Inr _ \<Rightarrow>
               (case new_sftp a of
                  Inl e \<Rightarrow> (Inl (Wrapped ''sftp init'' e), [Acquire SshClient, Release SshClient])
                | Inr _ \<Rightarrow>
                    (case listen a of
                       Inl e \<Rightarrow>
                         (Inl (Wrapped (''listen '' @ LocalMySQLAddr c) e),
                          [Acquire SshClient, Acquire SftpClient, Release SftpClient, Release SshClient])
                     | Inr _ \<Rightarrow>
                         (Inr (), [Acquire SshClient, Acquire SftpClient, Acquire Listener])))))"

definition tunnel_Close :: "effect list" where
  "tunnel_Close = [Release Listener, Release SftpClient, Release SshClient]"

definition store_Open :: "attempt \<Rightarrow> unit res \<times> effect list" where
  "store_Open a =
     (case open_db a of
        Inl e \<Rightarrow> (Inl (Wrapped ''sql.Open'' e), [])
      | Inr _ \<Rightarrow>
          (case ping_db a of
             Inl e \<Rightarrow> (Inl (Wrapped ''ping mysql'' e), [Acquire Database, Release Database])
           | Inr _ \<Rightarrow> (Inr (), [Acquire Database])))"

text \<open>\<open>wabridge.New\<close> and \<open>Stop\<close>, which disconnects a client that is connected and does nothing else.\<close>

definition bridge_New :: "attempt \<Rightarrow> unit res \<times> effect list" where
  "bridge_New a =
     (case open_session_store a of
        Inl e \<Rightarrow> (Inl (Wrapped ''open whatsmeow sqlite store'' e), [])
      | Inr _ \<Rightarrow>
          (case first_device a of
             Inl e \<Rightarrow> (Inl (Wrapped ''get device'' e), [Acquire SessionStore])
           | Inr _ \<Rightarrow> (Inr (), [Acquire SessionStore])))"

definition bridge_Stop :: "client_state \<Rightarrow> effect list" where
  "bridge_Stop client = (if client = ClientConnected then [Release WaConnection] else [])"

section \<open>One attempt\<close>

text \<open>
  \<open>runOnce\<close>: the deferred calls run in reverse. A \<open>Connect\<close> that fails leaves no client; one that
  succeeds starts it. After the start the attempt waits for the first of its watchers, whose
  error is \<open>ended_by\<close> (none for a tunnel that closed without one).
\<close>

definition run_bridge :: "attempt \<Rightarrow> go_error \<times> effect list" where
  "run_bridge a =
     (case start_bridge a of
        Inl e \<Rightarrow> (Wrapped ''start whatsmeow'' e, bridge_Stop ClientEnded)
      | Inr _ \<Rightarrow>
          ((case ended_by a of Some e \<Rightarrow> e | None \<Rightarrow> ErrText ''ssh tunnel closed''),
           Acquire WaConnection
             # (if client_at_stop a = ClientEnded then [Release WaConnection] else [])
             @ bridge_Stop (client_at_stop a)))"

definition runOnce :: "config \<Rightarrow> attempt \<Rightarrow> go_error \<times> effect list" where
  "runOnce c a =
     (case tunnel_Open c a of
        (Inl e, fx) \<Rightarrow> (Wrapped ''open tunnel'' e, fx)
      | (Inr _, fx) \<Rightarrow>
          (case store_Open a of
             (Inl e, fs) \<Rightarrow> (Wrapped ''open mysql via tunnel'' e, fx @ fs @ tunnel_Close)
           | (Inr _, fs) \<Rightarrow>
               (case bridge_New a of
                  (Inl e, fb) \<Rightarrow>
                    (Wrapped ''init whatsmeow'' e, fx @ fs @ fb @ [Release Database] @ tunnel_Close)
                | (Inr _, fb) \<Rightarrow>
                    (case run_bridge a of
                       (e, fr) \<Rightarrow> (e, fx @ fs @ fb @ fr @ [Release Database] @ tunnel_Close)))))"

section \<open>The supervisor\<close>

definition maxBackoff :: int where
  "maxBackoff = 60 * second"

definition pause_after :: "int \<Rightarrow> int \<Rightarrow> int" where
  "pause_after took backoff = (if 2 * minute < took then 2 * second else backoff)"

definition next_backoff :: "int \<Rightarrow> int" where
  "next_backoff pause = (if maxBackoff < pause * 2 then maxBackoff else pause * 2)"

text \<open>
  The context: the time at which it is cancelled, if it ever is. A round is the start of an
  attempt and the pause announced after it; the argument lists how long each attempt runs.
\<close>

definition cancelled_by :: "int option \<Rightarrow> int \<Rightarrow> bool" where
  "cancelled_by cancel now \<longleftrightarrow> (case cancel of None \<Rightarrow> False | Some t \<Rightarrow> t \<le> now)"

fun supervise_from :: "int option \<Rightarrow> int \<Rightarrow> int \<Rightarrow> int list \<Rightarrow> (int \<times> int option) list" where
  "supervise_from cancel now backoff [] = []"
| "supervise_from cancel now backoff (took # runs) =
     (if cancelled_by cancel now then []
      else if cancelled_by cancel (now + took) then [(now, None)]
      else
        (let pause = pause_after took backoff
         in if cancelled_by cancel (now + took + pause) then [(now, Some pause)]
            else (now, Some pause)
              # supervise_from cancel (now + took + pause) (next_backoff pause) runs))"

definition supervise :: "int option \<Rightarrow> int \<Rightarrow> int list \<Rightarrow> (int \<times> int option) list" where
  "supervise cancel now runs = supervise_from cancel now (2 * second) runs"

text \<open>When it returns; \<open>None\<close> while it is still running after the attempts listed.\<close>

fun supervise_end :: "int option \<Rightarrow> int \<Rightarrow> int \<Rightarrow> int list \<Rightarrow> int option" where
  "supervise_end cancel now backoff [] = (if cancelled_by cancel now then Some now else None)"
| "supervise_end cancel now backoff (took # runs) =
     (if cancelled_by cancel now then Some now
      else if cancelled_by cancel (now + took) then Some (now + took)
      else
        (let pause = pause_after took backoff
         in if cancelled_by cancel (now + took + pause) then cancel
            else supervise_end cancel (now + took + pause) (next_backoff pause) runs))"

text \<open>\<open>runForeground\<close>: a context nobody cancels.\<close>

definition runForeground :: "int \<Rightarrow> int list \<Rightarrow> int option" where
  "runForeground now runs = supervise_end None now (2 * second) runs"

text \<open>
  What the service manager calls. \<open>Stop\<close> cancels the context and waits for the supervisor, at
  most ten seconds; the result is the time at which it returns.
\<close>

record program =
  p_started :: "int option"
  p_cancelled :: "int option"

definition program_Start :: "int \<Rightarrow> program \<Rightarrow> program" where
  "program_Start now p = p\<lparr>p_started := Some now, p_cancelled := None\<rparr>"

definition program_Stop :: "int \<Rightarrow> int list \<Rightarrow> program \<Rightarrow> int \<times> program" where
  "program_Stop now runs p =
     (case p_started p of
        None \<Rightarrow> (now, p)
      | Some start \<Rightarrow>
          (let cancel = (case p_cancelled p of None \<Rightarrow> Some now | Some t \<Rightarrow> Some t)
           in (case supervise_end cancel start (2 * second) runs of
                 None \<Rightarrow> now + 10 * second
               | Some e \<Rightarrow> min (max now e) (now + 10 * second),
               p\<lparr>p_cancelled := cancel\<rparr>)))"

section \<open>What an attempt leaves open\<close>

text \<open>The open resources, last one first; releasing what is not open is an error.\<close>

fun hold :: "resource list \<Rightarrow> effect list \<Rightarrow> resource list option" where
  "hold h [] = Some h"
| "hold h (Acquire r # fx) = hold (r # h) fx"
| "hold h (Release r # fx) = (if r \<in> set h then hold (remove1 r h) fx else None)"

lemma hold_append: "hold h (fx @ gx) = (case hold h fx of None \<Rightarrow> None | Some h1 \<Rightarrow> hold h1 gx)"
  by (induction h fx rule: hold.induct) simp_all

definition opens_session_store :: "config \<Rightarrow> attempt \<Rightarrow> bool" where
  "opens_session_store c a \<longleftrightarrow>
     fst (tunnel_Open c a) = Inr () \<and> fst (store_Open a) = Inr () \<and> open_session_store a = Inr ()"

text \<open>The attempts whose client runs and is not connected at the stop.\<close>

definition leaves_client :: "config \<Rightarrow> attempt \<Rightarrow> bool" where
  "leaves_client c a \<longleftrightarrow>
     opens_session_store c a \<and> first_device a = Inr () \<and> start_bridge a = Inr () \<and>
     client_at_stop a = ClientReconnecting"

definition left_open :: "config \<Rightarrow> attempt \<Rightarrow> resource list" where
  "left_open c a =
     (if leaves_client c a then [WaConnection] else []) @
     (if opens_session_store c a then [SessionStore] else [])"

lemma tunnel_effects:
  "fst (tunnel_Open c a) = Inr () \<Longrightarrow>
     snd (tunnel_Open c a) = [Acquire SshClient, Acquire SftpClient, Acquire Listener]"
  "fst (tunnel_Open c a) = Inl e \<Longrightarrow> hold h (snd (tunnel_Open c a)) = Some h"
  by (auto simp: tunnel_Open_def split: sum.splits)

lemma store_effects:
  "fst (store_Open a) = Inr () \<Longrightarrow> snd (store_Open a) = [Acquire Database]"
  "fst (store_Open a) = Inl e \<Longrightarrow> hold h (snd (store_Open a)) = Some h"
  by (auto simp: store_Open_def split: sum.splits)

lemma bridge_effects:
  "snd (bridge_New a) = (if open_session_store a = Inr () then [Acquire SessionStore] else [])"
  "fst (bridge_New a) = Inr () \<longleftrightarrow> open_session_store a = Inr () \<and> first_device a = Inr ()"
  by (auto simp: bridge_New_def split: sum.split)

lemma run_effects:
  "hold h (snd (run_bridge a)) =
    Some ((if start_bridge a = Inr () \<and> client_at_stop a = ClientReconnecting then [WaConnection] else []) @ h)"
  by (cases "client_at_stop a") (simp_all add: run_bridge_def bridge_Stop_def split: sum.split)

lemma attempt_holds: "hold h (snd (runOnce c a)) = Some (left_open c a @ h)"
proof (cases "fst (tunnel_Open c a)")
  case (Inl e)
  then show ?thesis
    using tunnel_effects(2) [OF Inl, of h]
    by (cases "tunnel_Open c a") (simp add: runOnce_def left_open_def leaves_client_def opens_session_store_def)
next
  case t: (Inr u)
  obtain fx where fx: "tunnel_Open c a = (Inr (), fx)" "fx = [Acquire SshClient, Acquire SftpClient, Acquire Listener]"
    using t tunnel_effects(1) [of c a] by (cases "tunnel_Open c a") auto
  show ?thesis
  proof (cases "fst (store_Open a)")
    case (Inl e)
    then obtain fs where "store_Open a = (Inl e, fs)" "\<And>h. hold h fs = Some h"
      using store_effects(2) [OF Inl] by (cases "store_Open a") auto
    then show ?thesis
      by (simp add: runOnce_def left_open_def leaves_client_def opens_session_store_def fx hold_append tunnel_Close_def)
  next
    case (Inr v)
    then have fs: "store_Open a = (Inr (), [Acquire Database])"
      using store_effects(1) [of a] by (cases "store_Open a") auto
    obtain x fb where b: "bridge_New a = (x, fb)" "fb = (if open_session_store a = Inr () then [Acquire SessionStore] else [])"
      "x = Inr () \<longleftrightarrow> open_session_store a = Inr () \<and> first_device a = Inr ()"
      using bridge_effects [of a] by (cases "bridge_New a") auto
    obtain e fr where r: "run_bridge a = (e, fr)"
      "\<And>h. hold h fr = Some ((if start_bridge a = Inr () \<and> client_at_stop a = ClientReconnecting then [WaConnection] else []) @ h)"
      using run_effects [of _ a] by (cases "run_bridge a") auto
    show ?thesis
      using b(3)
      by (cases x) (auto simp: runOnce_def left_open_def leaves_client_def opens_session_store_def fx fs b(1,2) r
          hold_append tunnel_Close_def)
  qed
qed

lemma attempts_hold:
  "hold h (concat (map (\<lambda>a. snd (runOnce c a)) as)) = Some (concat (map (left_open c) (rev as)) @ h)"
  by (induction as arbitrary: h) (simp_all add: hold_append attempt_holds)

lemma left_open_counts:
  "count_list (concat (map (left_open c) as)) r =
    (if r = SessionStore then length (filter (opens_session_store c) as)
     else if r = WaConnection then length (filter (leaves_client c) as) else 0)"
  by (induction as) (auto simp: left_open_def)

text \<open>C39: Over any attempts, wherever they fail, everything acquired is released except one SQLite container for each attempt that opened it and one WhatsApp client for each attempt that ended while its started client was reconnecting, which Stop passes over.\<close>

theorem attempts_leave_stores_and_clients:
  "\<exists>h. hold [] (concat (map (\<lambda>a. snd (runOnce c a)) as)) = Some h \<and>
    count_list h SessionStore = length (filter (opens_session_store c) as) \<and>
    count_list h WaConnection = length (filter (leaves_client c) as) \<and>
    set h \<subseteq> {SessionStore, WaConnection}"
proof -
  let ?h = "concat (map (left_open c) (rev as))"
  have "set ?h \<subseteq> {SessionStore, WaConnection}" by (auto simp: left_open_def split: if_splits)
  moreover have "count_list ?h SessionStore = length (filter (opens_session_store c) as)"
    "count_list ?h WaConnection = length (filter (leaves_client c) as)"
    by (simp_all add: left_open_counts rev_filter [symmetric])
  ultimately show ?thesis using attempts_hold [of "[]" c as] by auto
qed

section \<open>The pauses\<close>

lemma next_backoff_bounds: "2 * second \<le> b \<Longrightarrow> 2 * second \<le> next_backoff b \<and> next_backoff b \<le> maxBackoff"
  by (simp add: next_backoff_def maxBackoff_def second_def)

lemma pause_after_bounds:
  "2 * second \<le> b \<Longrightarrow> b \<le> maxBackoff \<Longrightarrow> 2 * second \<le> pause_after took b \<and> pause_after took b \<le> maxBackoff"
  by (simp add: pause_after_def maxBackoff_def second_def)

definition pause_ok :: "int option \<Rightarrow> bool" where
  "pause_ok p \<longleftrightarrow> (case p of None \<Rightarrow> True | Some d \<Rightarrow> 2 * second \<le> d \<and> d \<le> maxBackoff)"

lemma pauses_bounded:
  "2 * second \<le> b \<Longrightarrow> b \<le> maxBackoff \<Longrightarrow> list_all pause_ok (map snd (supervise_from c now b runs))"
proof (induction c now b runs rule: supervise_from.induct)
  case (2 c now b took runs)
  have p: "pause_ok (Some (pause_after took b))" "2 * second \<le> pause_after took b"
    using pause_after_bounds [OF 2(2,3)] by (simp_all add: pause_ok_def)
  have none: "pause_ok None" by (simp add: pause_ok_def)
  show ?case using 2(1) next_backoff_bounds [OF p(2)] p none by (simp add: Let_def)
qed simp

definition nth_pause :: "nat \<Rightarrow> int" where
  "nth_pause k = min maxBackoff (2 * second * 2 ^ k)"

lemma nth_pause_Suc: "next_backoff (nth_pause k) = nth_pause (Suc k)"
  by (auto simp: next_backoff_def nth_pause_def maxBackoff_def second_def min_def)

lemma short_runs:
  "list_all (\<lambda>t. t \<le> 2 * minute) runs \<Longrightarrow>
    map snd (supervise_from None now (nth_pause k) runs) = map (\<lambda>i. Some (nth_pause i)) [k ..< k + length runs]"
proof (induction runs arbitrary: now k)
  case (Cons took runs)
  then show ?case
    by (simp add: cancelled_by_def pause_after_def Let_def nth_pause_Suc upt_conv_Cons del: upt_Suc)
qed simp

text \<open>A cancelled run starts the attempts of the uncancelled one up to the first that comes too late.\<close>

lemma late_start: "t \<le> now \<Longrightarrow> takeWhile (\<lambda>s. s < t) (map fst (supervise_from None now b runs)) = []"
  by (cases runs) (simp_all add: cancelled_by_def Let_def)

lemma cancelled_starts:
  "2 * second \<le> b \<Longrightarrow> b \<le> maxBackoff \<Longrightarrow>
    map fst (supervise_from (Some t) now b runs) = takeWhile (\<lambda>s. s < t) (map fst (supervise_from None now b runs))"
proof (induction runs arbitrary: now b)
  case (Cons took runs)
  have p: "2 * second \<le> pause_after took b" "0 < pause_after took b"
    using pause_after_bounds [OF Cons.prems, of took] by (simp_all add: second_def)
  note nb = next_backoff_bounds [OF p(1)]
  have later: "t \<le> now + took + pause_after took b \<Longrightarrow> takeWhile (\<lambda>s. s < t)
      (map fst (supervise_from None (now + took + pause_after took b) (next_backoff (pause_after took b)) runs)) = []"
    by (rule late_start)
  show ?case
    using Cons.IH [of "next_backoff (pause_after took b)" "now + took + pause_after took b"] nb p(2) later
    by (simp add: cancelled_by_def Let_def)
qed simp

text \<open>C38: Every pause between two attempts lies between two seconds and a minute; after short attempts the pauses double from two seconds up to the cap; a cancelled supervisor starts exactly the attempts that an uncancelled one starts before the cancellation.\<close>

theorem reconnect_pauses:
  "list_all (\<lambda>r. case snd r of None \<Rightarrow> True | Some p \<Rightarrow> 2 * second \<le> p \<and> p \<le> 60 * second) (supervise cancel now runs) \<and>
   (list_all (\<lambda>t. t \<le> 2 * minute) runs \<longrightarrow>
      map snd (supervise None now runs) = map (\<lambda>k. Some (min (60 * second) (2 * second * 2 ^ k))) [0 ..< length runs]) \<and>
   map fst (supervise (Some t) now runs) = takeWhile (\<lambda>s. s < t) (map fst (supervise None now runs))"
proof -
  have zero: "2 * second = nth_pause 0" by (simp add: nth_pause_def maxBackoff_def second_def)
  have b: "2 * second \<le> 2 * second" "2 * second \<le> maxBackoff" by (simp_all add: maxBackoff_def second_def)
  have 1: "list_all pause_ok (map snd (supervise cancel now runs))"
    unfolding supervise_def by (rule pauses_bounded [OF b])
  have 2: "list_all (\<lambda>t. t \<le> 2 * minute) runs \<Longrightarrow>
      map snd (supervise None now runs) = map (\<lambda>i. Some (nth_pause i)) [0 ..< length runs]"
    using short_runs [of runs now 0] unfolding supervise_def zero by simp
  have 3: "map fst (supervise (Some t) now runs) = takeWhile (\<lambda>s. s < t) (map fst (supervise None now runs))"
    unfolding supervise_def by (rule cancelled_starts [OF b])
  have ok: "pause_ok = (\<lambda>p. case p of None \<Rightarrow> True | Some d \<Rightarrow> 2 * second \<le> d \<and> d \<le> 60 * second)"
    by (rule ext) (simp add: pause_ok_def maxBackoff_def split: option.split)
  show ?thesis using 1 2 3
    by (simp add: list.pred_map o_def ok maxBackoff_def nth_pause_def [abs_def])
qed

theorem reconnect_pauses_witness:
  "map snd (supervise None 0 [second, second, second]) = [Some (2 * second), Some (4 * second), Some (8 * second)]"
  using reconnect_pauses [of None 0 "[second, second, second]" 0]
  by (simp add: second_def minute_def upt_conv_Cons)

lemma foreground_never_returns: "runForeground now runs = None"
proof -
  have "supervise_end None n b runs = None" for n b
    by (induction runs arbitrary: n b) (simp_all add: cancelled_by_def Let_def)
  then show ?thesis by (simp add: runForeground_def)
qed

lemma supervise_end_after:
  "supervise_end (Some t) now b runs = Some e \<Longrightarrow> t \<le> e"
  by (induction "Some t" now b runs rule: supervise_end.induct)
    (auto simp: cancelled_by_def Let_def split: if_splits)

lemma Stop_bounded:
  "now \<le> fst (program_Stop now runs p) \<and> fst (program_Stop now runs p) \<le> now + 10 * second"
  by (simp add: program_Stop_def Let_def second_def split: option.split)

section \<open>The place of the session database\<close>

text \<open>
  The service and \<open>wabridge run\<close> start in different working directories: they see different
  answers of \<open>filepath.Abs\<close> for a relative path, the configuration directory being absolute.
\<close>

text \<open>C40: With the session database beside the configuration, loading the configuration gives the same result in every working directory.\<close>

theorem session_store_ignores_working_directory:
  assumes "file_text os path = Inr text" "unmarshal_yaml os text = Inr c"
    and "f (dir_path os path) = abs_path os (dir_path os path)"
    and "fileExists os (anchored_path os (ExpandHome os (wm_store_path (with_defaults c))) (dir_path os path))"
  shows "Load (os\<lparr>abs_path := f\<rparr>) path = Load os path \<and>
    (\<exists>c'. Load os path = Inr c' \<and> \<not> wm_legacy_store_path c' \<and>
      (is_abs os (ExpandHome os (wm_store_path (with_defaults c))) \<or>
       fileExists os (wm_store_path c')))"
proof -
  have home: "ExpandHome (os\<lparr>abs_path := f\<rparr>) p = ExpandHome os p" for p
    by (cases "user_home os") (simp_all add: ExpandHome_def)
  have anch: "anchored_path (os\<lparr>abs_path := f\<rparr>) p (dir_path os path) = anchored_path os p (dir_path os path)" for p
    using assms(3) by (simp add: anchored_path_def)
  have ex: "fileExists (os\<lparr>abs_path := f\<rparr>) p = fileExists os p" for p
    by (simp add: fileExists_def)
  show ?thesis
    using assms by (simp add: Load_def home resolveStorePath_def anch ex Let_def)
qed

definition sample_config :: config where
  "sample_config =
     \<lparr>ssh_host = ''h'', ssh_port = 0, ssh_user = ''u'', ssh_private_key_path = ''k'',
      ssh_private_key_passphrase = '''', ssh_known_hosts_path = '''', mysql_user = ''m'',
      mysql_password = ''p'', mysql_database = ''d'', mysql_local_tunnel_port = 0,
      media_remote_path = ''r'', media_public_base_url = ''b'', wm_store_path = '''',
      wm_log_level = '''', wm_legacy_store_path = False, service_name = ''n'',
      service_display_name = '''', service_description = ''''\<rparr>"

definition sample_system :: system where
  "sample_system =
     \<lparr>user_home = Inr ''/home/u'', is_abs = (\<lambda>p. has_prefix p ''/''),
      abs_path = (\<lambda>p. Inr (if has_prefix p ''/'' then p else ''/cwd/'' @ p)),
      join_path = (\<lambda>a b. a @ ''/'' @ b), dir_path = (\<lambda>_. ''/opt''),
      stat_dir = (\<lambda>p. if p = ''/opt/whatsmeow.db'' then Inr False else Inl (ErrText ''none'')),
      file_text = (\<lambda>_. Inr ''yaml''), unmarshal_yaml = (\<lambda>_. Inr sample_config)\<rparr>"

theorem session_store_ignores_working_directory_witness:
  "Load (sample_system\<lparr>abs_path := (\<lambda>p. Inr (if has_prefix p ''/'' then p else ''/windows/'' @ p))\<rparr>)
     ''/opt/config.yaml'' = Load sample_system ''/opt/config.yaml''"
proof -
  let ?f = "\<lambda>p. Inr (if has_prefix p ''/'' then p else ''/windows/'' @ p) :: string res"
  have "fileExists sample_system (anchored_path sample_system
      (ExpandHome sample_system (wm_store_path (with_defaults sample_config)))
      (dir_path sample_system ''/opt/config.yaml''))"
    by (simp add: sample_system_def sample_config_def with_defaults_def ExpandHome_def anchored_path_def
        fileExists_def has_prefix_def)
  then show ?thesis
    using session_store_ignores_working_directory [of sample_system "''/opt/config.yaml''" "''yaml''"
        sample_config ?f]
    by (simp add: sample_system_def has_prefix_def)
qed

end
