(* ===== verification/Command.thy ===== *)
theory Command
  imports CheckNumber LogPipe Service
begin

text \<open>
  \<open>main\<close> of \<open>cmd/wabridge/main.go\<close>: the command line, the log and the ways the process ends.
  The arguments are what \<open>flag.Parse\<close> leaves; the service manager (\<open>kardianos/service\<close>), the
  files and JSON are arguments of the model.
\<close>

section \<open>The surroundings of the process\<close>

record service_config =
  sv_name :: string
  sv_display_name :: string
  sv_description :: string
  sv_arguments :: "string list"

record cli =
  cl_version :: string
  cl_config :: string
  cl_args :: "string list"
  cl_executable :: "string res"
  cl_files :: system
  cl_pipe :: "unit res"
  cl_log_file :: "string \<Rightarrow> rotating_file"
  cl_codec :: codec
  cl_nonce :: string
  cl_looks :: "(check_dir \<times> unit \<Rightarrow> check_dir \<times> unit) list"
  cl_check_dir :: "string \<Rightarrow> check_dir"
  cl_indented :: "check_result \<Rightarrow> string"
  cl_new_service :: "service_config \<Rightarrow> unit res"
  cl_control :: "string \<Rightarrow> unit res"
  cl_service_run :: "unit res"
  cl_started :: int
  cl_attempts :: "int list"

text \<open>
  What the process does, in order; \<open>Supervises\<close> is \<open>runForeground\<close>, \<open>ServiceRuns\<close> is
  \<open>svc.Run\<close>. It ends with an exit code, or is still running when the attempts are over.
\<close>

datatype act =
  Printed string
| Logged string
| LogOpened string bool
| LogClosed
| ServiceMade service_config
| Controlled string
| Supervises config
| ServiceRuns config

type_synonym outcome = "act list \<times> nat option"

section \<open>The command line\<close>

definition flag_arg :: "nat \<Rightarrow> cli \<Rightarrow> string" where
  "flag_arg i cl = (if i < length (cl_args cl) then cl_args cl ! i else '''')"

text \<open>\<open>log.Fatalf\<close> logs and exits at once: deferred calls are not made.\<close>

definition log_fatal :: "act list \<Rightarrow> string \<Rightarrow> outcome" where
  "log_fatal acts t = (acts @ [Logged t], Some 1)"

definition config_path :: "cli \<Rightarrow> string res" where
  "config_path cl =
     (if cl_config cl = '''' then
        (case cl_executable cl of
           Inl e \<Rightarrow> Inl e
         | Inr exe \<Rightarrow>
             Inr (join_path (cl_files cl) (dir_path (cl_files cl) exe) ''config.yaml''))
      else Inr (cl_config cl))"

definition FileName :: string where
  "FileName = ''wabridge.log''"

text \<open>\<open>startLogging\<close>: what it does, and what the function it returns will do.\<close>

definition startLogging :: "cli \<Rightarrow> string \<Rightarrow> config \<Rightarrow> bool \<Rightarrow> act list \<times> act list" where
  "startLogging cl path cfg tee =
     (let file = join_path (cl_files cl) (dir_path (cl_files cl) path) FileName;
          opened =
            (case Setup (cl_pipe cl) tee (cl_log_file cl file) of
               Inl e \<Rightarrow> ([Logged (''wabridge: log file unavailable: '' @ error_text e)], [])
             | Inr _ \<Rightarrow> ([LogOpened file tee], [LogClosed]))
      in (fst opened
            @ [Logged (''wabridge '' @ cl_version cl @ '' starting - whatsmeow store: '' @ wm_store_path cfg)]
            @ (if wm_legacy_store_path cfg
               then [Logged (''wabridge: using legacy store path relative to the working directory; ''
                       @ ''move it next to the binary to silence this'')]
               else []),
          snd opened))"

definition run_check :: "cli \<Rightarrow> string \<Rightarrow> outcome" where
  "run_check cl dir =
     (if length (cl_args cl) \<noteq> 2 then log_fatal [] ''usage: wabridge check-number +525512345678''
      else
        (case fst (RequestCheckNumber (cl_codec cl) (cl_nonce cl) (flag_arg 1 cl) (cl_looks cl)
               (cl_check_dir cl dir, ())) of
           Inl e \<Rightarrow> log_fatal [] (''check-number: '' @ error_text e)
         | Inr res \<Rightarrow>
             ([Printed (cl_indented cl res)],
              Some (if cr_error res \<noteq> '''' \<and> \<not> cr_is_in res then 1 else 0))))"

definition service_of :: "config \<Rightarrow> service_config" where
  "service_of cfg =
     \<lparr>sv_name = service_name cfg, sv_display_name = service_display_name cfg,
      sv_description = service_description cfg, sv_arguments = [''run'']\<rparr>"

definition run_bridge_command :: "cli \<Rightarrow> string \<Rightarrow> config \<Rightarrow> outcome" where
  "run_bridge_command cl path cfg =
     (let made = [ServiceMade (service_of cfg)]
      in if cl_args cl \<noteq> [] then
           (let cmd = flag_arg 0 cl
            in if cmd = ''run'' then
                 (case startLogging cl path cfg True of
                    (acts, closing) \<Rightarrow>
                      (case runForeground (cl_started cl) (cl_attempts cl) of
                         None \<Rightarrow> (made @ acts @ [Supervises cfg], None)
                       | Some _ \<Rightarrow> (made @ acts @ [Supervises cfg] @ closing, Some 0)))
               else
                 (case cl_control cl cmd of
                    Inl e \<Rightarrow> log_fatal made (''service '' @ cmd @ '': '' @ error_text e)
                  | Inr _ \<Rightarrow> (made @ [Controlled cmd, Printed (''service: '' @ cmd @ '' OK'')], Some 0)))
         else
           (case startLogging cl path cfg False of
              (acts, closing) \<Rightarrow>
                (case cl_service_run cl of
                   Inl e \<Rightarrow>
                     log_fatal (made @ acts @ [ServiceRuns cfg]) (''service run: '' @ error_text e)
                 | Inr _ \<Rightarrow> (made @ acts @ [ServiceRuns cfg] @ closing, Some 0))))"

definition main :: "cli \<Rightarrow> outcome" where
  "main cl =
     (if flag_arg 0 cl = ''version'' then ([Printed (cl_version cl)], Some 0)
      else
        (case config_path cl of
           Inl e \<Rightarrow> log_fatal [] (''locate executable: '' @ error_text e)
         | Inr path \<Rightarrow>
             if flag_arg 0 cl = ''check-number'' then run_check cl (dir_path (cl_files cl) path)
             else
               (case Load (cl_files cl) path of
                  Inl e \<Rightarrow> log_fatal [] (''load config: '' @ error_text e)
                | Inr cfg \<Rightarrow>
                    (case cl_new_service cl (service_of cfg) of
                       Inl e \<Rightarrow> log_fatal [] (''service.New: '' @ error_text e)
                     | Inr _ \<Rightarrow> run_bridge_command cl path cfg))))"

section \<open>How the process ends\<close>

definition logs :: "act list \<Rightarrow> act list" where
  "logs acts = filter (\<lambda>a. case a of LogOpened _ _ \<Rightarrow> True | LogClosed \<Rightarrow> True | _ \<Rightarrow> False) acts"

definition bridges :: "act list \<Rightarrow> act list" where
  "bridges acts = filter (\<lambda>a. case a of Supervises _ \<Rightarrow> True | ServiceRuns _ \<Rightarrow> True | _ \<Rightarrow> False) acts"

lemma logs_simps [simp]:
  "logs [] = []" "logs (as @ bs) = logs as @ logs bs"
  "logs (Printed t # as) = logs as" "logs (Logged t # as) = logs as"
  "logs (LogOpened f b # as) = LogOpened f b # logs as" "logs (LogClosed # as) = LogClosed # logs as"
  "logs (ServiceMade v # as) = logs as" "logs (Controlled t # as) = logs as"
  "logs (Supervises c # as) = logs as" "logs (ServiceRuns c # as) = logs as"
  by (simp_all add: logs_def)

lemma bridges_simps [simp]:
  "bridges [] = []" "bridges (as @ bs) = bridges as @ bridges bs"
  "bridges (Printed t # as) = bridges as" "bridges (Logged t # as) = bridges as"
  "bridges (LogOpened f b # as) = bridges as" "bridges (LogClosed # as) = bridges as"
  "bridges (ServiceMade v # as) = bridges as" "bridges (Controlled t # as) = bridges as"
  "bridges (Supervises c # as) = Supervises c # bridges as"
  "bridges (ServiceRuns c # as) = ServiceRuns c # bridges as"
  by (simp_all add: bridges_def)

lemma startLogging_logs:
  "startLogging cl path cfg tee = (acts, closing) \<Longrightarrow>
    bridges acts = [] \<and> bridges closing = [] \<and>
    ((logs acts = [] \<and> closing = []) \<or>
     (logs acts = [LogOpened (join_path (cl_files cl) (dir_path (cl_files cl) path) FileName) tee] \<and>
      closing = [LogClosed]))"
  by (auto simp: startLogging_def Let_def split: sum.splits if_splits)

lemma log_fatal_simps [simp]:
  "snd (log_fatal acts t) = Some 1" "bridges (fst (log_fatal acts t)) = bridges acts" "logs (fst (log_fatal acts t)) = logs acts"
  by (simp_all add: log_fatal_def)

lemma no_bridge_before_config:
  "bridges (fst (run_check cl dir)) = [] \<and> logs (fst (run_check cl dir)) = []"
  by (simp add: run_check_def split: sum.split)

lemma bridge_command:
  assumes "run_bridge_command cl path cfg = (acts, code)"
  shows "bridges acts = (if cl_args cl = [] then [ServiceRuns cfg]
      else if flag_arg 0 cl = ''run'' then [Supervises cfg] else [])"
    and "cl_args cl \<noteq> [] \<Longrightarrow> flag_arg 0 cl \<noteq> ''run'' \<Longrightarrow> logs acts = []"
    and "cl_args cl \<noteq> [] \<Longrightarrow> flag_arg 0 cl = ''run'' \<Longrightarrow> code = None"
    and "code = Some 0 \<Longrightarrow> logs acts = [] \<or> (\<exists>f. logs acts = [LogOpened f False, LogClosed])"
    and "code = Some 1 \<Longrightarrow> \<exists>before t. acts = before @ [Logged t]"
proof -
  obtain a1 c1 where t: "startLogging cl path cfg True = (a1, c1)" by (rule prod.exhaust)
  obtain a2 c2 where f: "startLogging cl path cfg False = (a2, c2)" by (rule prod.exhaust)
  note l1 = startLogging_logs [OF t] and l2 = startLogging_logs [OF f]
  note unf = run_bridge_command_def foreground_never_returns t f Let_def
  show "bridges acts = (if cl_args cl = [] then [ServiceRuns cfg]
      else if flag_arg 0 cl = ''run'' then [Supervises cfg] else [])"
    using assms l1 l2 by (auto simp: unf log_fatal_def split: sum.splits if_splits)
  show "cl_args cl \<noteq> [] \<Longrightarrow> flag_arg 0 cl \<noteq> ''run'' \<Longrightarrow> logs acts = []"
    using assms by (auto simp: unf log_fatal_def split: sum.splits)
  show "cl_args cl \<noteq> [] \<Longrightarrow> flag_arg 0 cl = ''run'' \<Longrightarrow> code = None"
    using assms by (simp add: unf)
  show "code = Some 0 \<Longrightarrow> logs acts = [] \<or> (\<exists>f. logs acts = [LogOpened f False, LogClosed])"
    using assms l2 by (auto simp: unf log_fatal_def split: sum.splits if_splits)
  show "code = Some 1 \<Longrightarrow> \<exists>before t. acts = before @ [Logged t]"
    using assms by (auto simp: unf log_fatal_def split: sum.splits if_splits)
qed

text \<open>The four ways through \<open>main\<close>.\<close>

lemma main_cases:
  obtains (version) "main cl = ([Printed (cl_version cl)], Some 0)"
  | (failed) t where "main cl = log_fatal [] t"
  | (check) path where "main cl = run_check cl (dir_path (cl_files cl) path)"
  | (bridge) path cfg where "config_path cl = Inr path" "Load (cl_files cl) path = Inr cfg"
      "main cl = run_bridge_command cl path cfg"
proof (cases "flag_arg 0 cl = ''version''")
  case True
  show thesis by (rule version) (simp add: main_def True)
next
  case v: False
  show thesis
  proof (cases "config_path cl")
    case (Inl e)
    show thesis by (rule failed) (simp add: main_def v Inl)
  next
    case p: (Inr path)
    show thesis
    proof (cases "flag_arg 0 cl = ''check-number''")
      case True
      show thesis by (rule check [of path]) (simp add: main_def p True)
    next
      case c: False
      show thesis
      proof (cases "Load (cl_files cl) path")
        case (Inl e)
        show thesis by (rule failed) (simp add: main_def v p c Inl)
      next
        case l: (Inr cfg)
        show thesis
        proof (cases "cl_new_service cl (service_of cfg)")
          case (Inl e)
          show thesis by (rule failed) (simp add: main_def v p c l Inl)
        next
          case (Inr u)
          show thesis by (rule bridge [OF p l]) (simp add: main_def v p c l Inr)
        qed
      qed
    qed
  qed
qed

lemma check_ends:
  assumes "run_check cl dir = (acts, code)"
  shows "bridges acts = [] \<and> logs acts = [] \<and> (code = Some 1 \<longrightarrow> (\<exists>before t. acts = before @ [Logged t]) \<or>
      (\<exists>res. acts = [Printed (cl_indented cl res)] \<and> cr_error res \<noteq> '''' \<and> \<not> cr_is_in res))"
  using assms no_bridge_before_config [of cl dir]
  by (auto simp: run_check_def log_fatal_def split: sum.splits if_splits)

text \<open>C35: A bridge runs only for no arguments (under the service manager) or for "run", with the loaded configuration, and "run" does not return; a process that ends with 0 has closed the log it opened, and one that ends with 1 has logged the reason last or printed the error of a number check.\<close>

theorem command_outcomes:
  assumes "main cl = (acts, code)"
  shows "(bridges acts \<noteq> [] \<longrightarrow> (\<exists>path cfg. config_path cl = Inr path \<and> Load (cl_files cl) path = Inr cfg \<and>
      (bridges acts = [ServiceRuns cfg] \<and> cl_args cl = [] \<or>
       bridges acts = [Supervises cfg] \<and> flag_arg 0 cl = ''run'' \<and> code = None))) \<and>
    (code = Some 0 \<longrightarrow> logs acts = [] \<or> (\<exists>f. logs acts = [LogOpened f False, LogClosed])) \<and>
    (code = Some 1 \<longrightarrow> (\<exists>before t. acts = before @ [Logged t]) \<or>
      (\<exists>res. acts = [Printed (cl_indented cl res)] \<and> cr_error res \<noteq> '''' \<and> \<not> cr_is_in res))"
proof (cases rule: main_cases [of cl])
  case (check path)
  then show ?thesis using assms check_ends [of cl "dir_path (cl_files cl) path" acts code] by simp
next
  case (bridge path cfg)
  then have "run_bridge_command cl path cfg = (acts, code)" using assms by simp
  note b = bridge_command [OF this]
  show ?thesis using b bridge(1,2) by (auto split: if_splits)
qed (use assms in \<open>auto simp: log_fatal_def\<close>)

text \<open>When the service manager's run fails, the process ends with the log still open: what it logs last has only gone into the pipe.\<close>

theorem service_error_leaves_log_open:
  assumes "cl_args cl = []" "config_path cl = Inr path" "Load (cl_files cl) path = Inr cfg"
    and "cl_new_service cl (service_of cfg) = Inr ()" "cl_service_run cl = Inl e"
    and "Setup (cl_pipe cl) False (cl_log_file cl (join_path (cl_files cl) (dir_path (cl_files cl) path) FileName)) = Inr lp"
  shows "logs (fst (main cl)) = [LogOpened (join_path (cl_files cl) (dir_path (cl_files cl) path) FileName) False] \<and>
    last (fst (main cl)) = Logged (''service run: '' @ error_text e) \<and> snd (main cl) = Some 1"
  using assms
  by (simp add: main_def flag_arg_def run_bridge_command_def startLogging_def log_fatal_def Let_def)

definition sample_cli :: cli where
  "sample_cli =
     \<lparr>cl_version = ''v1'', cl_config = ''/opt/config.yaml'', cl_args = [],
      cl_executable = Inl (ErrText ''none''), cl_files = sample_system, cl_pipe = Inr (),
      cl_log_file = (\<lambda>_. new_log), cl_codec = sample_codec, cl_nonce = ''n'', cl_looks = [],
      cl_check_dir = (\<lambda>_. \<lparr>req_file = None, res_file = None, disk_answers = []\<rparr>),
      cl_indented = cr_id, cl_new_service = (\<lambda>_. Inr ()), cl_control = (\<lambda>_. Inr ()),
      cl_service_run = Inr (), cl_started = 0, cl_attempts = []\<rparr>"

lemma sample_cli_loads: "\<exists>cfg. Load sample_system ''/opt/config.yaml'' = Inr cfg"
  by (simp add: Load_def sample_system_def Let_def)

theorem command_outcomes_witness:
  "logs (fst (main sample_cli)) = [] \<or> (\<exists>f. logs (fst (main sample_cli)) = [LogOpened f False, LogClosed])"
proof -
  obtain acts code where m: "main sample_cli = (acts, code)" by (rule prod.exhaust)
  obtain cfg where l: "Load sample_system ''/opt/config.yaml'' = Inr cfg" using sample_cli_loads by blast
  obtain a c where t: "startLogging sample_cli ''/opt/config.yaml'' cfg False = (a, c)" by (rule prod.exhaust)
  have "snd (main sample_cli) = Some 0"
    using l t by (simp add: main_def run_bridge_command_def Let_def flag_arg_def config_path_def sample_cli_def)
  then show ?thesis using command_outcomes [OF m] m by simp
qed

end
