(* ===== verification/Tunnel.thy ===== *)
theory Tunnel
  imports Service "HOL-Library.Multiset"
begin

text \<open>
  The port forward of \<open>internal/tunnel/tunnel.go\<close> while it runs: \<open>acceptLoop\<close> takes connections
  of the MySQL driver and starts a \<open>handleConn\<close> for each, which dials MySQL over SSH and copies
  both ways until one side ends; \<open>Close\<close> takes down the listener and the SSH client. The
  goroutines interleave as a step relation. The bytes copied are not modelled.
\<close>

section \<open>The goroutines and their sockets\<close>

text \<open>A connection is numbered as it is accepted; \<open>handleConn\<close> first dials, then copies.\<close>

datatype handler = Dialing nat | Copying nat

primrec conn_of :: "handler \<Rightarrow> nat" where
  "conn_of (Dialing n) = n"
| "conn_of (Copying n) = n"

primrec is_copying :: "handler \<Rightarrow> bool" where
  "is_copying (Dialing n) = False"
| "is_copying (Copying n) = True"

record forward =
  f_listening :: bool
  f_client :: bool
  f_stop :: bool
  f_accepting :: bool
  f_next :: nat
  f_handlers :: "handler list"
  f_local :: "nat list"
  f_remote :: "nat list"

definition tunnel_New :: forward where
  "tunnel_New = \<lparr>f_listening = False, f_client = False, f_stop = False, f_accepting = False,
     f_next = 0, f_handlers = [], f_local = [], f_remote = []\<rparr>"

text \<open>The end of a successful \<open>Open\<close>: the client and the listener are there, the loop is started.\<close>

definition forwarding :: "forward \<Rightarrow> forward" where
  "forwarding f = f\<lparr>f_client := True, f_listening := True, f_accepting := True\<rparr>"

text \<open>One turn of \<open>acceptLoop\<close>; an error is \<open>net.ErrClosed\<close> or a passing one.\<close>

datatype accept_result = Accepted | AcceptError bool

definition accept_turn :: "accept_result \<Rightarrow> forward \<Rightarrow> forward" where
  "accept_turn r f =
     (case r of
        Accepted \<Rightarrow>
          f\<lparr>f_next := Suc (f_next f), f_local := f_next f # f_local f,
            f_handlers := Dialing (f_next f) # f_handlers f\<rparr>
      | AcceptError gone \<Rightarrow>
          if f_stop f then f\<lparr>f_accepting := False\<rparr>
          else if gone then f\<lparr>f_accepting := False\<rparr>
          else f)"

text \<open>
  \<open>handleConn\<close>: its first half ends with the dial, its second with the first copy that ends;
  the deferred calls close the remote socket and then the local one.
\<close>

definition dial_done :: "nat \<Rightarrow> unit res \<Rightarrow> forward \<Rightarrow> forward" where
  "dial_done n r f =
     (case r of
        Inl _ \<Rightarrow> f\<lparr>f_handlers := remove1 (Dialing n) (f_handlers f), f_local := remove1 n (f_local f)\<rparr>
      | Inr _ \<Rightarrow>
          f\<lparr>f_handlers := Copying n # remove1 (Dialing n) (f_handlers f), f_remote := n # f_remote f\<rparr>)"

definition copy_done :: "nat \<Rightarrow> forward \<Rightarrow> forward" where
  "copy_done n f =
     f\<lparr>f_handlers := remove1 (Copying n) (f_handlers f), f_remote := remove1 n (f_remote f),
       f_local := remove1 n (f_local f)\<rparr>"

text \<open>
  \<open>Close\<close> up to its wait for the loop, and the wait. The closing of the channel, the listener
  and the clients is one step: what others do between them they could do before.
\<close>

definition shut_down :: "forward \<Rightarrow> forward" where
  "shut_down f = f\<lparr>f_stop := True, f_listening := False, f_client := False\<rparr>"

definition close_returns :: "forward \<Rightarrow> bool" where
  "close_returns f \<longleftrightarrow> f_stop f \<and> \<not> f_accepting f"

definition tunnel_Wait :: "forward \<Rightarrow> go_error option \<Rightarrow> go_error option" where
  "tunnel_Wait f ended = (if f_client f then ended else Some (ErrText ''tunnel not open''))"

section \<open>Interleavings\<close>

text \<open>
  What the network can do: an open listener accepts or fails in passing, a closed one only
  answers \<open>net.ErrClosed\<close>; a closed SSH client dials nothing.
\<close>

inductive forward_step :: "forward \<Rightarrow> forward \<Rightarrow> bool" where
  accepts: "f_accepting f \<Longrightarrow> f_listening f \<Longrightarrow> forward_step f (accept_turn Accepted f)"
| passing_error: "f_accepting f \<Longrightarrow> f_listening f \<Longrightarrow> forward_step f (accept_turn (AcceptError False) f)"
| listener_closed: "f_accepting f \<Longrightarrow> \<not> f_listening f \<Longrightarrow> forward_step f (accept_turn (AcceptError True) f)"
| dial_fails: "Dialing n \<in> set (f_handlers f) \<Longrightarrow> forward_step f (dial_done n (Inl e) f)"
| dial_succeeds:
    "Dialing n \<in> set (f_handlers f) \<Longrightarrow> f_client f \<Longrightarrow> forward_step f (dial_done n (Inr ()) f)"
| copy_ends: "Copying n \<in> set (f_handlers f) \<Longrightarrow> forward_step f (copy_done n f)"
| closes: "\<not> f_stop f \<Longrightarrow> forward_step f (shut_down f)"

inductive_cases forward_stepE: "forward_step f g"

inductive forward_run :: "nat \<Rightarrow> forward \<Rightarrow> forward \<Rightarrow> bool" where
  stay: "forward_run 0 f f"
| more: "forward_step f g \<Longrightarrow> forward_run k g h \<Longrightarrow> forward_run (Suc k) f h"

inductive_cases forward_runE: "forward_run k f g"

section \<open>The open sockets are those of the handlers\<close>

definition sockets_held :: "forward \<Rightarrow> bool" where
  "sockets_held f \<longleftrightarrow>
     mset (f_local f) = image_mset conn_of (mset (f_handlers f)) \<and>
     mset (f_remote f) = image_mset conn_of (filter_mset is_copying (mset (f_handlers f)))"

lemma remove_handler:
  assumes "h \<in># M"
  shows "image_mset conn_of (M - {#h#}) = image_mset conn_of M - {#conn_of h#}"
  using assms by (simp add: image_mset_Diff)

lemma remove_copying:
  assumes "h \<in># M"
  shows "image_mset conn_of (filter_mset is_copying (M - {#h#})) =
    (if is_copying h then image_mset conn_of (filter_mset is_copying M) - {#conn_of h#}
     else image_mset conn_of (filter_mset is_copying M))"
  using assms by (cases "is_copying h") (simp_all add: image_mset_Diff)

lemma held_step: "forward_step f g \<Longrightarrow> sockets_held f \<Longrightarrow> sockets_held g"
proof (induction rule: forward_step.induct)
  case (dial_fails n f e)
  then show ?case
    by (simp add: sockets_held_def dial_done_def remove_handler remove_copying)
next
  case (dial_succeeds n f)
  have "n \<in># image_mset conn_of (mset (f_handlers f))" using dial_succeeds(1) by force
  then show ?case using dial_succeeds
    by (simp add: sockets_held_def dial_done_def remove_handler remove_copying)
next
  case (copy_ends n f)
  then show ?case
    by (simp add: sockets_held_def copy_done_def remove_handler remove_copying)
qed (simp_all add: sockets_held_def accept_turn_def shut_down_def)

lemma held_run: "forward_run k f g \<Longrightarrow> sockets_held f \<Longrightarrow> sockets_held g"
  by (induction rule: forward_run.induct) (simp_all add: held_step)

section \<open>After \<open>Close\<close>\<close>

definition shut :: "forward \<Rightarrow> bool" where
  "shut f \<longleftrightarrow> f_stop f \<and> \<not> f_listening f \<and> \<not> f_client f"

definition work_left :: "forward \<Rightarrow> nat" where
  "work_left f = length (f_handlers f) + (if f_accepting f then 1 else 0)"

lemma shut_step:
  assumes "forward_step f g" "shut f"
  shows "shut g \<and> work_left f = Suc (work_left g) \<and> f_next g = f_next f"
  using assms
proof (induction rule: forward_step.induct)
  case (dial_fails n f e)
  then show ?case
    using length_pos_if_in_set [OF dial_fails(1)]
    by (simp add: shut_def work_left_def dial_done_def length_remove1)
next
  case (copy_ends n f)
  then show ?case
    using length_pos_if_in_set [OF copy_ends(1)]
    by (simp add: shut_def work_left_def copy_done_def length_remove1)
qed (simp_all add: shut_def work_left_def accept_turn_def)

lemma shut_run:
  "forward_run k f g \<Longrightarrow> shut f \<Longrightarrow> shut g \<and> work_left f = k + work_left g \<and> f_next g = f_next f"
proof (induction rule: forward_run.induct)
  case (more f g k h)
  then show ?case using shut_step [of f g] by simp
qed simp

lemma can_step:
  assumes "shut f" "work_left f \<noteq> 0"
  shows "\<exists>g. forward_step f g"
proof (cases "f_handlers f")
  case Nil
  then show ?thesis
    using assms forward_step.listener_closed [of f] by (auto simp: work_left_def shut_def split: if_splits)
next
  case (Cons h hs)
  then show ?thesis
    using forward_step.dial_fails [of "conn_of h" f] forward_step.copy_ends [of "conn_of h" f]
    by (cases h) auto
qed

lemma all_released:
  assumes "sockets_held f" "work_left f = 0"
  shows "f_local f = [] \<and> f_remote f = [] \<and> \<not> f_accepting f"
  using assms by (auto simp: sockets_held_def work_left_def split: if_splits)

text \<open>C25: While the tunnel runs, the sockets open are those of the connections being handled, and after Close no connection is accepted, every goroutine ends within as many steps as there are goroutines, whatever their order, and then no socket is open and Close has returned.\<close>

theorem tunnel_close_releases:
  assumes "forward_run k (forwarding tunnel_New) f"
  shows "sockets_held f \<and>
    (shut f \<longrightarrow> (\<forall>j g. forward_run j f g \<longrightarrow>
       f_next g = f_next f \<and> j \<le> work_left f \<and>
       ((\<nexists>h. forward_step g h) \<longrightarrow>
          j = work_left f \<and> f_local g = [] \<and> f_remote g = [] \<and> close_returns g)))"
proof -
  have held: "sockets_held f"
    by (rule held_run [OF assms]) (simp add: sockets_held_def forwarding_def tunnel_New_def)
  have "f_next g = f_next f \<and> j \<le> work_left f \<and>
      ((\<nexists>h. forward_step g h) \<longrightarrow> j = work_left f \<and> f_local g = [] \<and> f_remote g = [] \<and> close_returns g)"
    if s: "shut f" and r: "forward_run j f g" for j g
  proof -
    have g: "shut g" "work_left f = j + work_left g" "f_next g = f_next f"
      using shut_run [OF r s] by simp_all
    have "work_left g = 0" if stuck: "\<nexists>h. forward_step g h" using can_step [OF g(1)] stuck by blast
    then show ?thesis
      using g all_released [OF held_run [OF r held]] by (auto simp: close_returns_def shut_def)
  qed
  then show ?thesis using held by blast
qed

text \<open>One connection is dialling when the tunnel is closed.\<close>

definition one_dialing :: forward where
  "one_dialing = shut_down (accept_turn Accepted (forwarding tunnel_New))"

lemma one_dialing_reached: "forward_run 2 (forwarding tunnel_New) one_dialing"
  unfolding one_dialing_def numeral_2_eq_2
  by (rule forward_run.more [OF forward_step.accepts forward_run.more [OF forward_step.closes forward_run.stay]])
    (simp_all add: forwarding_def tunnel_New_def accept_turn_def)

theorem tunnel_close_releases_witness:
  "sockets_held one_dialing \<and> shut one_dialing \<and> f_local one_dialing = [0] \<and>
   f_next (dial_done 0 (Inl (ErrText ''closed'')) one_dialing) = 1"
proof -
  have s: "shut one_dialing" and h: "Dialing 0 \<in> set (f_handlers one_dialing)"
    and l: "f_local one_dialing = [0]" and n: "f_next one_dialing = 1"
    by (simp_all add: one_dialing_def shut_def shut_down_def accept_turn_def forwarding_def tunnel_New_def)
  have r: "forward_run 1 one_dialing (dial_done 0 (Inl (ErrText ''closed'')) one_dialing)"
    unfolding One_nat_def by (rule forward_run.more [OF forward_step.dial_fails [OF h] forward_run.stay])
  show ?thesis using tunnel_close_releases [OF one_dialing_reached] s l n r by auto
qed

end
