(* ===== verification/Outbound.thy ===== *)
theory Outbound
  imports Messages NewChat
begin

text \<open>
  The sending half of \<open>internal/wabridge/wabridge.go\<close> and \<open>sendlocation.go\<close>: a tick of the
  outbound loop takes up to ten pending rows of \<open>wa_outbound\<close>, builds and sends each (a text,
  a file, a reaction, the pin of a branch), stamps the row and shows the message in the
  inbox; then it looks after one new chat.
\<close>

section \<open>Coordinates\<close>

text \<open>
  \<open>coordinatesRE\<close>: two decimal numbers of at most three integer digits around a comma, with
  white space. Reading from the left decides the match, since what may follow a number
  (a space, a comma, the end) cannot extend it.
\<close>

definition re_space :: "char \<Rightarrow> bool" where
  "re_space c \<longleftrightarrow> byte c \<in> {9, 10, 12, 13, 32}"

definition read_number :: "string \<Rightarrow> ((bool \<times> string \<times> string) \<times> string) option" where
  "read_number s =
     (let neg = has_prefix s ''-'';
          s1 = (if neg then drop 1 s else s);
          ip = takeWhile is_digit s1;
          r = dropWhile is_digit s1
      in if ip = '''' \<or> 3 < length ip then None
         else if has_prefix r ''.'' then
           (let fp = takeWhile is_digit (drop 1 r)
            in if fp = '''' then None
               else Some ((neg, ip, fp), dropWhile is_digit (drop 1 r)))
         else Some ((neg, ip, ''''), r))"

text \<open>\<open>strconv.ParseFloat\<close> on such a number: the nearest \<open>float64\<close>.\<close>

fun parse_float :: "bool \<times> string \<times> string \<Rightarrow> float64" where
  "parse_float (neg, ip, fp) =
     Finite neg (round64 (of_nat (number_of (ip @ fp)) / 10 ^ length fp))"

fun float_within :: "rat \<Rightarrow> float64 \<Rightarrow> bool" where
  "float_within m (Finite neg q) = (- m \<le> signed neg q \<and> signed neg q \<le> m)"
| "float_within m _ = False"

definition parseCoordinates :: "string \<Rightarrow> (float64 \<times> float64) option" where
  "parseCoordinates body =
     (case read_number (dropWhile re_space body) of
        None \<Rightarrow> None
      | Some (a, r) \<Rightarrow>
          (case dropWhile re_space r of
             [] \<Rightarrow> None
           | c # r1 \<Rightarrow>
               if c \<noteq> CHR '','' then None
               else
                 (case read_number (dropWhile re_space r1) of
                    None \<Rightarrow> None
                  | Some (b, r2) \<Rightarrow>
                      if dropWhile re_space r2 \<noteq> '''' then None
                      else if float_within 90 (parse_float a) \<and> float_within 180 (parse_float b)
                      then Some (parse_float a, parse_float b) else None)))"

section \<open>Pending rows\<close>

record pending_row =
  pr_id :: int
  pr_client_request_id :: string
  pr_chat_jid :: string
  pr_body :: string
  pr_kind :: string
  pr_media_url :: "string option"
  pr_media_mime :: "string option"
  pr_media_filename :: "string option"
  pr_media_size :: "int option"
  pr_media_sha256 :: "string option"
  pr_attempts :: nat
  pr_quoted_message_id :: "string option"

text \<open>\<open>rows.Scan\<close> into plain strings: a NULL is an error.\<close>

definition scan_pending :: "bool \<Rightarrow> outbound_row \<Rightarrow> pending_row option" where
  "scan_pending withQuote r =
     (case (o_client_request_id r, o_chat_jid r, o_body r, o_kind r) of
        (Some c, Some j, Some t, Some k) \<Rightarrow>
          Some \<lparr>pr_id = o_id r, pr_client_request_id = c, pr_chat_jid = j, pr_body = t, pr_kind = k,
            pr_media_url = o_media_url r, pr_media_mime = o_media_mime r,
            pr_media_filename = o_media_filename r, pr_media_size = o_media_size r,
            pr_media_sha256 = o_media_sha256 r, pr_attempts = nat (o_attempts r),
            pr_quoted_message_id = (if withQuote then o_quoted_message_id r else None)\<rparr>
      | _ \<Rightarrow> None)"

fun scan_all :: "('a \<Rightarrow> 'b option) \<Rightarrow> 'a list \<Rightarrow> 'b list option" where
  "scan_all f [] = Some []"
| "scan_all f (x # xs) =
     (case f x of
        None \<Rightarrow> None
      | Some y \<Rightarrow> (case scan_all f xs of None \<Rightarrow> None | Some ys \<Rightarrow> Some (y # ys)))"

definition sendable :: "int \<Rightarrow> outbound_row \<Rightarrow> bool" where
  "sendable now r \<longleftrightarrow>
     o_status r = ''pending'' \<and> o_attempts r < int outboundMaxAttempts \<and> backoff_passed now r"

definition quoted_message_id_col :: "(string \<times> string) list" where
  "quoted_message_id_col = [(''wa_outbound.quoted_message_id'', ''quoted_message_id'')]"

definition queryPendingOutbound :: "bool \<Rightarrow> store \<Rightarrow> pending_row list res \<times> store" where
  "queryPendingOutbound withQuote =
     exec ''SELECT wa_outbound pending'' (if withQuote then quoted_message_id_col else [])
       (selects (\<lambda>s.
          case scan_all (scan_pending withQuote)
                 (take 10 (sort_key o_id (filter (sendable (utc_now s)) (wa_outbound s)))) of
            None \<Rightarrow> Inl (ErrText ''sql: Scan error: converting NULL to string is unsupported'')
          | Some batch \<Rightarrow> Inr batch))"

definition markOutboundAttempt :: "pending_row \<Rightarrow> string \<Rightarrow> store \<Rightarrow> store" where
  "markOutboundAttempt r msg s = markAttempt (pr_id r) (pr_attempts r) codeSendFailed msg s"

text \<open>The statement both senders stamp a row with after the send.\<close>

definition stamp_sent :: "int \<Rightarrow> string \<Rightarrow> store \<Rightarrow> unit res \<times> store" where
  "stamp_sent oid waID =
     exec ''UPDATE wa_outbound sent'' []
       (writes (\<lambda>s. set_outbound (update_where (\<lambda>r. o_id r = oid) (sent_row waID (server_now s))) s))"

definition send_proto :: "wa \<Rightarrow> int \<Rightarrow> jid \<Rightarrow> msg \<Rightarrow> store \<Rightarrow> send_response res \<times> store" where
  "send_proto w oid j m s =
     (let s1 = emit (WaSendRow oid (jid_string w j)) s in (send_message w (trace s1) j m, s1))"

section \<open>Building a message\<close>

definition mediaTypeForKind :: "string \<Rightarrow> media_type option" where
  "mediaTypeForKind kind =
     (if kind = ''image'' then Some MediaImage else if kind = ''video'' then Some MediaVideo
      else if kind = ''audio'' then Some MediaAudio else if kind = ''document'' then Some MediaDocument
      else None)"

definition protoStringPtrOrNil :: "string \<Rightarrow> string option" where
  "protoStringPtrOrNil s = (if s = '''' then None else Some s)"

definition uint32 :: "int \<Rightarrow> nat" where
  "uint32 n = nat (n mod 2 ^ 32)"

text \<open>
  What a builder returns: the message, its type and the URL of a stored thumbnail. A failure
  it has recorded itself is \<open>errOutboundPermanent\<close>.
\<close>

type_synonym built = "msg \<times> string \<times> string option"

definition permanent_failure ::
  "int \<Rightarrow> string \<Rightarrow> string \<Rightarrow> string \<Rightarrow> bridge \<Rightarrow> 'a res \<times> bridge" where
  "permanent_failure oid code msg what b =
     (Inl (Wrapped what ErrOutboundPermanent),
      b\<lparr>st := markOutboundPermanentlyFailed oid code msg (st b)\<rparr>)"

definition uploaded_content :: "pending_row \<Rightarrow> upload \<Rightarrow> content" where
  "uploaded_content r up =
     no_content\<lparr>k_mimetype := Some (null_str (pr_media_mime r)), k_upload := Some up\<rparr>"

definition image_message :: "wa \<Rightarrow> pending_row \<Rightarrow> string \<Rightarrow> upload \<Rightarrow> msg" where
  "image_message w r data up =
     (let img = (uploaded_content r up)\<lparr>k_text := protoStringPtrOrNil (pr_body r)\<rparr>
      in case MakeImageThumbnail w data of
           Inl _ \<Rightarrow> Msg [Content Image img None]
         | Inr (thumb, wd, ht) \<Rightarrow>
             Msg [Content Image (img\<lparr>k_jpeg_thumbnail := thumb, k_size := Some (uint32 wd, uint32 ht)\<rparr>)
                    None])"

text \<open>The document struct, and what is stored of its cover.\<close>

definition document_content ::
  "wa \<Rightarrow> pending_row \<Rightarrow> string \<Rightarrow> upload \<Rightarrow> uploader \<Rightarrow> content \<times> string option \<times> uploader" where
  "document_content w r data up u =
     (let name = null_str (pr_media_filename r);
          doc = (uploaded_content r up)\<lparr>k_file_name := protoStringPtrOrNil name,
                  k_title := (if name \<noteq> '''' then Some name else None)\<rparr>
      in if \<not> contains (null_str (pr_media_mime r)) ''pdf'' then (doc, None, u)
         else
           (case ExtractPDFPreview w data of
              (_, Some e) \<Rightarrow> (doc, None, u)
            | (prev, None) \<Rightarrow>
                (let doc = (if 0 < pv_page_count prev
                            then doc\<lparr>k_page_count := Some (uint32 (pv_page_count prev))\<rparr> else doc);
                     doc = (if pv_title prev \<noteq> '''' then doc\<lparr>k_title := Some (pv_title prev)\<rparr> else doc)
                 in if pv_thumbnail prev = '''' then (doc, None, u)
                    else
                      (let doc = doc\<lparr>k_jpeg_thumbnail := pv_thumbnail prev,
                               k_thumbnail_size := Some (uint32 (pv_width prev), uint32 (pv_height prev))\<rparr>
                       in if null_str (pr_media_sha256 r) = '''' then (doc, None, u)
                          else
                            (case UploadThumbnail w (null_str (pr_media_sha256 r)) (pv_thumbnail prev) u of
                               (Inl _, u1) \<Rightarrow> (doc, None, u1)
                             | (Inr turl, u1) \<Rightarrow> (doc, nullString turl, u1))))))"

definition media_message ::
  "wa \<Rightarrow> pending_row \<Rightarrow> media_type \<Rightarrow> string \<Rightarrow> upload \<Rightarrow> uploader \<Rightarrow> built \<times> uploader" where
  "media_message w r t data up u =
     (case t of
        MediaImage \<Rightarrow> ((image_message w r data up, ''image'', None), u)
      | MediaVideo \<Rightarrow>
          ((Msg [Content Video
              ((uploaded_content r up)\<lparr>k_text := protoStringPtrOrNil (pr_body r)\<rparr>) None], ''video'', None), u)
      | MediaAudio \<Rightarrow> ((Msg [Content Audio (uploaded_content r up) None], ''audio'', None), u)
      | MediaDocument \<Rightarrow>
          (case document_content w r data up u of
             (doc, thumbURL, u1) \<Rightarrow>
               (((if pr_body r \<noteq> ''''
                  then Msg [Container DocumentWithCaption (Some (Msg [Content Document doc None]))]
                  else Msg [Content Document doc None]), ''document'', thumbURL), u1)))"

definition fetch_and_build ::
  "wa \<Rightarrow> pending_row \<Rightarrow> media_type \<Rightarrow> string \<Rightarrow> bridge \<Rightarrow> built res \<times> bridge" where
  "fetch_and_build w r t basename b =
     (case Read w basename (files b) of
        (Inl e, u1) \<Rightarrow> (Inl (Wrapped ''read media'' e), b\<lparr>files := u1\<rparr>)
      | (Inr data, u1) \<Rightarrow>
          (case upload_media w (trace (st b)) data t of
             Inl e \<Rightarrow> (Inl (Wrapped ''upload to WA CDN'' e), b\<lparr>files := u1\<rparr>)
           | Inr up \<Rightarrow>
               (case media_message w r t data up u1 of (m, u2) \<Rightarrow> (Inr m, b\<lparr>files := u2\<rparr>))))"

definition buildOutboundMessage :: "wa \<Rightarrow> pending_row \<Rightarrow> bridge \<Rightarrow> built res \<times> bridge" where
  "buildOutboundMessage w r b =
     (let kind = (if pr_kind r = '''' then ''text'' else pr_kind r);
          url = null_str (pr_media_url r)
      in if kind = ''text'' then (Inr (Msg [Conversation (pr_body r)], ''text'', None), b)
         else
           (case mediaTypeForKind kind of
              None \<Rightarrow>
                permanent_failure (pr_id r) ''UNSUPPORTED_KIND'' (''unsupported kind: '' @ kind)
                  (''unsupported kind '' @ kind) b
            | Some t \<Rightarrow>
                if url = '''' then
                  permanent_failure (pr_id r) ''MEDIA'' ''media row missing media_url''
                    ''media row missing media_url'' b
                else if BasenameFromPublicURL w url = '''' then
                  permanent_failure (pr_id r) ''MEDIA''
                    (''media_url path is not under public_base_url ('' @ public_base_url w @ ''): '' @ url)
                    (''media_url '' @ url @ '' is not under the configured public base'') b
                else fetch_and_build w r t (BasenameFromPublicURL w url) b))"

section \<open>The pin of a branch\<close>

text \<open>\<open>outboundLocation\<close>.\<close>

record sent_place =
  sp_lat :: float64
  sp_lng :: float64
  sp_name :: string
  sp_address :: string
  sp_url :: string

definition pin_message :: "sent_place \<Rightarrow> msg" where
  "pin_message l =
     Msg [Content Location (no_content\<lparr>k_latitude := Some (sp_lat l), k_longitude := Some (sp_lng l),
       k_name := protoStringPtrOrNil (sp_name l), k_address := protoStringPtrOrNil (sp_address l),
       k_url := protoStringPtrOrNil (sp_url l)\<rparr>) None]"

definition buildLocationMessage :: "pending_row \<Rightarrow> bridge \<Rightarrow> (msg \<times> sent_place) res \<times> bridge" where
  "buildLocationMessage r b =
     (case parseCoordinates (pr_body r) of
        None \<Rightarrow>
          permanent_failure (pr_id r) ''INVALID_LOCATION''
            (''body must be \"lat, lng\", got '' @ quoteForLog (pr_body r)) ''invalid location body'' b
      | Some (lat, lng) \<Rightarrow>
          (case OutboundLocation (pr_id r) (st b) of
             (Inl e, s1) \<Rightarrow> (Inl (Wrapped ''read location'' e), b\<lparr>st := s1\<rparr>)
           | (Inr place, s1) \<Rightarrow>
               (let loc = \<lparr>sp_lat = lat, sp_lng = lng,
                      sp_name = truncateRunes (trim_space (null_str (pl_name place))) LocationNameMax,
                      sp_address = truncateRunes (trim_space (null_str (pl_address place))) LocationAddressMax,
                      sp_url = trim_space (null_str (pl_url place))\<rparr>
                in (Inr (pin_message loc, loc), b\<lparr>st := s1\<rparr>))))"

section \<open>Replies\<close>

text \<open>\<open>outboundQuote\<close>.\<close>

record outbound_quote =
  oq_ctx :: ctx
  oq_preview :: string
  oq_sender_jid :: string

definition findMessageRow ::
  "pending_row \<Rightarrow> string \<Rightarrow> store \<Rightarrow> quoted_row option res \<times> store" where
  "findMessageRow r storeChatJID s =
     (let mid = null_str (pr_quoted_message_id r)
      in case GetQuotedRow (pr_chat_jid r) mid s of
           (Inr None, s1) \<Rightarrow>
             (if storeChatJID = pr_chat_jid r then (Inr None, s1) else GetQuotedRow storeChatJID mid s1)
         | (res, s1) \<Rightarrow> (res, s1))"

definition quote_of :: "wa \<Rightarrow> string \<Rightarrow> jid \<Rightarrow> quoted_row \<Rightarrow> outbound_quote" where
  "quote_of w mid participant row =
     \<lparr>oq_ctx = buildQuoteContext w mid participant row,
      oq_preview = truncateRunes (quoteLabel (q_message_type row) (null_str (q_body row))
        (null_str (q_media_filename row))) quotedPreviewMax,
      oq_sender_jid = jid_string w participant\<rparr>"

definition lookupQuote ::
  "wa \<Rightarrow> pending_row \<Rightarrow> jid \<Rightarrow> string \<Rightarrow> store \<Rightarrow> outbound_quote option res \<times> store" where
  "lookupQuote w r chat storeChatJID s =
     (case findMessageRow r storeChatJID s of
        (Inl e, s1) \<Rightarrow> (Inl e, s1)
      | (Inr None, s1) \<Rightarrow> (Inr None, s1)
      | (Inr (Some row), s1) \<Rightarrow>
          (let participant = participantFor w row chat (ownPN w) (ownLID w)
           in if \<not> Quotable row \<or> is_empty w participant then (Inr None, s1)
              else (Inr (Some (quote_of w (null_str (pr_quoted_message_id r)) participant row)), s1)))"

definition quote_for_row ::
  "wa \<Rightarrow> pending_row \<Rightarrow> jid \<Rightarrow> string \<Rightarrow> store \<Rightarrow> outbound_quote option res \<times> store" where
  "quote_for_row w r chat storeChatJID s =
     (if null_str (pr_quoted_message_id r) = '''' then (Inr None, s)
      else lookupQuote w r chat storeChatJID s)"

section \<open>Reactions\<close>

definition sent_reaction :: "wa \<Rightarrow> pending_row \<Rightarrow> jid \<Rightarrow> string \<Rightarrow> send_response \<Rightarrow> reaction" where
  "sent_reaction w r chat storeChatJID resp =
     \<lparr>r_id = resp_id resp, r_chat_jid = storeChatJID, r_sender_jid = nullString (selfJID w),
      r_sender_aliases = [], r_from_me = True, r_is_group = (j_server chat = GroupServer),
      r_target_id = null_str (pr_quoted_message_id r), r_emoji = pr_body r,
      r_timestamp = resp_timestamp resp\<rparr>"

definition send_reaction_to ::
  "wa \<Rightarrow> pending_row \<Rightarrow> jid \<Rightarrow> string \<Rightarrow> jid \<Rightarrow> store \<Rightarrow> store" where
  "send_reaction_to w r chat storeChatJID sender s =
     (case send_proto w (pr_id r) chat
             (build_reaction w chat sender (null_str (pr_quoted_message_id r)) (pr_body r)) s of
        (Inl e, s1) \<Rightarrow> markOutboundAttempt r (error_text e) s1
      | (Inr resp, s1) \<Rightarrow>
          snd (UpsertReaction (sent_reaction w r chat storeChatJID resp)
                (snd (stamp_sent (pr_id r) (resp_id resp) s1))))"

definition sendReactionRow :: "wa \<Rightarrow> pending_row \<Rightarrow> jid \<Rightarrow> string \<Rightarrow> store \<Rightarrow> store" where
  "sendReactionRow w r chat storeChatJID s =
     (let mid = null_str (pr_quoted_message_id r);
          refuse = (\<lambda>msg s. markOutboundPermanentlyFailed (pr_id r) ''REACTION_TARGET'' msg s)
      in if mid = '''' then refuse ''reaction without a target message'' s
         else
           (case findMessageRow r storeChatJID s of
              (Inl e, s1) \<Rightarrow> markOutboundAttempt r (''reaction target lookup: '' @ error_text e) s1
            | (Inr None, s1) \<Rightarrow> refuse (''reacted message not found: '' @ mid) s1
            | (Inr (Some row), s1) \<Rightarrow>
                (let sender = participantFor w row chat (ownPN w) (ownLID w)
                 in if \<not> Quotable row then
                      refuse (''reacted message was deleted or cannot take a reaction: '' @ mid) s1
                    else if is_empty w sender then
                      refuse ''author of the reacted message is unknown'' s1
                    else send_reaction_to w r chat storeChatJID sender s1)))"

section \<open>Sending a row\<close>

definition movie :: string where "movie = [CHR 0xF0, CHR 0x9F, CHR 0x8E, CHR 0xAC, CHR 0x20]"
definition music :: string where "music = [CHR 0xF0, CHR 0x9F, CHR 0x8E, CHR 0xB5, CHR 0x20]"

definition previewForKind :: "string \<Rightarrow> string \<Rightarrow> string" where
  "previewForKind kind filename =
     (if kind = ''image'' then camera @ ''Imagen''
      else if kind = ''video'' then movie @ ''Video''
      else if kind = ''audio'' then music @ ''Audio''
      else if kind = ''document'' then page @ (if filename \<noteq> '''' then filename else ''Documento'')
      else '''')"

text \<open>The two builders behind one: the location builder has no thumbnail to store.\<close>

definition build_row ::
  "wa \<Rightarrow> pending_row \<Rightarrow> bridge \<Rightarrow> (built \<times> sent_place option) res \<times> bridge" where
  "build_row w r b =
     (if pr_kind r = ''location'' then
        (case buildLocationMessage r b of
           (Inl e, b1) \<Rightarrow> (Inl e, b1)
         | (Inr (m, place), b1) \<Rightarrow> (Inr ((m, ''location'', None), Some place), b1))
      else
        (case buildOutboundMessage w r b of
           (Inl e, b1) \<Rightarrow> (Inl e, b1) | (Inr m, b1) \<Rightarrow> (Inr (m, None), b1)))"

text \<open>The row of \<open>wa_messages\<close> and the chat tail a sent row leaves.\<close>

definition sent_message_row ::
  "wa \<Rightarrow> pending_row \<Rightarrow> string \<Rightarrow> send_response \<Rightarrow> string \<Rightarrow> string option
   \<Rightarrow> outbound_quote option \<Rightarrow> sent_place option \<Rightarrow> message" where
  "sent_message_row w r storeChatJID resp msgType thumbURL quote place =
     (let m = empty_message
        \<lparr>m_id := resp_id resp, m_chat_jid := storeChatJID, m_sender_jid := nullString (selfJID w),
         m_from_me := True, m_message_type := msgType, m_body := nullString (pr_body r),
         m_media_url := pr_media_url r, m_media_mime := pr_media_mime r,
         m_media_size := pr_media_size r, m_media_filename := pr_media_filename r,
         m_media_sha256 := pr_media_sha256 r, m_media_thumbnail_url := thumbURL,
         m_client_request_id := nullString (pr_client_request_id r),
         m_timestamp := resp_timestamp resp, m_status := Some ''sent''\<rparr>;
          m = (case quote of None \<Rightarrow> m
               | Some q \<Rightarrow> m\<lparr>m_quoted_message_id := nullString (null_str (pr_quoted_message_id r)),
                             m_quoted_preview := nullString (oq_preview q),
                             m_quoted_sender_jid := nullString (oq_sender_jid q)\<rparr>)
      in case place of None \<Rightarrow> m
         | Some l \<Rightarrow> m\<lparr>m_body := nullString (coordinates (sp_lat l) (sp_lng l)),
                       m_location_name := nullString (sp_name l),
                       m_location_address := nullString (sp_address l)\<rparr>)"

definition sent_preview :: "pending_row \<Rightarrow> string \<Rightarrow> sent_place option \<Rightarrow> string" where
  "sent_preview r msgType place =
     (case place of
        Some l \<Rightarrow> locationLabel (sp_name l)
      | None \<Rightarrow>
          if pr_body r = '''' then previewForKind msgType (null_str (pr_media_filename r))
          else pr_body r)"

definition sent_chat_row :: "string \<Rightarrow> send_response \<Rightarrow> string \<Rightarrow> chat" where
  "sent_chat_row storeChatJID resp preview =
     \<lparr>ch_jid = storeChatJID, ch_display_name = None, ch_phone_e164 = None, ch_is_group = False,
      ch_profile_pic_url = None, ch_last_message_at = Some (resp_timestamp resp),
      ch_last_message_preview = nullString (GoText.truncate preview 160),
      ch_last_message_from_me = True, ch_increment_unread = False\<rparr>"

text \<open>After the send: the stamp, the message, the chat; a failure of one does not stop the next.\<close>

definition record_sent ::
  "wa \<Rightarrow> pending_row \<Rightarrow> string \<Rightarrow> send_response \<Rightarrow> string \<Rightarrow> string option
   \<Rightarrow> outbound_quote option \<Rightarrow> sent_place option \<Rightarrow> store \<Rightarrow> store" where
  "record_sent w r storeChatJID resp msgType thumbURL quote place s =
     snd (UpsertChat (sent_chat_row storeChatJID resp (sent_preview r msgType place))
       (snd (InsertMessage (sent_message_row w r storeChatJID resp msgType thumbURL quote place)
         (snd (stamp_sent (pr_id r) (resp_id resp) s)))))"

definition with_quote :: "outbound_quote option \<Rightarrow> msg \<Rightarrow> msg" where
  "with_quote quote m =
     (case quote of None \<Rightarrow> m | Some q \<Rightarrow> the (attachQuote (Some m) (Some (oq_ctx q))))"

definition build_and_send ::
  "wa \<Rightarrow> pending_row \<Rightarrow> jid \<Rightarrow> string \<Rightarrow> outbound_quote option \<Rightarrow> bridge \<Rightarrow> bridge" where
  "build_and_send w r chat storeChatJID quote b =
     (case build_row w r b of
        (Inl e, b1) \<Rightarrow>
          (if errors_is e ErrOutboundPermanent then b1
           else b1\<lparr>st := markOutboundAttempt r (error_text e) (st b1)\<rparr>)
      | (Inr ((m, msgType, thumbURL), place), b1) \<Rightarrow>
          (case send_proto w (pr_id r) chat (with_quote quote m) (st b1) of
             (Inl e, s2) \<Rightarrow> b1\<lparr>st := markOutboundAttempt r (error_text e) s2\<rparr>
           | (Inr resp, s2) \<Rightarrow>
               b1\<lparr>st := record_sent w r storeChatJID resp msgType thumbURL quote place s2\<rparr>))"

definition sendOutboundRow :: "wa \<Rightarrow> pending_row \<Rightarrow> bridge \<Rightarrow> bridge" where
  "sendOutboundRow w r b =
     (case parse_jid w (pr_chat_jid r) of
        Inl e \<Rightarrow>
          b\<lparr>st := markOutboundPermanentlyFailed (pr_id r) ''INVALID_JID''
                    (''invalid chat_jid: '' @ error_text e) (st b)\<rparr>
      | Inr chat \<Rightarrow>
          (let storeChatJID = jid_string w (canonicalChatJID w (trace (st b)) chat)
           in if pr_kind r = ''reaction''
              then b\<lparr>st := sendReactionRow w r chat storeChatJID (st b)\<rparr>
              else
                (case quote_for_row w r chat storeChatJID (st b) of
                   (Inl e, s1) \<Rightarrow>
                     b\<lparr>st := markOutboundAttempt r (''quote lookup: '' @ error_text e) s1\<rparr>
                 | (Inr quote, s1) \<Rightarrow> build_and_send w r chat storeChatJID quote (b\<lparr>st := s1\<rparr>))))"

section \<open>A tick\<close>

definition pending_batch :: "store \<Rightarrow> pending_row list res \<times> store" where
  "pending_batch =
     Fallback ''wa_outbound.quoted_message_id'' (queryPendingOutbound True)
       (Some (queryPendingOutbound False)) []"

definition processOutboundBatch :: "wa \<Rightarrow> bridge \<Rightarrow> bridge" where
  "processOutboundBatch w b =
     (case pending_batch (st b) of
        (Inl _, s1) \<Rightarrow> b\<lparr>st := s1\<rparr>
      | (Inr batch, s1) \<Rightarrow>
          processNewChats w (foldl (\<lambda>b r. sendOutboundRow w r b) (b\<lparr>st := s1\<rparr>) batch))"

text \<open>A tick of \<open>WatchOutbound\<close>.\<close>

definition outbound_tick :: "wa \<Rightarrow> bridge \<Rightarrow> bridge" where
  "outbound_tick w b = (if is_connected w (trace (st b)) then processOutboundBatch w b else b)"

end
