(* ===== verification/StoreFrames.thy ===== *)
theory StoreFrames
  imports Whatsapp
begin

text \<open>
  What a store call leaves alone. The locale is the contract of such a relation between the
  state before and after: it holds across a statement that keeps it, a schema fallback and a
  retry. Its interpretations say which tables each method can touch.
\<close>

locale store_frame =
  fixes R :: "store \<Rightarrow> store \<Rightarrow> bool"
  assumes R_refl: "R s s"
    and R_trans: "R s s' \<Longrightarrow> R s' s'' \<Longrightarrow> R s s''"
    and R_sent_off: "R s (sent_off n s)"
    and R_switch_off: "R s (switch_off f s)"
begin

lemma frame_exec:
  assumes "\<And>s. R s (snd (stmt s))"
  shows "R s (snd (exec n cols stmt s))"
  using exec_snd [of n cols stmt s] assms [of "sent_off n s"] R_sent_off [of s n]
  by (metis R_trans)

lemma frame_selects: "R s (snd (exec n cols (selects f) s))"
  by (rule frame_exec) (simp add: R_refl)

lemma frame_legacy:
  assumes "\<And>f s. oldFn = Some f \<Longrightarrow> R s (snd (f s))"
  shows "R s (snd (legacy oldFn x s))"
  using assms by (auto simp: legacy_def R_refl split: option.split)

lemma frame_Fallback:
  assumes "\<And>s. R s (snd (newFn s))" and "\<And>f s. oldFn = Some f \<Longrightarrow> R s (snd (f s))"
  shows "R s (snd (Fallback feature newFn oldFn x s))"
proof -
  have leg: "R s (snd (legacy oldFn x s))" for s using assms(2) by (rule frame_legacy)
  have new: "R s s1" if "newFn s = (r, s1)" for r s1 using assms(1) [of s] that by simp
  show ?thesis
    using leg new
    by (auto simp: Fallback_def split: prod.split sum.split
        intro: R_trans [OF R_trans [OF new R_switch_off]])
qed

lemma frame_retry:
  assumes "\<And>s. R s (snd (run s))"
  shows "R s (snd (retry err run ds r s))"
proof (induction ds arbitrary: r s)
  case Nil
  show ?case by (simp add: R_refl)
next
  case (Cons d ds)
  obtain r1 s1 where "run s = (r1, s1)" by (rule prod.exhaust)
  with Cons.IH [where r = r1 and s = s1] assms [of s] show ?case by (auto intro: R_trans)
qed

lemma frame_storeRetry: "(\<And>s. R s (snd (run s))) \<Longrightarrow> R s (snd (storeRetry run s))"
  unfolding storeRetry_def by (rule frame_retry)

lemma frame_case_prod:
  assumes "R s (snd p)" "\<And>r s1. p = (r, s1) \<Longrightarrow> R s1 (snd (f r s1))"
  shows "R s (snd (case p of (r, s1) \<Rightarrow> f r s1))"
  using assms by (cases p) (auto intro: R_trans)

lemma frame_then:
  assumes "p = (r, s1)" "R s (snd p)" "R s1 s2"
  shows "R s s2"
  using assms by (auto intro: R_trans)

end
section \<open>A view of the store that some methods cannot change\<close>

locale store_view =
  fixes view :: "store \<Rightarrow> 'v"
  assumes view_sent_off: "view (sent_off n s) = view s"
    and view_switch_off: "view (switch_off f s) = view s"

sublocale store_view \<subseteq> store_frame "\<lambda>s s'. view s' = view s"
  by unfold_locales (simp_all add: view_sent_off view_switch_off)

text \<open>A view that does not depend on \<open>wa_messages\<close>: no method on messages changes it.\<close>

locale beside_messages = store_view view for view :: "store \<Rightarrow> 'v" +
  assumes view_set_messages: "view (set_messages f s) = view s"
begin

lemma view_InsertMessage: "view (snd (InsertMessage m s)) = view s"
proof -
  have ins: "view (snd (insert_ignore m s)) = view s" for m s
    by (simp add: insert_ignore_def view_set_messages)
  have "view (snd (insertMessage m l s)) = view s" for l s
    unfolding insertMessage_def Let_def
    by (intro frame_Fallback frame_exec) (auto simp: ins intro!: frame_exec)
  then show ?thesis
    unfolding InsertMessage_def by (auto intro!: frame_Fallback)
qed

lemma view_update_message: "view (snd (update_message i c f s)) = view s"
  by (simp add: update_message_def view_set_messages)

lemma view_LocateMessage: "view (snd (LocateMessage i cs s)) = view s"
  by (auto simp: LocateMessage_def intro!: frame_case_prod frame_selects split: sum.split)

lemma view_ApplyEdit: "view (snd (ApplyEdit cs i fm b s)) = view s"
  by (auto simp: ApplyEdit_def view_LocateMessage view_update_message split: sum.split
      intro!: frame_case_prod frame_Fallback frame_exec)

lemma view_RevokeMessage: "view (snd (RevokeMessage cs i fm g s)) = view s"
  by (auto simp: RevokeMessage_def view_LocateMessage view_update_message split: sum.split
      intro!: frame_case_prod frame_Fallback frame_exec)

lemma view_reaction_write: "view (snd (reaction_write r e s)) = view s"
  by (auto simp: reaction_write_def update_reaction_def view_set_messages view_InsertMessage
      intro!: frame_exec)

lemma view_UpsertReaction: "view (snd (UpsertReaction r s)) = view s"
proof -
  have leg: "view (snd (legacy_reaction r s)) = view s" for s
    by (auto simp: legacy_reaction_def insertLegacyReaction_def view_InsertMessage
        split: sum.split intro!: frame_case_prod)
  have look: "view (snd (lookup_reaction r s)) = view s" for s
    by (auto simp: lookup_reaction_def split: sum.split intro!: frame_case_prod frame_selects)
  show ?thesis
    by (auto simp: UpsertReaction_def leg look view_reaction_write view_update_message split: sum.split
        intro!: frame_case_prod frame_Fallback frame_exec)
qed

lemma view_MarkMessagesStatus: "view (snd (MarkMessagesStatus ids n s)) = view s"
  by (auto simp: MarkMessagesStatus_def view_set_messages split: option.split intro!: frame_exec)

lemmas view_message_methods = view_InsertMessage view_LocateMessage view_ApplyEdit
  view_RevokeMessage view_UpsertReaction view_MarkMessagesStatus

end

text \<open>A view that does not depend on \<open>wa_chats\<close>.\<close>

locale beside_chats = store_view view for view :: "store \<Rightarrow> 'v" +
  assumes view_set_chats: "view (set_chats f s) = view s"
begin

lemma view_UpsertChat: "view (snd (UpsertChat c s)) = view s"
  by (auto simp: UpsertChat_def view_set_chats intro!: frame_exec)

lemma view_SetPeerTyping: "view (snd (SetPeerTyping j u s)) = view s"
  by (auto simp: SetPeerTyping_def view_set_chats intro!: frame_exec)

lemma view_ClearAllPeerTyping: "view (snd (ClearAllPeerTyping s)) = view s"
  by (auto simp: ClearAllPeerTyping_def view_set_chats intro!: frame_exec)

lemma view_UpdateProfilePic: "view (snd (UpdateProfilePic j u s)) = view s"
  by (auto simp: UpdateProfilePic_def view_set_chats intro!: frame_exec)

lemma view_ClearUnreadUpTo: "view (snd (ClearUnreadUpTo j ids s)) = view s"
  by (auto simp: ClearUnreadUpTo_def view_set_chats intro!: frame_exec)

lemma view_read_tail: "view (snd (read_tail j s)) = view s"
  by (auto simp: read_tail_def scan_tail_def intro!: frame_Fallback frame_selects)

lemma view_RecomputeChatTail: "view (snd (RecomputeChatTail j pv s)) = view s"
  by (auto simp: RecomputeChatTail_def view_read_tail view_set_chats split: sum.split
      intro!: frame_case_prod frame_exec)

lemmas view_chat_methods = view_UpsertChat view_SetPeerTyping view_ClearAllPeerTyping
  view_UpdateProfilePic view_ClearUnreadUpTo view_RecomputeChatTail

end

text \<open>The tables, each as a view.\<close>

interpretation chats: beside_messages wa_chats
  by unfold_locales simp_all

interpretation messages: beside_chats wa_messages
  by unfold_locales simp_all

definition other_tables ::
  "store \<Rightarrow> outbound_row list \<times> pairing_row option \<times> typing_row list" where
  "other_tables s = (wa_outbound s, wa_pairing s, wa_typing_outbound s)"

interpretation others_m: beside_messages other_tables
  by unfold_locales (simp_all add: other_tables_def)

interpretation others_c: beside_chats other_tables
  by unfold_locales (simp_all add: other_tables_def)

interpretation ev: store_frame evolves
  by unfold_locales (auto intro: evolves_trans)

section \<open>Counters\<close>

text \<open>The unread counter of a chat, 0 when there is no row.\<close>

definition counter_of :: "store \<Rightarrow> string \<Rightarrow> int" where
  "counter_of s j = (case row_by c_jid j (wa_chats s) of None \<Rightarrow> 0 | Some r \<Rightarrow> c_unread_count r)"

interpretation counter: beside_messages counter_of
  by unfold_locales (simp_all add: counter_of_def fun_eq_iff)

lemma counter_upsert:
  assumes "\<not> ch_last_message_from_me c" "\<not> ch_increment_unread c"
  shows "counter_of (set_chats (upsert_chat_row c now) s) = counter_of s"
proof
  fix j
  show "counter_of (set_chats (upsert_chat_row c now) s) j = counter_of s j"
  proof (cases "ch_jid c \<in> c_jid ` set (wa_chats s)")
    case True
    then show ?thesis
      using assms
      by (simp add: counter_of_def upsert_chat_row_def row_by_update_where merge_chat_row_def
          split: option.split)
  next
    case False
    then show ?thesis
      using assms
      by (cases "row_by c_jid j (wa_chats s)")
        (simp_all add: counter_of_def upsert_chat_row_def row_by_append new_chat_row_def)
  qed
qed

lemma counter_UpsertChat:
  assumes "\<not> ch_last_message_from_me c" "\<not> ch_increment_unread c"
  shows "counter_of (snd (UpsertChat c s)) = counter_of s"
  unfolding UpsertChat_def by (rule counter.frame_exec) (simp add: counter_upsert assms)

lemma counter_RecomputeChatTail: "counter_of (snd (RecomputeChatTail j pv s)) = counter_of s"
proof -
  have "counter_of (set_chats (set_tail j pv t) s) = counter_of s" for t s
    by (simp add: counter_of_def fun_eq_iff set_tail_def row_by_update_where split: option.split)
  then show ?thesis
    by (auto simp: RecomputeChatTail_def read_tail_def scan_tail_def split: sum.split
        intro!: counter.frame_case_prod counter.frame_exec counter.frame_Fallback counter.frame_selects)
qed

section \<open>The log of messages\<close>

text \<open>No method removes a message, reorders the table or moves a message to another chat or author.\<close>

definition msg_key :: "message_row \<Rightarrow> string \<times> string \<times> string option \<times> bool" where
  "msg_key m = (m_id m, m_chat_jid m, m_sender_jid m, m_from_me m)"

definition log_grows :: "store \<Rightarrow> store \<Rightarrow> bool" where
  "log_grows s s' \<longleftrightarrow> prefix (map msg_key (wa_messages s)) (map msg_key (wa_messages s'))"

interpretation log: store_frame log_grows
  by unfold_locales (auto simp: log_grows_def intro: prefix_order.trans)

lemma log_update:
  assumes "\<And>m. p m \<Longrightarrow> msg_key (f m) = msg_key m"
  shows "log_grows s (set_messages (update_where p f) s)"
proof -
  have "map msg_key (update_where p f ms) = map msg_key ms" for ms
    using assms by (intro map_key_update_where) simp
  then show ?thesis by (simp add: log_grows_def)
qed

lemma log_insert: "log_grows s (snd (insert_ignore m s))"
  by (auto simp: insert_ignore_def log_grows_def)

lemma log_InsertMessage: "log_grows s (snd (InsertMessage m s))"
proof -
  have "log_grows s (snd (insertMessage m l s))" for l s
    unfolding insertMessage_def Let_def
    by (auto intro!: log.frame_Fallback log.frame_exec log_insert)
  then show ?thesis
    unfolding InsertMessage_def by (auto intro!: log.frame_Fallback)
qed

lemma log_update_message:
  "(\<And>now m. msg_key (f now m) = msg_key m) \<Longrightarrow> log_grows s (snd (update_message i c f s))"
  by (auto simp: update_message_def intro!: log_update)

lemma log_LocateMessage: "log_grows s (snd (LocateMessage i cs s))"
  by (auto simp: LocateMessage_def intro!: log.frame_case_prod log.frame_selects log.R_refl
      split: sum.split)

lemma log_ApplyEdit: "log_grows s (snd (ApplyEdit cs i fm b s))"
  by (auto simp: ApplyEdit_def edit_row_def msg_key_def split: sum.split
      intro!: log.frame_case_prod log.frame_Fallback log.frame_exec log_LocateMessage
        log_update_message log.R_refl)

lemma log_RevokeMessage: "log_grows s (snd (RevokeMessage cs i fm g s))"
  by (auto simp: RevokeMessage_def revoke_row_def msg_key_def split: sum.split
      intro!: log.frame_case_prod log.frame_Fallback log.frame_exec log_LocateMessage
        log_update_message log.R_refl)

lemma log_UpsertReaction: "log_grows s (snd (UpsertReaction r s))"
proof -
  have leg: "log_grows s (snd (legacy_reaction r s))" for s
    by (auto simp: legacy_reaction_def insertLegacyReaction_def split: sum.split
        intro!: log.frame_case_prod log_InsertMessage log.R_refl)
  have look: "log_grows s (snd (lookup_reaction r s))" for s
    by (auto simp: lookup_reaction_def split: sum.split
        intro!: log.frame_case_prod log.frame_selects log.R_refl)
  have wr: "log_grows s (snd (reaction_write r e s))" for e s
    by (auto simp: reaction_write_def update_reaction_def msg_key_def
        intro!: log.frame_exec log_InsertMessage log_update)
  show ?thesis
    by (auto simp: UpsertReaction_def msg_key_def split: sum.split
        intro!: log.frame_case_prod log.frame_Fallback log.frame_exec leg look wr
          log_update_message log.R_refl)
qed

lemma log_MarkMessagesStatus: "log_grows s (snd (MarkMessagesStatus ids n s))"
proof -
  have "msg_key \<circ> mark_status ids al n = msg_key" for al
    by (auto simp: mark_status_def msg_key_def fun_eq_iff)
  then have "log_grows s (set_messages (map (mark_status ids al n)) s)" for s al
    by (simp add: log_grows_def)
  then show ?thesis
    by (auto simp: MarkMessagesStatus_def split: option.split intro!: log.frame_exec log.R_refl)
qed

lemma log_same_messages: "wa_messages s' = wa_messages s \<Longrightarrow> log_grows s s'"
  by (simp add: log_grows_def)

end
