(* ===== verification/Session.thy ===== *)
theory Session
  imports Inbound
begin

text \<open>
  The life of a session in \<open>internal/wabridge/wabridge.go\<close>: pairing by QR code, the dispatch of
  events, resets asked for by the web app, the watchdog over the connection, and the small
  loops for typing and profile pictures. Each tick of a loop is one step. Work started with
  \<open>go\<close> is a step of its own, run here where it is started.
\<close>

section \<open>Errors that end a session\<close>

text \<open>\<open>fatalCh\<close> holds one error; a second signal is dropped.\<close>

definition signalFatal :: "string \<Rightarrow> bridge \<Rightarrow> bridge" where
  "signalFatal e b = (case fatal b of None \<Rightarrow> b\<lparr>fatal := Some (ErrText e)\<rparr> | Some _ \<Rightarrow> b)"

definition recordSessionLost :: "string \<Rightarrow> bridge \<Rightarrow> bridge" where
  "recordSessionLost reason b = b\<lparr>st := snd (SetSessionLost (wall b) reason (st b))\<rparr>"

definition heartbeat :: "bridge \<Rightarrow> bridge" where
  "heartbeat b = b\<lparr>st := snd (Heartbeat (st b))\<rparr>"

section \<open>Pairing\<close>

datatype qr_event =
    QRCode string
  | QRSuccess
  | QRTimeout
  | QROther string

definition set_paired :: "wa \<Rightarrow> bridge \<Rightarrow> bridge" where
  "set_paired w b =
     (case own_jid w of
        None \<Rightarrow> b
      | Some j \<Rightarrow> b\<lparr>st := snd (SetPaired (jid_string w j) (st b))\<rparr>)"

text \<open>\<open>Start\<close> answers whether a QR loop begins, and the error of the connection.\<close>

definition Start :: "wa \<Rightarrow> bridge \<Rightarrow> bool res \<times> bridge" where
  "Start w b =
     (case own_jid w of
        None \<Rightarrow>
          (case connect w (trace (st b)) of Inl e \<Rightarrow> (Inl e, b) | Inr _ \<Rightarrow> (Inr True, b))
      | Some _ \<Rightarrow>
          (let b1 = set_paired w b
           in case connect w (trace (st b1)) of Inl e \<Rightarrow> (Inl e, b1) | Inr _ \<Rightarrow> (Inr False, b1)))"

definition qr_step :: "wa \<Rightarrow> qr_event \<Rightarrow> bridge \<Rightarrow> bridge" where
  "qr_step w evt b =
     (case evt of
        QRCode code \<Rightarrow> b\<lparr>st := snd (SetQRCode (wall b) code (20 * second) (st b))\<rparr>
      | QRSuccess \<Rightarrow> set_paired w b
      | QRTimeout \<Rightarrow>
          signalFatal ''qr timeout'' (b\<lparr>st := snd (SetEvent StatusError ''qr timeout'' (st b))\<rparr>)
      | QROther e \<Rightarrow>
          signalFatal (''qr event: '' @ e)
            (b\<lparr>st := snd (SetEvent StatusError (''qr event: '' @ e) (st b))\<rparr>))"

definition runQRLoop :: "wa \<Rightarrow> qr_event list \<Rightarrow> bridge \<Rightarrow> bridge" where
  "runQRLoop w evts b = foldl (\<lambda>b e. qr_step w e b) b evts"

section \<open>Events\<close>

text \<open>\<open>LoggedOut on_connect reason code\<close>: the reason as the library words it.\<close>

datatype wa_event =
    Connected
  | ChatPresence jid string
  | Disconnected
  | LoggedOut bool string nat
  | StreamReplaced
  | TemporaryBan string
  | ClientOutdated
  | ConnectFailure string
  | ReceiptEvent receipt
  | MessageEvent message_event
  | HistorySync nat "conversation list"
  | OtherEvent

definition loggedOutReason :: "bool \<Rightarrow> string \<Rightarrow> nat \<Rightarrow> string" where
  "loggedOutReason onConnect reason code =
     (if onConnect then reason @ '', code '' @ decimal code
      else ''stream error, usually the device was removed on the phone'')"

text \<open>
  \<open>markOnline\<close> tells WhatsApp that the session is available, at once and then every five minutes.
  Each \<open>Connected\<close> starts one such loop, on a context that nobody cancels; \<open>online_loops\<close> counts
  them, and \<open>online_tick\<close> is a tick of one.
\<close>

definition send_online :: "wa \<Rightarrow> bridge \<Rightarrow> bridge" where
  "send_online w b = (if is_connected w (trace (st b)) then b\<lparr>st := emit WaOnline (st b)\<rparr> else b)"

definition markOnline :: "wa \<Rightarrow> bridge \<Rightarrow> bridge" where
  "markOnline w b = send_online w (b\<lparr>online_loops := Suc (online_loops b)\<rparr>)"

definition online_tick :: "wa \<Rightarrow> bridge \<Rightarrow> bridge" where
  "online_tick w b = (if online_loops b = 0 then b else send_online w b)"

definition handleEvent :: "wa \<Rightarrow> wa_event \<Rightarrow> bridge \<Rightarrow> bridge" where
  "handleEvent w evt b =
     (case evt of
        Connected \<Rightarrow>
          (let b1 = heartbeat (markOnline w b) in b1\<lparr>st := snd (ClearAllPeerTyping (st b1))\<rparr>)
      | ChatPresence chat state \<Rightarrow> handleChatPresence w chat state b
      | Disconnected \<Rightarrow> b
      | LoggedOut onConnect reason code \<Rightarrow>
          (let r = loggedOutReason onConnect reason code
           in signalFatal (''logged out: '' @ r)
                (recordSessionLost (''logged out by WhatsApp ('' @ r @ '')'') b))
      | StreamReplaced \<Rightarrow> b
      | TemporaryBan s \<Rightarrow> recordSessionLost (''temporary ban: '' @ s) b
      | ClientOutdated \<Rightarrow> recordSessionLost ''client outdated: update whatsmeow'' b
      | ConnectFailure _ \<Rightarrow> b
      | ReceiptEvent r \<Rightarrow> handleReceipt w r b
      | MessageEvent m \<Rightarrow> handleMessage w m b
      | HistorySync n convs \<Rightarrow> handleHistorySync w n convs b
      | OtherEvent \<Rightarrow> b)"

section \<open>The watchdogs\<close>

text \<open>
  A tick of \<open>WatchResetRequests\<close>: the error it returns, if it does. The error of \<open>Logout\<close>,
  which unlinks the device, is logged only.
\<close>

definition unlink_device :: "bridge \<Rightarrow> bridge" where
  "unlink_device b = b\<lparr>st := emit WaLogout (st b)\<rparr>"

definition reset_tick :: "bridge \<Rightarrow> go_error option \<times> bridge" where
  "reset_tick b =
     (case ConsumeResetRequest (st b) of
        ((reset, err), s1) \<Rightarrow>
          (if err \<noteq> None \<or> \<not> reset then (None, b\<lparr>st := s1\<rparr>)
           else (Some (ErrText ''reset requested''),
                 unlink_device (recordSessionLost ''reset requested from the web UI'' (b\<lparr>st := s1\<rparr>)))))"

definition disconnectThreshold :: int where
  "disconnectThreshold = 5 * minute"

text \<open>A tick of \<open>WatchConnection\<close>.\<close>

definition connection_tick :: "wa \<Rightarrow> bridge \<Rightarrow> go_error option \<times> bridge" where
  "connection_tick w b =
     (if is_connected w (trace (st b)) then (None, heartbeat (b\<lparr>disconnected_since := None\<rparr>))
      else
        (case disconnected_since b of
           None \<Rightarrow> (None, b\<lparr>disconnected_since := Some (wall b)\<rparr>)
         | Some t \<Rightarrow>
             if disconnectThreshold \<le> wall b - t
             then (Some (ErrText ''disconnected for >5m0s - restarting''), b)
             else (None, b)))"

section \<open>Typing and profile pictures\<close>

definition presence_state :: "string \<Rightarrow> string option" where
  "presence_state s =
     (if s = ''composing'' then Some ''composing''
      else if s = ''paused'' then Some ''paused'' else None)"

definition send_typing :: "wa \<Rightarrow> typing_request \<Rightarrow> store \<Rightarrow> store" where
  "send_typing w r s =
     (case parse_jid w (tr_chat_jid r) of
        Inl _ \<Rightarrow> s
      | Inr j \<Rightarrow>
          (case presence_state (tr_state r) of
             None \<Rightarrow> s
           | Some state \<Rightarrow> emit (WaPresence (jid_string w j) state) s))"

definition flushTypingOutbound :: "wa \<Rightarrow> bridge \<Rightarrow> bridge" where
  "flushTypingOutbound w b =
     (case DrainTypingOutbound 25 (st b) of
        (Inl _, s1) \<Rightarrow> b\<lparr>st := s1\<rparr>
      | (Inr batch, s1) \<Rightarrow> b\<lparr>st := foldl (\<lambda>s r. send_typing w r s) s1 batch\<rparr>)"

text \<open>The loop over the stale chats; \<open>n\<close> of them are begun before the context ends.\<close>

definition refresh_picture :: "wa \<Rightarrow> string \<Rightarrow> store \<Rightarrow> store" where
  "refresh_picture w jidStr s =
     (case parse_jid w jidStr of
        Inl _ \<Rightarrow> s
      | Inr j \<Rightarrow>
          snd (UpdateProfilePic jidStr
            (case profile_picture w (trace s) j of Inr (Some url) \<Rightarrow> url | _ \<Rightarrow> '''') s))"

definition refreshStaleProfilePics :: "wa \<Rightarrow> int \<Rightarrow> nat \<Rightarrow> nat \<Rightarrow> bridge \<Rightarrow> bridge" where
  "refreshStaleProfilePics w staleAfter limit n b =
     (case FindStaleProfilePics staleAfter limit (st b) of
        (Inl _, s1) \<Rightarrow> b\<lparr>st := s1\<rparr>
      | (Inr jids, s1) \<Rightarrow> b\<lparr>st := foldl (\<lambda>s j. refresh_picture w j s) s1 (take n jids)\<rparr>)"

definition typing_tick :: "wa \<Rightarrow> bridge \<Rightarrow> bridge" where
  "typing_tick w b = (if is_connected w (trace (st b)) then flushTypingOutbound w b else b)"

definition picture_tick :: "wa \<Rightarrow> nat \<Rightarrow> bridge \<Rightarrow> bridge" where
  "picture_tick w n b =
     (if is_connected w (trace (st b)) then refreshStaleProfilePics w (18 * hour) 30 n b else b)"

end
