(* ===== verification/MessageLaws.thy ===== *)
theory MessageLaws
  imports Samples "HOL-Library.Multiset"
begin

text \<open>
  What the methods of \<open>StoreMessages\<close> promise: insertion degrades exactly by the columns the
  database lacks, edits keep the first text, a delete keeps its first stamp, one reaction
  per sender and message, delivery status only moves forward.
\<close>

section \<open>Insertion on any schema\<close>

definition has_cols :: "(string \<times> string) list \<Rightarrow> 'x db_scheme \<Rightarrow> bool" where
  "has_cols cols d \<longleftrightarrow> list_all (\<lambda>(k, _). k \<notin> set (missing_columns d)) cols"

lemma has_cols_Nil [simp]: "has_cols [] d"
  by (simp add: has_cols_def)

abbreviation first_missing :: "(string \<times> string) list \<Rightarrow> 'x db_scheme \<Rightarrow> (string \<times> string) option" where
  "first_missing cols d \<equiv> find (\<lambda>(k, _). k \<in> set (missing_columns d)) cols"

lemma first_missing_None: "first_missing cols d = None \<longleftrightarrow> has_cols cols d"
  by (auto simp: has_cols_def find_None_iff list_all_iff)

lemma first_missing_Some: "first_missing cols d = Some kc \<Longrightarrow> kc \<in> set cols \<and> \<not> has_cols cols d"
  by (induction cols) (auto simp: has_cols_def split: if_splits prod.splits)

lemma find_append: "find P (xs @ ys) = (case find P xs of None \<Rightarrow> find P ys | Some x \<Rightarrow> Some x)"
  by (induction xs) auto

lemma quote_owner: "kc \<in> set quote_cols \<Longrightarrow> columnOwner (unknown_column (snd kc)) = None"
  by (auto simp: quote_cols_def columnOwner_unknown_column columnFeature_def)

lemma location_owner:
  "kc \<in> set location_cols \<Longrightarrow> columnOwner (unknown_column (snd kc)) = Some featureLocation"
  by (auto simp: location_cols_def columnOwner_unknown_column columnFeature_def)

lemma feature_neq [simp]:
  "featureLocation \<noteq> featureQuotes" "featureQuotes \<noteq> featureLocation"
  "featureEdits \<noteq> featureQuotes" "featureEdits \<noteq> featureLocation"
  "featureLocation \<noteq> featureEdits" "featureQuotes \<noteq> featureEdits"
  by (simp_all add: feature_defs)

lemma has_cols_cong [simp]:
  "has_cols cols (sent_off n s) = has_cols cols s"
  "has_cols cols (switch_off f s') = has_cols cols s'"
  "has_cols cols (set_messages g s') = has_cols cols s'"
  by (simp_all add: has_cols_def)

text \<open>What the row keeps on this database.\<close>

definition quotes_on :: "store \<Rightarrow> bool" where
  "quotes_on s \<longleftrightarrow> featureQuotes \<notin> off s \<and> has_cols quote_cols s"

definition location_on :: "store \<Rightarrow> bool" where
  "location_on s \<longleftrightarrow> featureLocation \<notin> off s \<and> has_cols location_cols s"

definition kept :: "store \<Rightarrow> message \<Rightarrow> message" where
  "kept s m =
     (let m1 = (if location_on s then m else without_location m)
      in if quotes_on s then m1 else without_quotes m1)"

lemma kept_fields [simp]:
  "m_id (kept s m) = m_id m" "m_chat_jid (kept s m) = m_chat_jid m"
  "m_from_me (kept s m) = m_from_me m" "m_timestamp (kept s m) = m_timestamp m"
  "m_message_type (kept s m) = m_message_type m" "m_body (kept s m) = m_body m"
  "m_sender_jid (kept s m) = m_sender_jid m" "m_status (kept s m) = m_status m"
  "m_client_request_id (kept s m) = m_client_request_id m" "m_media_url (kept s m) = m_media_url m"
  by (simp_all add: kept_def Let_def without_location_def without_quotes_def)

definition inserted :: "message \<Rightarrow> store \<Rightarrow> message_row list" where
  "inserted m s =
     (if m_id m \<in> m_id ` set (wa_messages s) \<or> m_chat_jid m \<notin> c_jid ` set (wa_chats s)
      then wa_messages s else wa_messages s @ [stored m])"

lemma insert_ignore_eq:
  "insert_ignore m s = (Inr (), s\<lparr>wa_messages := inserted m s\<rparr>)"
  by (auto simp: insert_ignore_def writes_def inserted_def set_messages_def)

lemma inserted_cong [simp]:
  "inserted m (sent_off n s) = inserted m s" "inserted m (switch_off f s) = inserted m s"
  by (simp_all add: inserted_def)

text \<open>
  The outcome of one quiet \<^const>\<open>insertMessage\<close>: either the row is written, with the quote
  columns when they are there, or a location column is missing and nothing is.
\<close>

lemma insertMessage_quiet:
  assumes "replies s = []" and "\<not> l \<or> has_cols location_cols s"
    and "row = (if l then m else without_location m)"
  shows "fst (insertMessage m l s) = Inr () \<and>
    wa_messages (snd (insertMessage m l s)) =
      inserted (if quotes_on s then row else without_quotes row) s"
proof -
  define locCols where "locCols = (if l then location_cols else [])"
  have nl: "first_missing locCols s = None"
    using assms(2) by (auto simp: locCols_def first_missing_None)
  have im: "insertMessage m l = Fallback featureQuotes
      (exec ''INSERT wa_messages'' (quote_cols @ locCols) (insert_ignore row))
      (Some (exec ''INSERT wa_messages'' locCols (insert_ignore (without_quotes row)))) ()"
    by (simp add: insertMessage_def Let_def locCols_def assms(3))
  show ?thesis
  proof (cases "first_missing quote_cols s")
    case None
    then have "has_cols quote_cols s" by (simp add: first_missing_None)
    with None nl assms(1) show ?thesis
      by (simp add: im Fallback_def FeatureOff_def legacy_def quotes_on_def exec_quiet find_append
          insert_ignore_eq)
  next
    case (Some kq)
    obtain k cq where kq: "kq = (k, cq)" by (cases kq)
    have "columnOwner (unknown_column cq) = None" "\<not> has_cols quote_cols s"
      using first_missing_Some [OF Some] quote_owner by (fastforce simp: kq)+
    with Some nl assms(1) show ?thesis
      by (simp add: im Fallback_def FeatureOff_def legacy_def quotes_on_def exec_quiet find_append
          insert_ignore_eq kq)
  qed
qed

lemma insertMessage_no_location:
  assumes "replies s = []" and "\<not> has_cols location_cols s"
  shows "\<exists>e s1. insertMessage m True s = (Inl e, s1) \<and> IsUnknownColumn e \<and>
    columnOwner e = Some featureLocation \<and>
    wa_messages s1 = wa_messages s \<and> wa_chats s1 = wa_chats s \<and> replies s1 = [] \<and>
    missing_columns s1 = missing_columns s \<and>
    off s1 = (if quotes_on s then off s else insert featureQuotes (off s))"
proof -
  obtain kl cl where l: "first_missing location_cols s = Some (kl, cl)"
    using assms(2) by (auto simp: first_missing_None [symmetric])
  have ol: "columnOwner (unknown_column cl) = Some featureLocation"
    using first_missing_Some [OF l] location_owner by fastforce
  show ?thesis
  proof (cases "first_missing quote_cols s")
    case None
    then have "has_cols quote_cols s" by (simp add: first_missing_None)
    with None show ?thesis
      using assms l ol
      by (auto simp: insertMessage_def Let_def Fallback_def FeatureOff_def legacy_def quotes_on_def
          exec_quiet find_append)
  next
    case (Some kq)
    obtain k cq where kq: "kq = (k, cq)" by (cases kq)
    have oq: "columnOwner (unknown_column cq) = None" "\<not> has_cols quote_cols s"
      using first_missing_Some [OF Some] quote_owner by (fastforce simp: kq)+
    then show ?thesis
      using assms l ol Some
      by (auto simp: insertMessage_def Let_def Fallback_def FeatureOff_def legacy_def quotes_on_def
          exec_quiet find_append kq)
  qed
qed

lemma without_location_id: "m_location_name m = None \<Longrightarrow> m_location_address m = None \<Longrightarrow>
  without_location m = m"
  by (simp add: without_location_def)

lemma InsertMessage_quiet:
  assumes "replies s = []"
  shows "fst (InsertMessage m s) = Inr () \<and>
    wa_messages (snd (InsertMessage m s)) = inserted (kept s m) s"
proof (cases "m_location_name m = None \<and> m_location_address m = None")
  case True
  then show ?thesis
    using insertMessage_quiet [OF assms, of False "without_location m" m]
    by (auto simp: InsertMessage_def kept_def without_location_id)
next
  case loc: False
  show ?thesis
  proof (cases "featureLocation \<in> off s")
    case True
    with loc show ?thesis
      using insertMessage_quiet [OF assms, of False "without_location m" m]
      by (auto simp: InsertMessage_def Fallback_def FeatureOff_def legacy_def kept_def location_on_def)
  next
    case on: False
    show ?thesis
    proof (cases "has_cols location_cols s")
      case True
      then show ?thesis
        using insertMessage_quiet [OF assms, of True m m] loc on
        by (auto simp: InsertMessage_def Fallback_def FeatureOff_def legacy_def kept_def
            location_on_def split: prod.split sum.split)
    next
      case False
      obtain e s1 where e: "insertMessage m True s = (Inl e, s1)" "IsUnknownColumn e"
          "columnOwner e = Some featureLocation" "wa_messages s1 = wa_messages s"
          "wa_chats s1 = wa_chats s" "replies s1 = []" "missing_columns s1 = missing_columns s"
          "off s1 = (if quotes_on s then off s else insert featureQuotes (off s))"
        using insertMessage_no_location [OF assms False] by blast
      define s2 where "s2 = switch_off featureLocation s1"
      have q: "quotes_on s2 = quotes_on s"
        using e by (auto simp: s2_def quotes_on_def has_cols_def)
      have i: "inserted r s2 = inserted r s" for r
        using e by (simp add: s2_def inserted_def)
      have r: "replies s2 = []" using e by (simp add: s2_def)
      show ?thesis
        using insertMessage_quiet [OF r, of False "without_location m" m] loc on e(1,2,3) False
        by (auto simp: InsertMessage_def Fallback_def FeatureOff_def legacy_def kept_def
            location_on_def s2_def [symmetric] q i)
    qed
  qed
qed

text \<open>C11: InsertMessage against any schema stores exactly the row without the columns the database lacks, and never fails for a missing column.\<close>

theorem InsertMessage_degrades:
  assumes "replies s = []"
  shows "fst (InsertMessage m s) = Inr () \<and>
    wa_messages (snd (InsertMessage m s)) = inserted (kept s m) s"
  using assms by (rule InsertMessage_quiet)

section \<open>Edits and deletes\<close>

definition located :: "string \<Rightarrow> string list \<Rightarrow> message_row list \<Rightarrow> message_row option" where
  "located mid chats ms =
     (if mid = '''' then None else find (\<lambda>m. m_id m = mid \<and> m_chat_jid m \<in> set chats) ms)"

definition ref_of :: "message_row \<Rightarrow> message_ref" where
  "ref_of m = \<lparr>ref_chat_jid = m_chat_jid m, ref_from_me = m_from_me m\<rparr>"

lemma ref_of_simps [simp]:
  "ref_chat_jid (ref_of m) = m_chat_jid m" "ref_from_me (ref_of m) = m_from_me m"
  by (simp_all add: ref_of_def)

lemma LocateMessage_state:
  "wa_messages (snd (LocateMessage mid chats s)) = wa_messages s \<and>
   wa_chats (snd (LocateMessage mid chats s)) = wa_chats s \<and>
   off (snd (LocateMessage mid chats s)) = off s \<and>
   missing_columns (snd (LocateMessage mid chats s)) = missing_columns s \<and>
   utc_now (snd (LocateMessage mid chats s)) = utc_now s"
proof -
  have "\<exists>r. LocateMessage mid chats s = (r, s) \<or>
      LocateMessage mid chats s = (r, sent_off ''SELECT wa_messages'' s)"
    by (auto simp: LocateMessage_def split: prod.split sum.split elim!: exec_cases)
      (auto simp: selects_def)
  then show ?thesis by auto
qed

lemma find_never [simp]: "find (\<lambda>x. False) xs = None"
  by (induction xs) auto

text \<open>Whatever the database answers, a message is only found where it is.\<close>

lemma LocateMessage_found:
  assumes "LocateMessage mid chats s = ((ref, True, err), s1)"
  shows "\<exists>m. located mid chats (wa_messages s) = Some m \<and> ref = ref_of m \<and> err = None"
  using assms
  by (auto simp: LocateMessage_def located_def ref_of_def one_row_def
      split: if_splits prod.splits sum.splits option.splits dest!: exec_Inr)
    (auto simp: selects_def split: option.splits)

lemma LocateMessage_quiet:
  assumes "replies s = []"
  shows "fst (LocateMessage mid chats s) =
    (case located mid chats (wa_messages s) of
       None \<Rightarrow> (no_ref, False, None) | Some m \<Rightarrow> (ref_of m, True, None))"
  using assms
  by (auto simp: LocateMessage_def located_def exec_quiet selects_def one_row_def ref_of_def
      split: option.split)

lemma located_Some: "located mid chats ms = Some m \<Longrightarrow> m \<in> set ms \<and> m_id m = mid"
  by (auto simp: located_def find_Some_iff split: if_splits)

definition edits_on :: "store \<Rightarrow> (string \<times> string) list \<Rightarrow> bool" where
  "edits_on s cols \<longleftrightarrow> featureEdits \<notin> off s \<and> has_cols cols s"

lemma edit_owner:
  "kc \<in> set (edit_cols @ revoke_cols) \<Longrightarrow> columnOwner (unknown_column (snd kc)) = None"
  by (auto simp: edit_cols_def revoke_cols_def columnOwner_unknown_column columnFeature_def)

text \<open>\<^const>\<open>Fallback\<close> around one UPDATE without a legacy form.\<close>

lemma Fallback_None_messages:
  "wa_messages (snd (Fallback f (exec n cols (update_message mid chat g)) None () s)) = wa_messages s \<or>
   wa_messages (snd (Fallback f (exec n cols (update_message mid chat g)) None () s)) =
     update_where (\<lambda>m. m_id m = mid \<and> m_chat_jid m = chat) (g (utc_now s)) (wa_messages s)"
proof -
  let ?e = "exec n cols (update_message mid chat g) s"
  have "wa_messages (snd ?e) = wa_messages s \<or> wa_messages (snd ?e) =
     update_where (\<lambda>m. m_id m = mid \<and> m_chat_jid m = chat) (g (utc_now s)) (wa_messages s)"
    using exec_snd [of n cols "update_message mid chat g" s] by (auto simp: update_message_def)
  then show ?thesis
    by (cases ?e) (auto simp: Fallback_def legacy_def split: sum.split)
qed

lemma Fallback_None_quiet:
  fixes n cols mid chat g s
  defines "r \<equiv> Fallback featureEdits (exec n cols (update_message mid chat g)) None () s"
  assumes "replies s = []" "set cols \<subseteq> set (edit_cols @ revoke_cols)"
  shows "fst r = Inr () \<and>
    off (snd r) = (if edits_on s cols then off s else insert featureEdits (off s)) \<and>
    wa_messages (snd r) =
      (if edits_on s cols
       then update_where (\<lambda>m. m_id m = mid \<and> m_chat_jid m = chat) (g (utc_now s)) (wa_messages s)
       else wa_messages s)"
proof (cases "first_missing cols s")
  case None
  then have "has_cols cols s" by (simp add: first_missing_None)
  with None assms(2) show ?thesis
    by (auto simp: r_def Fallback_def FeatureOff_def legacy_def edits_on_def exec_quiet
        update_message_def writes_def)
next
  case (Some kc)
  obtain k c where kc: "kc = (k, c)" by (cases kc)
  have "\<not> has_cols cols s" "columnOwner (unknown_column c) = None"
    using first_missing_Some [OF Some] edit_owner [of "(k, c)"] assms(3) by (auto simp: kc)
  with Some assms(2) show ?thesis
    by (auto simp: r_def kc Fallback_def FeatureOff_def legacy_def edits_on_def exec_quiet)
qed

lemma ApplyEdit_quiet:
  assumes "replies s = []"
  shows "(case located t chats (wa_messages s) of
     None \<Rightarrow>
       fst (ApplyEdit chats t fromMe b s) = (no_ref, False, None) \<and>
       wa_messages (snd (ApplyEdit chats t fromMe b s)) = wa_messages s
   | Some m \<Rightarrow>
       if m_from_me m \<noteq> fromMe then
         fst (ApplyEdit chats t fromMe b s) = (ref_of m, True, Some ErrNotAuthor) \<and>
         wa_messages (snd (ApplyEdit chats t fromMe b s)) = wa_messages s
       else if edits_on s edit_cols then
         fst (ApplyEdit chats t fromMe b s) = (ref_of m, True, None) \<and>
         wa_messages (snd (ApplyEdit chats t fromMe b s)) =
           update_where (\<lambda>x. m_id x = t \<and> m_chat_jid x = m_chat_jid m)
             (edit_row b (utc_now s)) (wa_messages s)
       else
         fst (ApplyEdit chats t fromMe b s) = (ref_of m, True, Some ErrEditsUnsupported) \<and>
         wa_messages (snd (ApplyEdit chats t fromMe b s)) = wa_messages s)"
proof -
  obtain ref found err s1 where l: "LocateMessage t chats s = ((ref, found, err), s1)"
    by (metis prod.exhaust)
  have st: "wa_messages s1 = wa_messages s" "off s1 = off s" "utc_now s1 = utc_now s"
      "missing_columns s1 = missing_columns s" "replies s1 = []"
    using LocateMessage_state [of t chats s] locate_op.run_quiet [OF assms, of t chats]
    by (simp_all add: l)
  have on: "edits_on s1 edit_cols = edits_on s edit_cols"
    using st by (simp add: edits_on_def has_cols_def)
  show ?thesis
  proof (cases "located t chats (wa_messages s)")
    case None
    then show ?thesis
      using LocateMessage_quiet [OF assms, of t chats] st by (simp add: l ApplyEdit_def)
  next
    case (Some m)
    then have r: "ref = ref_of m" "found = True" "err = None"
      using LocateMessage_quiet [OF assms, of t chats] by (simp_all add: l)
    obtain x s2 where f: "Fallback featureEdits
        (exec ''UPDATE wa_messages edit'' edit_cols
           (update_message t (m_chat_jid m) (edit_row b))) None () s1 = (x, s2)"
      by (metis prod.exhaust)
    show ?thesis
      using Some r st f on
        Fallback_None_quiet [OF st(5), of edit_cols "''UPDATE wa_messages edit''" t "m_chat_jid m" "edit_row b"]
      by (auto simp: ApplyEdit_def l FeatureOff_def edits_on_def split: if_splits)
  qed
qed

text \<open>ApplyEdit on every branch: unknown message, message of the other side, schema without edit columns, and the edit.\<close>

theorem ApplyEdit_outcome:
  assumes "replies s = []"
  shows "(case located t chats (wa_messages s) of
     None \<Rightarrow>
       fst (ApplyEdit chats t fromMe b s) = (no_ref, False, None) \<and>
       wa_messages (snd (ApplyEdit chats t fromMe b s)) = wa_messages s
   | Some m \<Rightarrow>
       if m_from_me m \<noteq> fromMe then
         fst (ApplyEdit chats t fromMe b s) = (ref_of m, True, Some ErrNotAuthor) \<and>
         wa_messages (snd (ApplyEdit chats t fromMe b s)) = wa_messages s
       else if edits_on s edit_cols then
         fst (ApplyEdit chats t fromMe b s) = (ref_of m, True, None) \<and>
         wa_messages (snd (ApplyEdit chats t fromMe b s)) =
           update_where (\<lambda>x. m_id x = t \<and> m_chat_jid x = m_chat_jid m)
             (edit_row b (utc_now s)) (wa_messages s)
       else
         fst (ApplyEdit chats t fromMe b s) = (ref_of m, True, Some ErrEditsUnsupported) \<and>
         wa_messages (snd (ApplyEdit chats t fromMe b s)) = wa_messages s)"
  using assms by (rule ApplyEdit_quiet)

text \<open>The rows an edit or a delete can change, whatever the database answers.\<close>

lemma ApplyEdit_messages:
  "wa_messages (snd (ApplyEdit chats t fromMe b s)) = wa_messages s \<or>
   (\<exists>m. located t chats (wa_messages s) = Some m \<and> m_from_me m = fromMe \<and>
      wa_messages (snd (ApplyEdit chats t fromMe b s)) =
        update_where (\<lambda>x. m_id x = t \<and> m_chat_jid x = m_chat_jid m)
          (edit_row b (utc_now s)) (wa_messages s))"
proof -
  obtain ref found err s1 where l: "LocateMessage t chats s = ((ref, found, err), s1)"
    by (metis prod.exhaust)
  have st: "wa_messages s1 = wa_messages s" "utc_now s1 = utc_now s"
    using LocateMessage_state [of t chats s] by (simp_all add: l)
  show ?thesis
  proof (cases "err = None \<and> found \<and> ref_from_me ref = fromMe")
    case False
    then show ?thesis using st by (auto simp: ApplyEdit_def l)
  next
    case True
    then obtain m where m: "located t chats (wa_messages s) = Some m" "ref = ref_of m"
      using LocateMessage_found [of t chats s ref err s1] by (auto simp: l)
    define fb where "fb = Fallback featureEdits
        (exec ''UPDATE wa_messages edit'' edit_cols
           (update_message t (m_chat_jid m) (edit_row b))) None () s1"
    have "wa_messages (snd (ApplyEdit chats t fromMe b s)) = wa_messages (snd fb)"
      using True m by (cases fb) (auto simp: ApplyEdit_def l fb_def [symmetric] split: sum.split)
    then show ?thesis
      using Fallback_None_messages [of featureEdits _ _ t "m_chat_jid m" "edit_row b" s1] m True st
      by (auto simp: fb_def)
  qed
qed

lemma RevokeMessage_messages:
  "wa_messages (snd (RevokeMessage chats t fromMe g s)) = wa_messages s \<or>
   (\<exists>m. located t chats (wa_messages s) = Some m \<and> (g \<or> m_from_me m = fromMe) \<and>
      wa_messages (snd (RevokeMessage chats t fromMe g s)) =
        update_where (\<lambda>x. m_id x = t \<and> m_chat_jid x = m_chat_jid m)
          (revoke_row (utc_now s)) (wa_messages s))"
proof -
  obtain ref found err s1 where l: "LocateMessage t chats s = ((ref, found, err), s1)"
    by (metis prod.exhaust)
  have st: "wa_messages s1 = wa_messages s" "utc_now s1 = utc_now s"
    using LocateMessage_state [of t chats s] by (simp_all add: l)
  show ?thesis
  proof (cases "\<not> FeatureOff featureEdits s \<and> err = None \<and> found \<and> (g \<or> ref_from_me ref = fromMe)")
    case False
    then show ?thesis using st by (auto simp: RevokeMessage_def l)
  next
    case True
    then obtain m where m: "located t chats (wa_messages s) = Some m" "ref = ref_of m"
      using LocateMessage_found [of t chats s ref err s1] by (auto simp: l)
    define fb where "fb = Fallback featureEdits
        (exec ''UPDATE wa_messages revoke'' revoke_cols
           (update_message t (m_chat_jid m) revoke_row)) None () s1"
    have "wa_messages (snd (RevokeMessage chats t fromMe g s)) = wa_messages (snd fb)"
      using True m by (cases fb) (auto simp: RevokeMessage_def l fb_def [symmetric] split: sum.split)
    then show ?thesis
      using Fallback_None_messages [of featureEdits _ _ t "m_chat_jid m" revoke_row s1] m True st
      by (auto simp: fb_def)
  qed
qed

text \<open>C19: A message of the other side is never changed by an edit or by a non-group delete, whatever the database answers.\<close>

theorem only_author_edits:
  assumes "tables_ok s" "m \<in> set (wa_messages s)" "m_from_me m \<noteq> fromMe"
  shows "m \<in> set (wa_messages (snd (ApplyEdit chats t fromMe b s))) \<and>
    m \<in> set (wa_messages (snd (RevokeMessage chats t fromMe False s)))"
proof -
  have keep: "m \<in> set (update_where (\<lambda>x. m_id x = t \<and> m_chat_jid x = c) f (wa_messages s))"
    if "located t chats (wa_messages s) = Some m0" "m_from_me m0 = fromMe" for m0 c f
  proof -
    have "distinct (map m_id (wa_messages s))" using assms(1) by (simp add: tables_ok_def)
    then have "m_id m \<noteq> t"
      using located_Some [OF that(1)] assms(2,3) that(2) by (metis option.inject row_by_distinct)
    with assms(2) show ?thesis by (auto simp: set_update_where intro!: image_eqI [of _ _ m])
  qed
  show ?thesis
    using ApplyEdit_messages [of chats t fromMe b s] RevokeMessage_messages [of chats t fromMe False s]
      assms(2) keep by auto
qed

text \<open>The text a message had before its first edit.\<close>

definition first_text :: "string \<Rightarrow> message_row \<Rightarrow> bool" where
  "first_text t m \<longleftrightarrow> m_original_body m = Some t \<or> m_original_body m = None \<and> m_body m = Some t"

definition run_edits ::
  "(string list \<times> string \<times> bool \<times> string option) list \<Rightarrow> store \<Rightarrow> store" where
  "run_edits es = fold (\<lambda>(chats, t, fromMe, b) s. snd (ApplyEdit chats t fromMe b s)) es"

lemma row_by_edit:
  assumes "row_by m_id x ms = Some m" and "\<And>r. m_id (f r) = m_id r"
  shows "row_by m_id x (update_where p f ms) = Some (if p m then f m else m)"
  using assms by (simp add: row_by_update_where)

lemma ApplyEdit_first_text:
  assumes "row_by m_id x (wa_messages s) = Some m" "first_text t m"
  shows "\<exists>m'. row_by m_id x (wa_messages (snd (ApplyEdit c i fm b s))) = Some m' \<and> first_text t m'"
  using ApplyEdit_messages [of c i fm b s] assms
  by (auto simp: row_by_edit edit_row_def first_text_def)

text \<open>C20: Any sequence of edits keeps the text a message had before its first edit.\<close>

theorem edits_keep_first_text:
  assumes "row_by m_id x (wa_messages s) = Some m" "first_text t m"
  shows "\<exists>m'. row_by m_id x (wa_messages (run_edits es s)) = Some m' \<and> first_text t m'"
  using assms
proof (induction es arbitrary: s m)
  case Nil
  then show ?case by (simp add: run_edits_def)
next
  case (Cons e es)
  obtain c i fm b where e: "e = (c, i, fm, b)" by (metis prod.exhaust)
  from ApplyEdit_first_text [OF Cons.prems, of c i fm b] Cons.IH show ?case
    by (auto simp: run_edits_def e)
qed

text \<open>A delete for everyone keeps the body, and a second delete keeps the first stamp.\<close>

theorem revoke_keeps_body_and_stamp:
  assumes "row_by m_id x (wa_messages s) = Some m"
  shows "\<exists>m'. row_by m_id x (wa_messages (snd (RevokeMessage chats t fromMe g s))) = Some m' \<and>
    m_body m' = m_body m \<and> (m_revoked_at m \<noteq> None \<longrightarrow> m' = m)"
  using RevokeMessage_messages [of chats t fromMe g s] assms
  by (auto simp: row_by_edit revoke_row_def)

section \<open>Delivery status\<close>

text \<open>
  The contract: statuses form a chain, \<open>received < sent < delivered < read\<close>, NULL below all,
  and every other status (\<open>failed\<close>) is final. A receipt moves a status up, never down.
\<close>

definition advance :: "string \<Rightarrow> string option \<Rightarrow> string option" where
  "advance new cur =
     (case cur of
        None \<Rightarrow> Some new
      | Some c \<Rightarrow>
          (case (status_rank c, status_rank new) of
             (Some a, Some b) \<Rightarrow> if a < b then Some new else cur
           | _ \<Rightarrow> cur))"

definition receipt :: "string list \<times> string \<Rightarrow> message_row \<Rightarrow> message_row" where
  "receipt = (\<lambda>(ids, new) m.
     if m_id m \<in> set ids \<and> m_from_me m then m\<lparr>m_status := advance new (m_status m)\<rparr> else m)"

lemma status_rank_name: "status_rank c = Some r \<Longrightarrow> c \<in> set rank_names"
  unfolding status_rank_def rank_names_def by (drule map_of_SomeD) force

lemma allowed_current_iff: "c \<in> set (allowed_current k) \<longleftrightarrow> (\<exists>r. status_rank c = Some r \<and> r < k)"
  by (auto simp: allowed_current_def split: option.splits dest: status_rank_name)

lemma mark_status_receipt:
  assumes "status_rank new = Some k"
  shows "mark_status ids (allowed_current k) new = receipt (ids, new)"
proof
  fix m
  show "mark_status ids (allowed_current k) new m = receipt (ids, new) m"
    using assms
    by (auto simp: mark_status_def receipt_def allowed_current_iff advance_def
        split: option.split)
qed

text \<open>A receipt status: one the bridge asks for, above \<open>received\<close>.\<close>

definition receipt_status :: "string \<Rightarrow> bool" where
  "receipt_status new \<longleftrightarrow> (case status_rank new of Some k \<Rightarrow> 0 < k | None \<Rightarrow> False)"

lemma allowed_current_pos: "allowed_current k \<noteq> [] \<longleftrightarrow> 0 < k"
proof
  assume "allowed_current k \<noteq> []"
  then have "hd (allowed_current k) \<in> set (allowed_current k)" by simp
  then show "0 < k" by (auto simp: allowed_current_iff)
next
  assume "0 < k"
  then have "''received'' \<in> set (allowed_current k)"
    by (simp add: allowed_current_iff status_rank_def)
  then show "allowed_current k \<noteq> []" by auto
qed

lemma receipt_id [simp]: "receipt ([], new) = (\<lambda>m. m)"
  by (auto simp: receipt_def)

text \<open>C22: MarkMessagesStatus is the pointwise maximum of the stored status and the receipt on the named own messages.\<close>

theorem MarkMessagesStatus_refines:
  assumes "replies s = []" "receipt_status new"
  shows "fst (MarkMessagesStatus ids new s) = Inr () \<and>
    wa_messages (snd (MarkMessagesStatus ids new s)) = map (receipt (ids, new)) (wa_messages s)"
proof -
  obtain k where k: "status_rank new = Some k" "0 < k"
    using assms(2) by (auto simp: receipt_status_def split: option.splits)
  then have al: "allowed_current k \<noteq> []" by (simp add: allowed_current_pos)
  show ?thesis
    using assms(1) k(1) al
    by (auto simp: MarkMessagesStatus_def exec_quiet writes_def mark_status_receipt)
qed

text \<open>The rank of a stored status; NULL is the bottom, a final status is outside the chain.\<close>

definition rank_of :: "string option \<Rightarrow> nat option" where
  "rank_of st = (case st of None \<Rightarrow> Some 0 | Some c \<Rightarrow> map_option Suc (status_rank c))"

lemma MarkMessagesStatus_messages:
  "wa_messages (snd (MarkMessagesStatus ids new s)) = wa_messages s \<or>
   (\<exists>k. status_rank new = Some k \<and>
     wa_messages (snd (MarkMessagesStatus ids new s)) = map (receipt (ids, new)) (wa_messages s))"
proof (cases "status_rank new")
  case None
  then show ?thesis by (auto simp: MarkMessagesStatus_def)
next
  case (Some k)
  let ?w = "writes (set_messages (map (mark_status ids (allowed_current k) new)))
    :: store \<Rightarrow> unit res \<times> store"
  show ?thesis
    using exec_snd [of "''UPDATE wa_messages status''" "[]" ?w s] Some
    by (auto simp: MarkMessagesStatus_def mark_status_receipt)
qed

text \<open>MarkMessagesStatus never lowers the rank of a status, never touches an inbound or a failed message, and changes nothing else.\<close>

theorem status_never_moves_back:
  assumes "row_by m_id x (wa_messages s) = Some m"
  shows "\<exists>m'. row_by m_id x (wa_messages (snd (MarkMessagesStatus ids new s))) = Some m' \<and>
    (case (rank_of (m_status m), rank_of (m_status m')) of
       (Some a, Some b) \<Rightarrow> a \<le> b \<and> (a = b \<longrightarrow> m' = m)
     | _ \<Rightarrow> m' = m) \<and>
    (\<not> m_from_me m \<longrightarrow> m' = m)"
proof -
  have rb: "row_by m_id x (map (receipt r) (wa_messages s)) = Some (receipt r m)" for r
    using assms row_by_update_where [of "wa_messages s" "\<lambda>_. True" m_id "receipt r" x]
    by (simp add: update_where_def receipt_def split: prod.splits)
  show ?thesis
    using MarkMessagesStatus_messages [of ids new s]
  proof
    assume "wa_messages (snd (MarkMessagesStatus ids new s)) = wa_messages s"
    with assms show ?thesis by (auto simp: rank_of_def split: option.split)
  next
    assume "\<exists>k. status_rank new = Some k \<and>
      wa_messages (snd (MarkMessagesStatus ids new s)) = map (receipt (ids, new)) (wa_messages s)"
    then obtain k where k: "status_rank new = Some k"
      and w: "wa_messages (snd (MarkMessagesStatus ids new s)) = map (receipt (ids, new)) (wa_messages s)"
      by blast
    show ?thesis
      unfolding w rb using k
      by (auto simp: receipt_def advance_def rank_of_def split: option.splits)
  qed
qed

text \<open>
  Receipts of a batch, applied one after the other. Because each is a maximum, the order in
  which WhatsApp delivers them does not matter.
\<close>

definition run_receipts :: "(string list \<times> string) list \<Rightarrow> store \<Rightarrow> store" where
  "run_receipts rs = fold (\<lambda>(ids, new) s. snd (MarkMessagesStatus ids new s)) rs"

lemma run_receipts_messages:
  assumes "replies s = []" "list_all (\<lambda>(_, new). receipt_status new) rs"
  shows "wa_messages (run_receipts rs s) = fold (\<lambda>r. map (receipt r)) rs (wa_messages s)"
  using assms
proof (induction rs arbitrary: s)
  case Nil
  then show ?case by (simp add: run_receipts_def)
next
  case (Cons r rs)
  obtain ids new where r: "r = (ids, new)" by (cases r)
  have q: "replies (snd (MarkMessagesStatus ids new s)) = []"
    using Cons.prems(1) by (rule status_op.run_quiet)
  have st: "receipt_status new" using Cons.prems(2) by (simp add: r)
  show ?case
    using Cons.IH [OF q] Cons.prems(2) MarkMessagesStatus_refines [OF Cons.prems(1) st, of ids]
    by (simp add: run_receipts_def r)
qed

lemma status_rank_inj:
  assumes "status_rank a = Some r" "status_rank b = Some r"
  shows "a = b"
  using assms status_rank_name [OF assms(1)] status_rank_name [OF assms(2)]
  by (auto simp: rank_names_def status_rank_def)

lemma advance_commute:
  assumes "receipt_status a" "receipt_status b"
  shows "advance a (advance b c) = advance b (advance a c)"
  using assms status_rank_inj
  by (cases c) (fastforce simp: advance_def receipt_status_def split: option.splits)+

lemma receipt_commute:
  assumes "receipt_status (snd r)" "receipt_status (snd r')"
  shows "receipt r (receipt r' m) = receipt r' (receipt r m)"
proof (cases r; cases r')
  fix i a j b
  assume r: "r = (i, a)" "r' = (j, b)"
  then have c: "advance a (advance b (m_status m)) = advance b (advance a (m_status m))"
    using assms by (intro advance_commute) simp_all
  show ?thesis
  proof (cases "m_from_me m \<and> m_id m \<in> set i \<and> m_id m \<in> set j")
    case True
    then show ?thesis by (simp add: r receipt_def c)
  next
    case False
    then show ?thesis
      by (cases "m_from_me m"; cases "m_id m \<in> set i"; cases "m_id m \<in> set j")
        (simp_all add: r receipt_def)
  qed
qed

text \<open>Delivery receipts applied in any order leave the same statuses.\<close>

theorem receipts_commute:
  assumes "replies s = []" "mset rs = mset rs'" "list_all (\<lambda>(_, new). receipt_status new) rs"
  shows "wa_messages (run_receipts rs s) = wa_messages (run_receipts rs' s)"
proof -
  have rs': "list_all (\<lambda>(_, new). receipt_status new) rs'"
    using assms(2,3) by (simp add: list_all_iff flip: set_mset_mset)
  have "fold (\<lambda>r. map (receipt r)) rs = fold (\<lambda>r. map (receipt r)) rs'"
  proof (rule fold_multiset_equiv [OF _ assms(2)])
    fix x y
    assume "x \<in> set rs" "y \<in> set rs"
    then have "receipt_status (snd x)" "receipt_status (snd y)"
      using assms(3) by (auto simp: list_all_iff)
    then show "map (receipt x) \<circ> map (receipt y) = map (receipt y) \<circ> map (receipt x)"
      by (auto simp: fun_eq_iff receipt_commute)
  qed
  then show ?thesis
    using run_receipts_messages [OF assms(1,3)] run_receipts_messages [OF assms(1) rs'] by simp
qed

section \<open>Reactions\<close>

lemma newest_None [simp]: "newest ms = None \<longleftrightarrow> ms = []"
proof -
  have "sort_key f ms = [] \<longleftrightarrow> ms = []" for f :: "message_row \<Rightarrow> int"
    by (metis length_0_conv length_sort)
  then show ?thesis by (auto simp: newest_def split: list.split)
qed

lemma newest_Nil [simp]: "newest [] = None"
  by simp

lemma newest_Some: "newest ms = Some m \<Longrightarrow> m \<in> set ms"
  by (metis (no_types, lifting) list.set_intros(1) list.case_eq_if newest_def option.distinct(1)
      option.inject list.exhaust_sel set_sort)

definition reactions_of :: "reaction \<Rightarrow> store \<Rightarrow> message_row list" where
  "reactions_of r d = filter (same_reactor r) (wa_messages d)"

text \<open>Insertion under any answers of the database: at most one row, at the end.\<close>

definition variant :: "message \<Rightarrow> message \<Rightarrow> bool" where
  "variant m m' \<longleftrightarrow>
     m' \<in> {m, without_location m, without_quotes m, without_quotes (without_location m)}"

definition ins :: "message \<Rightarrow> message_row list \<Rightarrow> message_row list \<Rightarrow> bool" where
  "ins m ms ms' \<longleftrightarrow>
     ms' = ms \<or> m_id m \<notin> m_id ` set ms \<and> (\<exists>m'. variant m m' \<and> ms' = ms @ [stored m'])"

lemma variant_id: "variant m m' \<Longrightarrow> m_id m' = m_id m"
  by (auto simp: variant_def without_location_def without_quotes_def)

lemma ins_refl [simp]: "ins m ms ms"
  by (simp add: ins_def)

lemma ins_trans: "ins m ms ms' \<Longrightarrow> ins m ms' ms'' \<Longrightarrow> ins m ms ms''"
  by (auto simp: ins_def dest: variant_id)

lemma ins_exec:
  assumes "variant m m'"
  shows "ins m (wa_messages s) (wa_messages (snd (exec n cols (insert_ignore m') s)))"
proof -
  have "wa_messages (snd (exec n cols (insert_ignore m') s)) = wa_messages s \<or>
      wa_messages (snd (exec n cols (insert_ignore m') s)) = inserted m' s"
    using exec_snd [of n cols "insert_ignore m'" s] by (auto simp: insert_ignore_eq)
  moreover have "ins m (wa_messages s) (inserted m' s)"
    using assms variant_id [OF assms] by (auto simp: inserted_def ins_def)
  ultimately show ?thesis by auto
qed

lemma ins_Fallback:
  assumes "\<And>s. ins m (wa_messages s) (wa_messages (snd (newFn s)))"
    and "\<And>s. ins m (wa_messages s) (wa_messages (snd (oldFn s)))"
  shows "ins m (wa_messages s) (wa_messages (snd (Fallback f newFn (Some oldFn) () s)))"
proof (cases "newFn s")
  case (Pair x s1)
  have "ins m (wa_messages s) (wa_messages s1)" using assms(1) [of s] by (simp add: Pair)
  moreover have "ins m (wa_messages s1) (wa_messages (snd (oldFn (switch_off f s1))))"
    using assms(2) [of "switch_off f s1"] by simp
  ultimately show ?thesis
    using assms(2) [of s] by (auto simp: Fallback_def legacy_def Pair split: sum.split intro: ins_trans)
qed

lemma InsertMessage_ins: "ins m (wa_messages s) (wa_messages (snd (InsertMessage m s)))"
proof -
  have im: "ins m (wa_messages s) (wa_messages (snd (insertMessage m l s)))" for l s
    unfolding insertMessage_def Let_def
    by (intro ins_Fallback ins_exec) (auto simp: variant_def)
  show ?thesis
    unfolding InsertMessage_def using im by (auto intro: ins_Fallback)
qed

lemma filter_update_where:
  assumes "\<And>m. m \<in> set ms \<Longrightarrow> p m \<Longrightarrow> Q (f m) = Q m"
  shows "filter Q (update_where p f ms) = update_where p f (filter Q ms)"
  using assms by (induction ms) (auto simp: update_where_def)

lemma length_filter_update_where:
  assumes "\<And>m. m \<in> set ms \<Longrightarrow> p m \<Longrightarrow> Q (f m) = Q m"
  shows "length (filter Q (update_where p f ms)) = length (filter Q ms)"
  by (subst filter_update_where) (use assms in \<open>auto simp: update_where_def\<close>)

text \<open>Predicates that only look at what identifies a reaction.\<close>

definition keylike :: "(message_row \<Rightarrow> bool) \<Rightarrow> bool" where
  "keylike Q \<longleftrightarrow>
     (\<forall>m m'. m_chat_jid m = m_chat_jid m' \<and> m_target_message_id m = m_target_message_id m' \<and>
        m_from_me m = m_from_me m' \<and> m_sender_jid m = m_sender_jid m' \<and>
        (m_message_type m \<in> reaction_types \<longleftrightarrow>
         m_message_type m' \<in> reaction_types) \<longrightarrow> Q m = Q m') \<and>
     (\<forall>m. Q m \<longrightarrow> m_target_message_id m \<noteq> None)"

lemma keylikeD:
  assumes "keylike Q" "m_chat_jid m = m_chat_jid m'"
    "m_target_message_id m = m_target_message_id m'" "m_from_me m = m_from_me m'"
    "m_sender_jid m = m_sender_jid m'"
    "m_message_type m \<in> reaction_types \<longleftrightarrow> m_message_type m' \<in> reaction_types"
  shows "Q m = Q m'"
  using assms unfolding keylike_def by blast

lemma keylike_target: "keylike Q \<Longrightarrow> Q m \<Longrightarrow> m_target_message_id m \<noteq> None"
  unfolding keylike_def by blast

lemma keylike_same_reactor: "keylike (same_reactor r)"
  unfolding keylike_def same_reactor_def by simp

lemma reaction_row_variant:
  assumes "keylike Q" "variant (reaction_message r) m'" "Q (stored m')"
  shows "Q (stored (reaction_message r))"
proof -
  have "m_target_message_id m' \<noteq> None" using keylike_target [OF assms(1,3)] by simp
  then have "m' = reaction_message r \<or> m' = without_location (reaction_message r)"
    using assms(2) by (auto simp: variant_def without_quotes_def)
  then show ?thesis
  proof
    assume "m' = without_location (reaction_message r)"
    then have "Q (stored m') = Q (stored (reaction_message r))"
      by (intro keylikeD [OF assms(1)]) (simp_all add: without_location_def)
    with assms(3) show ?thesis by simp
  qed (use assms(3) in simp)
qed

lemma same_reactor_row:
  "r_sender_aliases r = [] \<or> r_from_me r \<or> \<not> r_is_group r \<or>
     null_str (r_sender_jid r) \<in> set (r_sender_aliases r) \<Longrightarrow>
   r_sender_jid r \<noteq> None \<or> r_from_me r \<or> \<not> r_is_group r \<Longrightarrow>
   same_reactor r (stored (reaction_message r))"
  by (auto simp: same_reactor_def reaction_message_def legacy_reaction_message_def
      empty_message_def reaction_senders_def reaction_types_def)

lemma insertLegacy_filter:
  assumes "keylike Q"
  shows "filter Q (wa_messages (snd (insertLegacyReaction r s))) = filter Q (wa_messages s)"
proof -
  have "m_target_message_id m' = None" if "variant (legacy_reaction_message r) m'" for m'
    using that by (auto simp: variant_def legacy_reaction_message_def empty_message_def
        without_quotes_def without_location_def)
  then have "\<not> Q (stored m')" if "variant (legacy_reaction_message r) m'" for m'
    using that keylike_target [OF assms] by fastforce
  then show ?thesis
    using InsertMessage_ins [of "legacy_reaction_message r" s]
    by (auto simp: ins_def insertLegacyReaction_def)
qed

lemma lookup_reaction_result:
  assumes "lookup_reaction r s = (x, s1)"
  shows "wa_messages s1 = wa_messages s \<and> wa_chats s1 = wa_chats s \<and>
    (honest s \<longrightarrow> (\<forall>e. x = Inr e \<longrightarrow>
       e = (case newest (reactions_of r s) of None \<Rightarrow> '''' | Some m \<Rightarrow> m_id m)))"
proof -
  let ?n = "''SELECT wa_messages''"
  let ?sel = "selects (\<lambda>s. one_row (newest (filter (same_reactor r) (wa_messages s))))
    :: store \<Rightarrow> message_row res \<times> store"
  obtain y s2 where y: "exec ?n target_col ?sel s = (y, s2)" by (metis prod.exhaust)
  have s2: "s2 = sent_off ?n s"
    using exec_snd [of ?n target_col ?sel s] y by simp
  have s1: "s1 = s2"
    using assms y by (auto simp: lookup_reaction_def split: sum.splits if_splits)
  have none: "newest (reactions_of r s) = None"
    if "honest s" "y = Inl e" "errors_is e ErrNoRows" for e
    using that y
    by (auto simp: exec_def take_reply_def emit_def honest_def selects_def one_row_def
        reactions_of_def unknown_column_def Let_def
        split: list.splits reply.splits option.splits prod.splits)
  have some: "newest (reactions_of r s) = Some m" if "y = Inr m" for m
    using y [unfolded that, THEN exec_Inr]
    by (auto simp: selects_def one_row_def reactions_of_def split: option.splits)
  show ?thesis
    using assms y s1 s2 none some
    by (auto simp: lookup_reaction_def split: sum.splits if_splits)
qed

lemma legacy_reaction_filter:
  assumes "keylike Q"
  shows "filter Q (wa_messages (snd (legacy_reaction r s))) = filter Q (wa_messages s)"
  using insertLegacy_filter [OF assms, of r s]
  by (auto simp: legacy_reaction_def split: prod.split sum.split)

text \<open>The two ways a reaction changes how many rows satisfy a key.\<close>

lemma reaction_write_count:
  assumes "keylike Q" "tables_ok s"
    and "x \<noteq> '''' \<Longrightarrow> \<exists>m \<in> set (reactions_of r s). m_id m = x"
  shows "length (filter Q (wa_messages (snd (reaction_write r x s)))) = length (filter Q (wa_messages s)) \<or>
    x = '''' \<and> Q (stored (reaction_message r)) \<and>
    length (filter Q (wa_messages (snd (reaction_write r x s)))) = Suc (length (filter Q (wa_messages s)))"
proof (cases "x = ''''")
  case True
  then have "reaction_write r x s = InsertMessage (reaction_message r) s"
    by (simp add: reaction_write_def)
  then show ?thesis
    using InsertMessage_ins [of "reaction_message r" s] reaction_row_variant [OF assms(1), of r] True
    by (auto simp: ins_def split: if_splits)
next
  case False
  with assms(3) obtain m where m: "m \<in> set (wa_messages s)" "same_reactor r m" "m_id m = x"
    by (auto simp: reactions_of_def)
  have only: "m' = m" if "m' \<in> set (wa_messages s)" "m_id m' = x" for m'
    using that m assms(2) by (auto simp: tables_ok_def distinct_map inj_on_def)
  have ty: "m_message_type m \<in> reaction_types" using m(2) by (simp add: same_reactor_def)
  have upd: "length (filter Q (update_where (\<lambda>m. m_id m = x \<and> m_timestamp m \<le> ts) f (wa_messages s))) =
      length (filter Q (wa_messages s))"
    if f: "\<And>m. m_chat_jid (f m) = m_chat_jid m" "\<And>m. m_target_message_id (f m) = m_target_message_id m"
      "\<And>m. m_from_me (f m) = m_from_me m" "\<And>m. m_sender_jid (f m) = m_sender_jid m"
      "\<And>m. m_message_type (f m) \<in> reaction_types" for f ts
    using only ty by (intro length_filter_update_where keylikeD [OF assms(1)]) (auto simp: f)
  have ex: "length (filter Q (wa_messages (snd (exec n [] (update_reaction x ts f) s)))) =
      length (filter Q (wa_messages s))"
    if f: "\<And>m. m_chat_jid (f m) = m_chat_jid m" "\<And>m. m_target_message_id (f m) = m_target_message_id m"
      "\<And>m. m_from_me (f m) = m_from_me m" "\<And>m. m_sender_jid (f m) = m_sender_jid m"
      "\<And>m. m_message_type (f m) \<in> reaction_types" for f ts n
    using exec_snd [of n "[]" "update_reaction x ts f" s] upd [OF f, of ts]
    by (auto simp: update_reaction_def)
  have "length (filter Q (wa_messages (snd (reaction_write r x s)))) = length (filter Q (wa_messages s))"
    using False by (simp add: reaction_write_def) (intro conjI impI ex; simp add: reaction_types_def)
  then show ?thesis by simp
qed

lemma bump_filter:
  assumes "keylike Q"
  shows "length (filter Q (wa_messages (snd (exec n [] (update_message t c
      (\<lambda>now m. m\<lparr>m_status_updated_at := Some now\<rparr>)) s)))) = length (filter Q (wa_messages s))"
proof -
  have upd: "length (filter Q (update_where (\<lambda>m. m_id m = t \<and> m_chat_jid m = c)
      (\<lambda>m. m\<lparr>m_status_updated_at := Some now\<rparr>) ms)) = length (filter Q ms)" for now ms
    by (intro length_filter_update_where keylikeD [OF assms]) simp_all
  show ?thesis
    using exec_snd [of n "[]" "update_message t c (\<lambda>now m. m\<lparr>m_status_updated_at := Some now\<rparr>)" s]
    by (auto simp: update_message_def upd)
qed

lemma UpsertReaction_count:
  assumes "keylike Q" "honest s" "tables_ok s" "'''' \<notin> m_id ` set (wa_messages s)"
  shows "length (filter Q (wa_messages (snd (UpsertReaction r s)))) = length (filter Q (wa_messages s)) \<or>
    reactions_of r s = [] \<and> Q (stored (reaction_message r)) \<and>
    length (filter Q (wa_messages (snd (UpsertReaction r s)))) = Suc (length (filter Q (wa_messages s)))"
proof (cases "r_target_id r = ''''")
  case True
  then show ?thesis by (simp add: UpsertReaction_def)
next
  case tgt: False
  obtain x s1 where fb: "Fallback featureQuotes (lookup_reaction r) (Some (legacy_reaction r)) '''' s = (x, s1)"
    by (metis prod.exhaust)
  have "evolves s (snd (Fallback featureQuotes (lookup_reaction r) (Some (legacy_reaction r)) '''' s))"
    by (auto simp: lookup_reaction_def intro!: evolves_intros)
  then have ev: "evolves s s1" by (simp add: fb)
  have same: "length (filter Q (wa_messages s1)) = length (filter Q (wa_messages s)) \<and>
      (featureQuotes \<notin> off s1 \<longrightarrow> lookup_reaction r s = (x, s1))"
    using fb
  proof (cases rule: Fallback_cases)
    case off
    have "featureQuotes \<in> off (snd (legacy_reaction r s))"
      using off(1) evolves_legacy_reaction [of s r] by (auto simp: evolves_def)
    with off legacy_reaction_filter [OF assms(1), of r s] show ?thesis by (simp add: legacy_def)
  next
    case ran
    with lookup_reaction_result [OF ran(2)] show ?thesis by simp
  next
    case (fell e s2)
    have "featureQuotes \<in> off (snd (legacy_reaction r (switch_off featureQuotes s2)))"
      using evolves_legacy_reaction [of "switch_off featureQuotes s2" r] by (auto simp: evolves_def)
    with fell legacy_reaction_filter [OF assms(1), of r "switch_off featureQuotes s2"]
      lookup_reaction_result [OF fell(2)]
    show ?thesis by (simp add: legacy_def)
  qed
  show ?thesis
  proof (cases "featureQuotes \<in> off s1 \<or> (\<exists>e. x = Inl e) \<or> x = Inr '''' \<and> r_emoji r = ''''")
    case True
    then show ?thesis
      using same by (cases x) (auto simp: UpsertReaction_def fb tgt FeatureOff_def)
  next
    case False
    then obtain ex where x: "x = Inr ex" and on: "featureQuotes \<notin> off s1" by (cases x) auto
    from same on have lk: "lookup_reaction r s = (x, s1)" by simp
    have w: "wa_messages s1 = wa_messages s" and
      ex: "ex = (case newest (reactions_of r s) of None \<Rightarrow> '''' | Some m \<Rightarrow> m_id m)"
      using lookup_reaction_result [OF lk] assms(2) x by auto
    have rs: "reactions_of r s1 = reactions_of r s" by (simp add: reactions_of_def w)
    have found: "\<exists>m \<in> set (reactions_of r s1). m_id m = ex" if "ex \<noteq> ''''"
      using that newest_Some [of "reactions_of r s"] rs
      by (cases "newest (reactions_of r s)") (auto simp: ex)
    have none: "reactions_of r s = []" if "ex = ''''"
    proof (cases "newest (reactions_of r s)")
      case (Some m)
      then have "m \<in> set (reactions_of r s)" by (rule newest_Some)
      then have "m \<in> set (wa_messages s)" by (simp add: reactions_of_def)
      moreover have "m_id m = ''''" using that Some by (simp add: ex)
      ultimately show ?thesis using assms(4) by (metis imageI)
    qed simp

    have "tables_ok s1" using ev assms(3) by (simp add: evolves_def)
    note wr = reaction_write_count [OF assms(1) this found]
    obtain y s2 where y: "reaction_write r ex s1 = (y, s2)" by (metis prod.exhaust)
    have "length (filter Q (wa_messages (snd (UpsertReaction r s)))) = length (filter Q (wa_messages s2))"
      using False on x y bump_filter [OF assms(1)]
      by (auto simp: UpsertReaction_def fb tgt FeatureOff_def split: sum.split)
    with wr y w none show ?thesis by auto
  qed
qed

text \<open>No operation here produces a row with an empty ID unless it is asked to.\<close>

definition ids_ok :: "store \<Rightarrow> bool" where
  "ids_ok s \<longleftrightarrow> '''' \<notin> m_id ` set (wa_messages s)"

lemma ids_ok_updates: "(\<And>m. m_id (f m) = m_id m) \<Longrightarrow>
    ids_ok (set_messages (update_where p f) s) = ids_ok s"
  using map_key_update_where [of "wa_messages s" p m_id f]
  by (simp add: ids_ok_def set_messages_def flip: set_map)

lemma ids_ok_exec:
  assumes "\<And>s. ids_ok (snd (stmt s)) = ids_ok s"
  shows "ids_ok (snd (exec n cols stmt s)) = ids_ok s"
  using exec_snd [of n cols stmt s] assms [of "sent_off n s"] by (auto simp: ids_ok_def)

lemma ids_ok_InsertMessage:
  assumes "ids_ok s" "m_id m \<noteq> ''''"
  shows "ids_ok (snd (InsertMessage m s))"
  using InsertMessage_ins [of m s] assms by (auto simp: ids_ok_def ins_def dest!: variant_id)

lemma ids_ok_lookup: "ids_ok (snd (lookup_reaction r s)) = ids_ok s"
  using lookup_reaction_result [of r s] by (cases "lookup_reaction r s") (simp add: ids_ok_def)

lemma ids_ok_legacy:
  "ids_ok s \<Longrightarrow> r_id r \<noteq> '''' \<Longrightarrow> ids_ok (snd (legacy_reaction r s))"
  using ids_ok_InsertMessage [of s "legacy_reaction_message r"]
  by (auto simp: legacy_reaction_def insertLegacyReaction_def legacy_reaction_message_def
      split: prod.splits sum.splits)

lemma ids_ok_reaction_write:
  "ids_ok s \<Longrightarrow> r_id r \<noteq> '''' \<Longrightarrow> ids_ok (snd (reaction_write r x s))"
  using ids_ok_InsertMessage [of s "reaction_message r"]
  by (simp add: reaction_write_def reaction_message_def legacy_reaction_message_def
      ids_ok_exec update_reaction_def ids_ok_updates)

lemma ids_ok_UpsertReaction:
  assumes "ids_ok s" "r_id r \<noteq> ''''"
  shows "ids_ok (snd (UpsertReaction r s))"
proof -
  obtain x s1 where fb: "Fallback featureQuotes (lookup_reaction r) (Some (legacy_reaction r)) '''' s = (x, s1)"
    by (metis prod.exhaust)
  have 1: "ids_ok s1"
    using fb
  proof (cases rule: Fallback_cases)
    case off
    then show ?thesis using ids_ok_legacy [OF assms] by (simp add: legacy_def)
  next
    case ran
    then show ?thesis using ids_ok_lookup [of r s] assms by simp
  next
    case (fell e s2)
    then have "ids_ok (switch_off featureQuotes s2)"
      using ids_ok_lookup [of r s] assms by (simp add: ids_ok_def)
    with fell ids_ok_legacy [OF _ assms(2)] show ?thesis by (fastforce simp: legacy_def)
  qed
  have bump: "ids_ok (snd (exec n [] (update_message t c
      (\<lambda>now m. m\<lparr>m_status_updated_at := Some now\<rparr>)) s)) = ids_ok s" for n t c s
    by (intro ids_ok_exec) (simp add: update_message_def ids_ok_updates)
  have "ids_ok (snd (case reaction_write r ex s1 of (Inl e, s2) \<Rightarrow> (Inl e, s2) | (Inr _, s2) \<Rightarrow>
      exec n [] (update_message t c (\<lambda>now m. m\<lparr>m_status_updated_at := Some now\<rparr>)) s2))" for ex n t c
    using ids_ok_reaction_write [OF 1 assms(2), of ex] bump
    by (cases "reaction_write r ex s1"; cases "fst (reaction_write r ex s1)") simp_all
  then show ?thesis
    using 1 assms by (cases x) (simp_all add: UpsertReaction_def fb)
qed

text \<open>
  One person has many addresses: a phone form, a LID, a device suffix on each. \<open>person\<close> says whose
  address it is; \<open>person_row\<close> is a reaction row of the person of \<open>r\<close> on the message \<open>r\<close> is about.
\<close>

definition run_reactions :: "reaction list \<Rightarrow> store \<Rightarrow> store" where
  "run_reactions rs s = fold (\<lambda>r s. snd (UpsertReaction r s)) rs s"

definition person_row :: "(string \<Rightarrow> 'p) \<Rightarrow> reaction \<Rightarrow> message_row \<Rightarrow> bool" where
  "person_row person r m \<longleftrightarrow>
     m_chat_jid m = r_chat_jid r \<and> m_target_message_id m = Some (r_target_id r) \<and>
     m_message_type m \<in> reaction_types \<and> m_from_me m = r_from_me r \<and>
     (\<not> r_from_me r \<and> r_is_group r \<longrightarrow>
        (case m_sender_jid m of None \<Rightarrow> False
         | Some j \<Rightarrow> person j = person (null_str (r_sender_jid r))))"

text \<open>
  The aliases of a later reaction of a person name the form under which an earlier one of theirs
  to the same message is stored; a chat is a group in all its reactions or in none.
\<close>

definition recognises :: "(string \<Rightarrow> 'p) \<Rightarrow> reaction \<Rightarrow> reaction \<Rightarrow> bool" where
  "recognises person r r' \<longleftrightarrow>
     (r_chat_jid r = r_chat_jid r' \<longrightarrow>
        r_is_group r = r_is_group r' \<and>
        (r_target_id r = r_target_id r' \<and> \<not> r_from_me r \<and> \<not> r_from_me r' \<and> r_is_group r \<and>
         person (null_str (r_sender_jid r)) = person (null_str (r_sender_jid r')) \<longrightarrow>
           null_str (r_sender_jid r) \<in> set (reaction_senders r')))"

definition recognised :: "(string \<Rightarrow> 'p) \<Rightarrow> reaction list \<Rightarrow> store \<Rightarrow> bool" where
  "recognised person rs s \<longleftrightarrow>
     sorted_wrt (recognises person) rs \<and>
     list_all (\<lambda>r. r_id r \<noteq> '''' \<and> filter (\<lambda>m. person_row person r m \<and> \<not> same_reactor r m) (wa_messages s) = []) rs"

lemma keylike_person_row: "keylike (person_row person r)"
  unfolding keylike_def person_row_def by simp

lemma keylike_unrecognised: "keylike (\<lambda>m. person_row person r m \<and> \<not> same_reactor r m)"
  unfolding keylike_def person_row_def same_reactor_def by simp

lemma reaction_row_fields [simp]:
  "m_chat_jid (reaction_message r) = r_chat_jid r"
  "m_target_message_id (reaction_message r) = Some (r_target_id r)"
  "m_from_me (reaction_message r) = r_from_me r"
  "m_sender_jid (reaction_message r) = r_sender_jid r"
  by (simp_all add: reaction_message_def legacy_reaction_message_def)

lemma new_row_recognised:
  assumes "recognises person r r'" "person_row person r' (stored (reaction_message r))"
  shows "same_reactor r' (stored (reaction_message r))"
  using assms by (auto simp: recognises_def person_row_def same_reactor_def split: option.splits)

lemma new_row_person:
  assumes "r_chat_jid r = r_chat_jid r' \<Longrightarrow> r_is_group r = r_is_group r'"
    and "person_row person r (stored (reaction_message r'))"
  shows "person_row person r = person_row person r'"
  using assms by (auto simp: person_row_def fun_eq_iff split: option.splits)

lemma recognised_step:
  assumes "recognised person (r # rs) s" "honest s" "tables_ok s" "ids_ok s"
  shows "recognised person rs (snd (UpsertReaction r s))"
proof -
  have "filter (\<lambda>m. person_row person r' m \<and> \<not> same_reactor r' m) (wa_messages (snd (UpsertReaction r s))) = []"
    if r': "r' \<in> set rs" for r'
  proof -
    let ?Q = "\<lambda>m. person_row person r' m \<and> \<not> same_reactor r' m"
    have k: "recognises person r r'" "filter ?Q (wa_messages s) = []"
      using assms(1) r' by (auto simp: recognised_def list_all_iff)
    have "\<not> ?Q (stored (reaction_message r))" using new_row_recognised [OF k(1)] by blast
    then show ?thesis
      using UpsertReaction_count [OF keylike_unrecognised assms(2,3), of person r' r] assms(4) k(2)
      by (auto simp add: ids_ok_def)
  qed
  then show ?thesis using assms(1) by (auto simp: recognised_def list_all_iff)
qed

lemma one_row_step:
  assumes "recognised person (r' # rs) s" "honest s" "tables_ok s" "ids_ok s"
    and "r_chat_jid r = r_chat_jid r' \<Longrightarrow> r_is_group r = r_is_group r'"
    and "length (filter (person_row person r) (wa_messages s)) \<le> 1"
  shows "length (filter (person_row person r) (wa_messages (snd (UpsertReaction r' s)))) \<le> 1"
proof -
  have "filter (person_row person r) (wa_messages s) = []"
    if new: "reactions_of r' s = []" "person_row person r (stored (reaction_message r'))"
    using new_row_person [OF assms(5) new(2)] assms(1) new(1)
    by (auto simp: recognised_def reactions_of_def filter_empty_conv)
  then show ?thesis
    using UpsertReaction_count [OF keylike_person_row assms(2,3), of person r r'] assms(4,6)
    by (auto simp: ids_ok_def)
qed

lemma run_reactions_one:
  assumes "recognised person rs s" "honest s" "tables_ok s" "ids_ok s"
    and "\<And>r'. r' \<in> set rs \<Longrightarrow> r_chat_jid r = r_chat_jid r' \<Longrightarrow> r_is_group r = r_is_group r'"
    and "length (filter (person_row person r) (wa_messages s)) \<le> 1"
  shows "length (filter (person_row person r) (wa_messages (run_reactions rs s))) \<le> 1"
  using assms
proof (induction rs arbitrary: s)
  case (Cons r' rs)
  let ?s = "snd (UpsertReaction r' s)"
  have rid: "r_id r' \<noteq> ''''" using Cons.prems(1) by (simp add: recognised_def)
  have "run_reactions (r' # rs) s = run_reactions rs ?s" by (simp add: run_reactions_def)
  then show ?case
    using Cons.IH [OF recognised_step [OF Cons.prems(1-4)] reaction_op.run_honest reaction_op.run_tables
        ids_ok_UpsertReaction [OF Cons.prems(4) rid]] one_row_step [OF Cons.prems(1-4), of r] Cons.prems by simp
qed (simp add: run_reactions_def)

lemma recognised_groups:
  assumes "recognised person rs s" "r \<in> set rs" "r' \<in> set rs" "r_chat_jid r = r_chat_jid r'"
  shows "r_is_group r = r_is_group r'"
proof -
  obtain i k where ik: "i < length rs" "k < length rs" "r = rs ! i" "r' = rs ! k"
    using assms(2,3) by (metis in_set_conv_nth)
  have "recognises person (rs ! a) (rs ! b)" if "a < b" "b < length rs" for a b
    using assms(1) that by (auto simp: recognised_def sorted_wrt_iff_nth_less)
  then show ?thesis
    using ik assms(4) unfolding recognises_def by (metis linorder_cases)
qed

text \<open>C9: However the database fails, a run of reactions and removals leaves at most one reaction row per person and message, from whichever devices and addresses, provided the aliases of each reaction include the form under which the person's earlier reactions to that message are stored: they do for any devices of one address and for a LID known by then.\<close>

theorem one_reaction_each:
  assumes "recognised person rs s" "honest s" "tables_ok s" "ids_ok s" "r \<in> set rs"
    and "length (filter (person_row person r) (wa_messages s)) \<le> 1"
  shows "length (filter (person_row person r) (wa_messages (run_reactions rs s))) \<le> 1"
  using run_reactions_one [OF assms(1-4)] recognised_groups [OF assms(1,5)] assms(6) by blast

section \<open>A reaction is a last-writer-wins register\<close>

text \<open>
  The abstract view of a reactor's reaction: its time and its emoji, empty once removed.
\<close>

definition reaction_value :: "message_row \<Rightarrow> int \<times> string" where
  "reaction_value m =
     (m_timestamp m, if m_message_type m = ''reaction'' then null_str (m_body m) else '''')"

definition reaction_state :: "reaction \<Rightarrow> store \<Rightarrow> (int \<times> string) option" where
  "reaction_state r s = map_option reaction_value (newest (reactions_of r s))"

fun last_writer :: "(int \<times> string) option \<Rightarrow> int \<times> string \<Rightarrow> (int \<times> string) option" where
  "last_writer None (t, e) = (if e = '''' then None else Some (t, e))"
| "last_writer (Some (t0, e0)) (t, e) = Some (if t0 \<le> t then (t, e) else (t0, e0))"

definition migrated :: "store \<Rightarrow> bool" where
  "migrated s \<longleftrightarrow> replies s = [] \<and> missing_columns s = [] \<and> off s = {}"

lemma migrated_cols [simp]: "migrated s \<Longrightarrow> has_cols cols s"
  by (auto simp: migrated_def has_cols_def list_all_iff)

lemma migrated_exec: "migrated s \<Longrightarrow> exec n cols stmt s = stmt (sent_off n s)"
  by (rule exec_quiet_known) (auto simp: migrated_def)

lemma migrated_sent_off [simp]: "migrated (sent_off n s) = migrated s" if "replies s = []"
  using that by (simp add: migrated_def)

lemma newest_single: "newest [m] = Some m"
  by (simp add: newest_def)

lemma migrated_insert_reaction:
  assumes "migrated s" "r_id r \<notin> m_id ` set (wa_messages s)" "r_chat_jid r \<in> c_jid ` set (wa_chats s)"
  shows "fst (InsertMessage (reaction_message r) s) = Inr () \<and>
    wa_messages (snd (InsertMessage (reaction_message r) s)) =
      wa_messages s @ [stored (reaction_message r)]"
proof -
  have "InsertMessage (reaction_message r) = insertMessage (reaction_message r) False"
    "without_location (reaction_message r) = reaction_message r"
    by (simp_all add: fun_eq_iff InsertMessage_def reaction_message_def legacy_reaction_message_def
        empty_message_def without_location_def)
  moreover have "quotes_on s" using assms(1) migrated_cols [OF assms(1)] by (simp add: quotes_on_def migrated_def)
  ultimately show ?thesis
    using insertMessage_quiet [of s False "reaction_message r" "reaction_message r"] assms
    by (simp add: migrated_def inserted_def reaction_message_def legacy_reaction_message_def)
qed

lemma migrated_lookup:
  assumes "migrated s"
  shows "lookup_reaction r s =
    (Inr (case newest (reactions_of r s) of None \<Rightarrow> '''' | Some m \<Rightarrow> m_id m),
     sent_off ''SELECT wa_messages'' s)"
  using assms
  by (simp add: lookup_reaction_def migrated_exec selects_def one_row_def reactions_of_def
      split: option.split)

lemma same_reactor_bump [simp]: "same_reactor r (m\<lparr>m_status_updated_at := x\<rparr>) = same_reactor r m"
  by (simp add: same_reactor_def)

lemma reaction_value_bump [simp]: "reaction_value (m\<lparr>m_status_updated_at := x\<rparr>) = reaction_value m"
  by (simp add: reaction_value_def)

lemma reactions_of_unique:
  assumes "tables_ok s" "reactions_of r s = [m]" "m' \<in> set (wa_messages s)" "m_id m' = m_id m"
  shows "m' = m"
proof -
  have "m \<in> set (wa_messages s)" using assms(2) by (auto simp: reactions_of_def filter_eq_Cons_iff)
  with assms show ?thesis by (auto simp: tables_ok_def distinct_map inj_on_def)
qed

text \<open>The bump of the target row after the write, on one reactor's rows.\<close>

lemma bumped_state:
  "map_option reaction_value (newest (filter (same_reactor r) (update_where p
      (\<lambda>m. m\<lparr>m_status_updated_at := x\<rparr>) [m]))) =
   (if same_reactor r m then Some (reaction_value m) else None)"
  by (simp add: update_where_def newest_single)

lemma reaction_write_state:
  assumes mig: "migrated s" and "tables_ok s" "ids_ok s" "length (reactions_of r s) \<le> 1"
    and "r_id r \<noteq> ''''" "r_id r \<notin> m_id ` set (wa_messages s)" "r_chat_jid r \<in> c_jid ` set (wa_chats s)"
    and "same_reactor r (stored (reaction_message r))"
    and x: "x = (case reactions_of r s of [] \<Rightarrow> '''' | m # _ \<Rightarrow> m_id m)"
    and ne: "x \<noteq> '''' \<or> r_emoji r \<noteq> ''''"
  shows "\<exists>m s2. reaction_write r x s = (Inr (), s2) \<and> migrated s2 \<and> reactions_of r s2 = [m] \<and>
    Some (reaction_value m) = last_writer (reaction_state r s) (r_timestamp r, r_emoji r)"
proof (cases "reactions_of r s")
  case Nil
  let ?m = "stored (reaction_message r)"
  obtain y s2 where w: "InsertMessage (reaction_message r) s = (y, s2)" by (metis prod.exhaust)
  have m: "y = Inr ()" "wa_messages s2 = wa_messages s @ [?m]"
    using migrated_insert_reaction [OF mig assms(6,7)] by (simp_all add: w)
  have "InsertMessage (reaction_message r) = insertMessage (reaction_message r) False"
    by (simp add: fun_eq_iff InsertMessage_def reaction_message_def legacy_reaction_message_def empty_message_def)
  then have "migrated s2"
    using w mig
    by (auto simp: insertMessage_def Let_def Fallback_def FeatureOff_def migrated_exec [OF mig]
        insert_ignore_eq migrated_def)
  moreover have "reactions_of r s2 = [?m]"
    using m Nil assms(8) by (simp add: reactions_of_def)
  moreover have "Some (reaction_value ?m) = last_writer (reaction_state r s) (r_timestamp r, r_emoji r)"
    using Nil ne x by (simp add: reaction_state_def reaction_value_def reaction_message_def
        legacy_reaction_message_def)
  ultimately show ?thesis using Nil x w m by (auto simp: reaction_write_def)
next
  case (Cons m ms)
  then have rs: "reactions_of r s = [m]" using assms(4) by simp
  have sm: "m \<in> set (wa_messages s)" "same_reactor r m"
    using rs by (auto simp: reactions_of_def filter_eq_Cons_iff)
  have "m_id m \<noteq> ''''" using sm(1) assms(3) unfolding ids_ok_def by (metis imageI)
  then have xm: "x = m_id m" "x \<noteq> ''''" using x rs by simp_all
  have st: "reaction_state r s = Some (reaction_value m)"
    by (simp add: reaction_state_def rs newest_single)
  have only: "m' = m" if "m' \<in> set (wa_messages s)" "m_id m' = x" for m'
    using reactions_of_unique [OF assms(2) rs that(1)] that(2) xm by simp
  have run: "\<exists>m s2. exec n [] (update_reaction x (r_timestamp r) f) s = (Inr (), s2) \<and> migrated s2 \<and>
      reactions_of r s2 = [m] \<and>
      Some (reaction_value m) = last_writer (reaction_state r s) (r_timestamp r, r_emoji r)"
    if f: "same_reactor r (f m)" "reaction_value (f m) = (r_timestamp r, r_emoji r)" for n f
  proof -
    let ?p = "\<lambda>m. m_id m = x \<and> m_timestamp m \<le> r_timestamp r"
    have "filter (same_reactor r) (update_where ?p f (wa_messages s)) = update_where ?p f [m]"
      using only f(1) sm(2) rs [unfolded reactions_of_def] by (subst filter_update_where) auto
    then show ?thesis
      using mig st xm(1) f(2)
      by (cases "reaction_value m")
        (auto simp: migrated_exec update_reaction_def writes_def set_messages_def reactions_of_def
          update_where_def migrated_def reaction_value_def)
  qed
  show ?thesis
    using xm(2) sm(2) run
    by (simp add: reaction_write_def) (intro conjI impI run; simp add: same_reactor_def reaction_types_def reaction_value_def)
qed

text \<open>C10: UpsertReaction refines a last-writer-wins register: the newest of the stored and the new reaction is kept.\<close>

theorem reaction_latest_wins:
  assumes "migrated s" "tables_ok s" "ids_ok s" "length (reactions_of r s) \<le> 1"
    and "r_target_id r \<noteq> ''''" "r_id r \<noteq> ''''" "r_id r \<notin> m_id ` set (wa_messages s)"
    and "r_chat_jid r \<in> c_jid ` set (wa_chats s)"
    and "same_reactor r (stored (reaction_message r))"
  shows "fst (UpsertReaction r s) = Inr () \<and>
    reaction_state r (snd (UpsertReaction r s)) =
      last_writer (reaction_state r s) (r_timestamp r, r_emoji r)"
proof -
  let ?s1 = "sent_off ''SELECT wa_messages'' s"
  define x where "x = (case reactions_of r s of [] \<Rightarrow> '''' | m # _ \<Rightarrow> m_id m)"
  have mig1: "migrated ?s1" using assms(1) by (simp add: migrated_def)
  have rs1: "reactions_of r ?s1 = reactions_of r s" by (simp add: reactions_of_def)
  have lk: "lookup_reaction r s = (Inr x, ?s1)"
    using assms(1,4) by (auto simp: migrated_lookup x_def newest_single length_Suc_conv le_Suc_eq)
  have off1: "featureQuotes \<notin> off s" "featureQuotes \<notin> off ?s1" using assms(1) by (simp_all add: migrated_def)
  show ?thesis
  proof (cases "x = '''' \<and> r_emoji r = ''''")
    case True
    then have "reactions_of r s = []"
      using assms(3) by (auto simp: x_def ids_ok_def reactions_of_def filter_eq_Cons_iff split: list.splits)
    then show ?thesis
      using True off1 assms(5) lk
      by (simp add: UpsertReaction_def Fallback_def FeatureOff_def reaction_state_def rs1)
  next
    case False
    obtain m s2 where w: "reaction_write r x ?s1 = (Inr (), s2)" "migrated s2" "reactions_of r s2 = [m]"
      "Some (reaction_value m) = last_writer (reaction_state r ?s1) (r_timestamp r, r_emoji r)"
      using reaction_write_state [OF mig1, of r x] assms False rs1
      by (auto simp: x_def ids_ok_def)
    have "reaction_state r ?s1 = reaction_state r s" by (simp add: reaction_state_def rs1)
    then show ?thesis
      using w off1 assms(5) lk w(3) [unfolded reactions_of_def]
      by (simp add: False UpsertReaction_def Fallback_def FeatureOff_def migrated_exec update_message_def
          writes_def set_messages_def reaction_state_def reactions_of_def filter_update_where bumped_state)
        (simp add: update_where_def newest_single)
  qed
qed

section \<open>Closed instances\<close>

lemma sample_migrated: "migrated sample_store" "ids_ok sample_store"
  by (simp_all add: migrated_def ids_ok_def sample_defs)

theorem InsertMessage_degrades_witness:
  "let s = sample_store\<lparr>missing_columns := [''wa_messages.location_name'']\<rparr>;
       m = empty_message\<lparr>m_id := ''n'', m_chat_jid := ''a'', m_location_name := Some ''Home''\<rparr>
   in replies s = [] \<and> fst (InsertMessage m s) = Inr () \<and>
      wa_messages (snd (InsertMessage m s)) = inserted (kept s m) s"
  using InsertMessage_degrades [of "sample_store\<lparr>missing_columns := [''wa_messages.location_name'']\<rparr>"
      "empty_message\<lparr>m_id := ''n'', m_chat_jid := ''a'', m_location_name := Some ''Home''\<rparr>"]
  by (simp add: sample_defs)

theorem ApplyEdit_outcome_witness:
  "replies sample_store = [] \<and> located ''m2'' [''a''] (wa_messages sample_store) = Some (sample_row ''m2'' True 9) \<and>
   fst (ApplyEdit [''a''] ''m2'' True (Some ''ho'') sample_store) = (ref_of (sample_row ''m2'' True 9), True, None)"
proof -
  have "located ''m2'' [''a''] (wa_messages sample_store) = Some (sample_row ''m2'' True 9)"
    by (simp add: located_def sample_defs)
  moreover have "edits_on sample_store edit_cols" "m_from_me (sample_row ''m2'' True 9)"
    by (simp_all add: edits_on_def has_cols_def edit_cols_def sample_defs)
  ultimately show ?thesis
    using ApplyEdit_outcome [of sample_store "[''a'']" "''m2''" True "Some ''ho''"] sample_store_ok(2)
    by simp
qed

theorem only_author_edits_witness:
  "tables_ok sample_store \<and> sample_row ''m1'' False 8 \<in> set (wa_messages sample_store) \<and>
   sample_row ''m1'' False 8 \<in> set (wa_messages (snd (ApplyEdit [''a''] ''m1'' True (Some ''ho'') sample_store)))"
  using only_author_edits [of sample_store "sample_row ''m1'' False 8" True] sample_store_ok(1)
  by (simp add: sample_store_def) (simp add: sample_row_def empty_message_def)

theorem edits_keep_first_text_witness:
  "let es = [([''a''], ''m2'', True, Some ''ho''), ([''a''], ''m2'', True, None)]
   in row_by m_id ''m2'' (wa_messages sample_store) = Some (sample_row ''m2'' True 9) \<and>
      first_text ''hi'' (sample_row ''m2'' True 9) \<and>
      (\<exists>m'. row_by m_id ''m2'' (wa_messages (run_edits es sample_store)) = Some m' \<and> first_text ''hi'' m')"
  using edits_keep_first_text [of "''m2''" sample_store "sample_row ''m2'' True 9" "''hi''"
      "[([''a''], ''m2'', True, Some ''ho''), ([''a''], ''m2'', True, None)]"]
  by (simp add: first_text_def sample_defs)

theorem revoke_keeps_body_and_stamp_witness:
  "row_by m_id ''m2'' (wa_messages sample_store) = Some (sample_row ''m2'' True 9) \<and>
   (\<exists>m'. row_by m_id ''m2'' (wa_messages (snd (RevokeMessage [''a''] ''m2'' True False sample_store))) = Some m' \<and>
      m_body m' = Some ''hi'')"
  using revoke_keeps_body_and_stamp [of "''m2''" sample_store "sample_row ''m2'' True 9" "[''a'']" "''m2''" True False]
  by (simp add: sample_defs)

theorem MarkMessagesStatus_refines_witness:
  "replies sample_store = [] \<and> receipt_status ''read'' \<and>
   wa_messages (snd (MarkMessagesStatus [''m2''] ''read'' sample_store)) =
     map (receipt ([''m2''], ''read'')) (wa_messages sample_store)"
  using MarkMessagesStatus_refines [of sample_store "''read''" "[''m2'']"] sample_store_ok(2)
  by (simp add: receipt_status_def status_rank_def)

theorem status_never_moves_back_witness:
  "row_by m_id ''m2'' (wa_messages sample_store) = Some (sample_row ''m2'' True 9) \<and>
   (\<exists>m'. row_by m_id ''m2'' (wa_messages (snd (MarkMessagesStatus [''m2''] ''read'' sample_store))) = Some m')"
  using status_never_moves_back [of "''m2''" sample_store "sample_row ''m2'' True 9" "[''m2'']" "''read''"]
  by (simp add: sample_defs) blast

theorem receipts_commute_witness:
  "let a = ([''m2''], ''read''); b = ([''m2'', ''m3''], ''delivered'')
   in replies sample_store = [] \<and> mset [a, b] = mset [b, a] \<and>
      wa_messages (run_receipts [a, b] sample_store) = wa_messages (run_receipts [b, a] sample_store)"
  using receipts_commute [of sample_store "[([''m2''], ''read''), ([''m2'', ''m3''], ''delivered'')]"
      "[([''m2'', ''m3''], ''delivered''), ([''m2''], ''read'')]"] sample_store_ok(2)
  by (simp add: receipt_status_def status_rank_def add_mset_commute)

text \<open>One member of a group from a phone, from a second device and, once it is known, under a LID.\<close>

definition member_reaction :: "string \<Rightarrow> string \<Rightarrow> string list \<Rightarrow> string \<Rightarrow> int \<Rightarrow> reaction" where
  "member_reaction i sender aliases e t = (sample_reaction i e t)
     \<lparr>r_chat_jid := ''g'', r_is_group := True, r_sender_jid := Some sender, r_sender_aliases := aliases\<rparr>"

definition member_reactions :: "reaction list" where
  "member_reactions =
     [member_reaction ''r1'' ''ana'' [''ana'', ''ana:1''] ''+'' 20,
      member_reaction ''r2'' ''ana'' [''ana'', ''ana:2'', ''lid''] ''-'' 30,
      member_reaction ''r3'' ''lid'' [''lid'', ''ana''] '''' 40]"

theorem one_reaction_each_witness:
  "recognised (\<lambda>j. j \<in> {''ana'', ''lid''}) member_reactions sample_store \<and>
   length (filter (person_row (\<lambda>j. j \<in> {''ana'', ''lid''}) (hd member_reactions))
     (wa_messages (run_reactions member_reactions sample_store))) \<le> 1"
proof -
  let ?p = "\<lambda>j. j \<in> {''ana'', ''lid''}"
  have none: "filter (\<lambda>m. person_row ?p r m \<and> P m) (wa_messages sample_store) = []" for r P
    by (simp add: person_row_def reaction_types_def sample_defs)
  have ok: "recognised ?p member_reactions sample_store"
    unfolding recognised_def none
    by (simp add: member_reactions_def member_reaction_def recognises_def reaction_senders_def sample_reaction_def)
  have "length (filter (person_row ?p (hd member_reactions)) (wa_messages sample_store)) \<le> 1"
    using none [of "hd member_reactions" "\<lambda>_. True"] by simp
  with ok show ?thesis
    using one_reaction_each [OF ok sample_store_ok(3,1) sample_migrated(2), of "hd member_reactions"]
    by (simp add: member_reactions_def)
qed

theorem reaction_latest_wins_witness:
  "let r = sample_reaction ''r1'' ''+'' 20
   in migrated sample_store \<and> tables_ok sample_store \<and> ids_ok sample_store \<and>
      reaction_state r (snd (UpsertReaction r sample_store)) =
        last_writer (reaction_state r sample_store) (20, ''+'')"
  using reaction_latest_wins [of sample_store "sample_reaction ''r1'' ''+'' 20"]
    sample_store_ok(1) sample_migrated
  by (simp add: reactions_of_def same_reactor_def reaction_message_def legacy_reaction_message_def
      reaction_types_def sample_defs)

end
