(* ===== verification/ChatLaws.thy ===== *)
theory ChatLaws
  imports StoreChats
begin

text \<open>
  What the methods of \<open>StoreChats\<close> promise: the unread counter counts the incoming messages
  since the account's last own one, an upsert never loses a known name, phone or picture, a
  read on another device never raises the counter, and the recomputed tail is the newest
  countable message whatever columns the database has.
\<close>

section \<open>The unread counter\<close>

definition run_upserts :: "chat list \<Rightarrow> store \<Rightarrow> store" where
  "run_upserts cs s = fold (\<lambda>c s. snd (UpsertChat c s)) cs s"

text \<open>
  The contract, on the upserts of one chat: those after the account's last own message
  count, on top of \<open>n\<close> when there is no own message.
\<close>

definition expected_unread :: "int \<Rightarrow> chat list \<Rightarrow> int" where
  "expected_unread n cs =
     (if list_ex ch_last_message_from_me cs then 0 else n) +
     int (length (filter ch_increment_unread (takeWhile (\<lambda>c. \<not> ch_last_message_from_me c) (rev cs))))"

lemma expected_unread_snoc:
  "expected_unread n (cs @ [c]) =
    (if ch_last_message_from_me c then 0
     else if ch_increment_unread c then expected_unread n cs + 1 else expected_unread n cs)"
  by (auto simp: expected_unread_def)

definition unread_of :: "string \<Rightarrow> store \<Rightarrow> int" where
  "unread_of j s = (case row_by c_jid j (wa_chats s) of None \<Rightarrow> 0 | Some r \<Rightarrow> c_unread_count r)"

lemma row_by_upsert:
  "row_by c_jid j (upsert_chat_row c now rs) =
    (if j = ch_jid c
     then Some (case row_by c_jid j rs of None \<Rightarrow> new_chat_row c now | Some r \<Rightarrow> merge_chat_row c now r)
     else row_by c_jid j rs)"
proof (cases "ch_jid c \<in> c_jid ` set rs")
  case True
  have "row_by c_jid j (update_where (\<lambda>r. c_jid r = ch_jid c) (merge_chat_row c now) rs) =
      map_option (\<lambda>r. if c_jid r = ch_jid c then merge_chat_row c now r else r) (row_by c_jid j rs)"
    by (rule row_by_update_where) (simp add: merge_chat_row_def)
  moreover have "j = ch_jid c \<longrightarrow> row_by c_jid j rs \<noteq> None"
    using True by (simp add: row_by_None_iff)
  ultimately show ?thesis
    using True row_by_Some_in [of c_jid j rs]
    by (cases "row_by c_jid j rs") (auto simp: upsert_chat_row_def)
next
  case False
  then have "row_by c_jid (ch_jid c) rs = None" by (simp add: row_by_None_iff)
  with False show ?thesis
    by (auto simp: upsert_chat_row_def row_by_append new_chat_row_def split: option.split)
qed

lemma upserted_jid: "ch_jid c \<in> c_jid ` set (upsert_chat_row c now rs)"
  using row_by_None_iff [of c_jid "ch_jid c" "upsert_chat_row c now rs"] by (auto simp: row_by_upsert)

lemma UpsertChat_quiet:
  "replies s = [] \<Longrightarrow> UpsertChat c s =
    (Inr (), set_chats (upsert_chat_row c (utc_now s)) (sent_off ''INSERT wa_chats'' s))"
  by (simp add: UpsertChat_def exec_quiet_known writes_def)

lemma run_upserts_snoc: "run_upserts (cs @ [c]) s = snd (UpsertChat c (run_upserts cs s))"
  by (simp add: run_upserts_def)

lemma run_upserts_quiet: "replies s = [] \<Longrightarrow> replies (run_upserts cs s) = []"
  by (induction cs rule: rev_induct) (simp_all add: run_upserts_snoc UpsertChat_quiet run_upserts_def)

text \<open>C23: After any run of upserts the unread counter is the number of incoming messages since the last own one.\<close>

theorem unread_counts_since_own:
  assumes "replies s = []"
  shows "unread_of j (run_upserts cs s) =
    expected_unread (unread_of j s) (filter (\<lambda>c. ch_jid c = j) cs)"
proof (induction cs rule: rev_induct)
  case Nil
  then show ?case by (simp add: run_upserts_def expected_unread_def)
next
  case (snoc c cs)
  have "unread_of j (snd (UpsertChat c (run_upserts cs s))) =
      (if j \<noteq> ch_jid c then unread_of j (run_upserts cs s)
       else if ch_last_message_from_me c then 0
       else if ch_increment_unread c then unread_of j (run_upserts cs s) + 1
       else unread_of j (run_upserts cs s))"
    using run_upserts_quiet [OF assms, of cs]
    by (auto simp: UpsertChat_quiet unread_of_def row_by_upsert new_chat_row_def merge_chat_row_def
        split: option.split)
  then show ?case
    using snoc.IH by (auto simp: run_upserts_snoc expected_unread_snoc)
qed

section \<open>What an upsert keeps\<close>

text \<open>\<open>r'\<close> knows at least what \<open>r\<close> knew.\<close>

definition knows_more :: "chat_row \<Rightarrow> chat_row \<Rightarrow> bool" where
  "knows_more r r' \<longleftrightarrow>
     (c_display_name r \<noteq> None \<longrightarrow> c_display_name r' \<noteq> None) \<and>
     (c_phone_e164 r \<noteq> None \<longrightarrow> c_phone_e164 r' \<noteq> None) \<and>
     (c_profile_pic_url r \<noteq> None \<longrightarrow> c_profile_pic_url r' \<noteq> None) \<and>
     (c_last_message_at r \<noteq> None \<longrightarrow> c_last_message_at r' \<noteq> None) \<and>
     (c_last_message_preview r \<noteq> None \<longrightarrow> c_last_message_preview r' \<noteq> None) \<and>
     c_is_group r' = c_is_group r \<and> c_archived r' = c_archived r \<and>
     c_peer_typing_until r' = c_peer_typing_until r"

lemma UpsertChat_chats:
  "wa_chats (snd (UpsertChat c s)) = wa_chats s \<or>
   wa_chats (snd (UpsertChat c s)) = upsert_chat_row c (utc_now s) (wa_chats s)"
  unfolding UpsertChat_def
  using exec_set_chats [of "''INSERT wa_chats''" "[]" "\<lambda>s. upsert_chat_row c (utc_now s)" s] by simp

lemma UpsertChat_knows:
  assumes "row_by c_jid j (wa_chats s) = Some r"
  shows "\<exists>r'. row_by c_jid j (wa_chats (snd (UpsertChat c s))) = Some r' \<and> knows_more r r' \<and>
    (ch_jid c \<noteq> j \<longrightarrow> r' = r)"
  using UpsertChat_chats [of c s]
proof
  assume "wa_chats (snd (UpsertChat c s)) = upsert_chat_row c (utc_now s) (wa_chats s)"
  with assms show ?thesis
    by (auto simp: row_by_upsert knows_more_def merge_chat_row_def coalesce_def split: option.splits)
qed (use assms in \<open>auto simp: knows_more_def\<close>)

lemma knows_more_trans: "knows_more r r' \<Longrightarrow> knows_more r' r'' \<Longrightarrow> knows_more r r''"
  by (simp add: knows_more_def)

text \<open>Upserts never lose a known name, phone, picture or tail, and never touch another chat.\<close>

theorem upserts_never_forget:
  assumes "row_by c_jid j (wa_chats s) = Some r"
  shows "\<exists>r'. row_by c_jid j (wa_chats (run_upserts cs s)) = Some r' \<and> knows_more r r' \<and>
    (j \<notin> ch_jid ` set cs \<longrightarrow> r' = r)"
proof (induction cs rule: rev_induct)
  case Nil
  with assms show ?case by (simp add: run_upserts_def knows_more_def)
next
  case (snoc c cs)
  then obtain r' where r': "row_by c_jid j (wa_chats (run_upserts cs s)) = Some r'" "knows_more r r'"
    "j \<notin> ch_jid ` set cs \<longrightarrow> r' = r" by blast
  from UpsertChat_knows [OF r'(1), of c] r'(2,3) show ?case
    by (auto simp: run_upserts_snoc intro: knows_more_trans)
qed

section \<open>Read elsewhere\<close>

lemma ClearUnreadUpTo_chats:
  "wa_chats (snd (ClearUnreadUpTo j ids s)) = wa_chats s \<or>
   ids \<noteq> [] \<and> wa_chats (snd (ClearUnreadUpTo j ids s)) =
     update_where (\<lambda>r. c_jid r = j \<and> 0 < c_unread_count r)
       (\<lambda>r. r\<lparr>c_unread_count := min (c_unread_count r)
          (unread_after (c_jid r) (case newest_read ids (wa_messages s) of
             None \<Rightarrow> end_of_time | Some t \<Rightarrow> t) (wa_messages s))\<rparr>) (wa_chats s)"
  unfolding ClearUnreadUpTo_def
  using exec_set_chats [of "''UPDATE wa_chats unread_count''" "[]"
      "\<lambda>s. update_where (\<lambda>r. c_jid r = j \<and> 0 < c_unread_count r)
       (\<lambda>r. r\<lparr>c_unread_count := min (c_unread_count r)
          (unread_after (c_jid r) (case newest_read ids (wa_messages s) of
             None \<Rightarrow> end_of_time | Some t \<Rightarrow> t) (wa_messages s))\<rparr>)" s]
  by simp

text \<open>ClearUnreadUpTo never raises a counter, never makes it negative and changes nothing else.\<close>

theorem read_elsewhere_never_raises:
  assumes "row_by c_jid x (wa_chats s) = Some r"
  shows "\<exists>r'. row_by c_jid x (wa_chats (snd (ClearUnreadUpTo j ids s))) = Some r' \<and>
    c_unread_count r' \<le> c_unread_count r \<and> r'\<lparr>c_unread_count := c_unread_count r\<rparr> = r \<and>
    (x \<noteq> j \<longrightarrow> r' = r) \<and> (0 \<le> c_unread_count r \<longrightarrow> 0 \<le> c_unread_count r')"
  using ClearUnreadUpTo_chats [of j ids s]
proof
  let ?f = "\<lambda>r. r\<lparr>c_unread_count := min (c_unread_count r)
          (unread_after (c_jid r) (case newest_read ids (wa_messages s) of
             None \<Rightarrow> end_of_time | Some t \<Rightarrow> t) (wa_messages s))\<rparr>"
  assume "ids \<noteq> [] \<and> wa_chats (snd (ClearUnreadUpTo j ids s)) =
     update_where (\<lambda>r. c_jid r = j \<and> 0 < c_unread_count r) ?f (wa_chats s)"
  moreover have "row_by c_jid x (update_where (\<lambda>r. c_jid r = j \<and> 0 < c_unread_count r) ?f (wa_chats s)) =
      Some (if c_jid r = j \<and> 0 < c_unread_count r then ?f r else r)"
    using assms by (subst row_by_update_where) auto
  ultimately show ?thesis
    using row_by_Some_in [OF assms] by (auto simp: unread_after_def)
qed (use assms in auto)

lemma foldr_max_ge: "(t::int) \<in> set ts \<Longrightarrow> t \<le> foldr max ts d"
  by (induction ts) auto

lemma newest_read_ge:
  assumes "m \<in> set ms" "m_id m \<in> set ids"
  shows "\<exists>t. newest_read ids ms = Some t \<and> m_timestamp m \<le> t"
proof -
  let ?ts = "map m_timestamp (filter (\<lambda>m. m_id m \<in> set ids) ms)"
  have m: "m_timestamp m \<in> set ?ts" using assms by auto
  then have "newest_read ids ms = Some (foldr max ?ts (hd ?ts))"
    unfolding newest_read_def by (cases ?ts) simp_all
  with foldr_max_ge [OF m, of "hd ?ts"] show ?thesis by simp
qed

text \<open>
  A message that arrived after the read is still unread, everything up to it is not: reading
  the newest incoming message (or messages the bridge never stored) empties the counter.
\<close>

text \<open>Reading the newest message of a chat, or messages the bridge never stored, empties its counter.\<close>

theorem read_up_to_newest_clears:
  assumes "replies s = []" "ids \<noteq> []" "row_by c_jid j (wa_chats s) = Some r" "0 \<le> c_unread_count r"
    and "list_all (\<lambda>m. m_timestamp m \<le> end_of_time) (wa_messages s)"
    and "(\<exists>m \<in> set (wa_messages s). m_id m \<in> set ids \<and>
            (\<forall>m' \<in> set (wa_messages s). m_chat_jid m' = j \<longrightarrow> m_timestamp m' \<le> m_timestamp m)) \<or>
         set ids \<inter> m_id ` set (wa_messages s) = {}"
  shows "\<exists>r'. row_by c_jid j (wa_chats (snd (ClearUnreadUpTo j ids s))) = Some r' \<and> c_unread_count r' = 0"
proof -
  define t where "t = (case newest_read ids (wa_messages s) of None \<Rightarrow> end_of_time | Some t \<Rightarrow> t)"
  have t: "m_timestamp m' \<le> t" if "m' \<in> set (wa_messages s)" "m_chat_jid m' = j" for m'
    using assms(6)
  proof
    assume "set ids \<inter> m_id ` set (wa_messages s) = {}"
    then have "filter (\<lambda>m. m_id m \<in> set ids) (wa_messages s) = []" by (auto simp: filter_empty_conv)
    then have "newest_read ids (wa_messages s) = None" by (simp add: newest_read_def)
    then show ?thesis using assms(5) that by (auto simp: t_def list_all_iff)
  next
    assume "\<exists>m \<in> set (wa_messages s). m_id m \<in> set ids \<and>
            (\<forall>m' \<in> set (wa_messages s). m_chat_jid m' = j \<longrightarrow> m_timestamp m' \<le> m_timestamp m)"
    then show ?thesis using newest_read_ge [of _ "wa_messages s" ids] that by (fastforce simp: t_def)
  qed
  have "filter (\<lambda>m. m_chat_jid m = j \<and> \<not> m_from_me m \<and> countable m \<and> t < m_timestamp m)
      (wa_messages s) = []"
    using t by (auto simp: filter_empty_conv dest!: leD)
  then have none: "unread_after j t (wa_messages s) = 0" by (simp add: unread_after_def)
  let ?f = "\<lambda>r. r\<lparr>c_unread_count := min (c_unread_count r) (unread_after (c_jid r) t (wa_messages s))\<rparr>"
  have "row_by c_jid j (update_where (\<lambda>r. c_jid r = j \<and> 0 < c_unread_count r) ?f (wa_chats s)) =
      Some (if c_jid r = j \<and> 0 < c_unread_count r then ?f r else r)"
    using assms(3) by (subst row_by_update_where) auto
  then show ?thesis
    using assms(1,2,4) row_by_Some_in [OF assms(3)] none
    by (simp add: ClearUnreadUpTo_def exec_quiet_known writes_def t_def [symmetric])
qed

section \<open>The tail\<close>

definition tail_edits :: "store \<Rightarrow> bool" where
  "tail_edits s \<longleftrightarrow> featureEdits \<notin> off s \<and> ''wa_messages.revoked_at'' \<notin> set (missing_columns s)"

definition tail_location :: "store \<Rightarrow> bool" where
  "tail_location s \<longleftrightarrow>
     featureLocation \<notin> off s \<and> ''wa_messages.location_name'' \<notin> set (missing_columns s)"

lemma scan_tail_quiet:
  assumes "replies s = []"
  shows "scan_tail j edits location s =
    (if edits \<and> ''wa_messages.revoked_at'' \<in> set (missing_columns s)
       then Inl (unknown_column ''revoked_at'')
     else if location \<and> ''wa_messages.location_name'' \<in> set (missing_columns s)
       then Inl (unknown_column ''location_name'')
     else one_row (map_option (tail_of edits location) (chat_tail j (wa_messages s))),
     sent_off ''SELECT wa_messages tail'' s)"
  using assms by (simp add: scan_tail_def exec_quiet tail_cols_def selects_def)

lemma tail_owners [simp]:
  "columnOwner (unknown_column ''revoked_at'') = None"
  "columnOwner (unknown_column ''location_name'') = Some featureLocation"
  by (simp_all add: columnOwner_unknown_column columnFeature_def)

lemma features_distinct [simp]:
  "featureLocation \<noteq> featureEdits" "featureEdits \<noteq> featureLocation"
  by (simp_all add: feature_defs)

lemma one_row_not_unknown [simp]: "one_row x = Inl e \<Longrightarrow> e = ErrNoRows"
  by (simp add: one_row_def split: option.splits)

lemma not_unknown_no_rows [simp]: "\<not> IsUnknownColumn ErrNoRows"
  by (simp add: IsUnknownColumn_def)

text \<open>One of the two inner fallbacks, then both.\<close>

lemma edits_tail_quiet:
  assumes "replies s = []"
  shows "\<exists>s1. Fallback featureEdits (scan_tail j True l) (Some (scan_tail j False l)) empty_tail s =
      (if l \<and> ''wa_messages.location_name'' \<in> set (missing_columns s)
         then Inl (unknown_column ''location_name'')
       else one_row (map_option (tail_of (tail_edits s) l) (chat_tail j (wa_messages s))), s1) \<and>
    replies s1 = [] \<and> missing_columns s1 = missing_columns s \<and> wa_messages s1 = wa_messages s \<and>
    wa_chats s1 = wa_chats s \<and> off s \<subseteq> off s1 \<and> off s1 \<subseteq> insert featureEdits (off s) \<and>
    (featureEdits \<in> off s1 \<longleftrightarrow> \<not> tail_edits s)"
  using assms
  by (auto simp: Fallback_def legacy_def FeatureOff_def scan_tail_quiet tail_edits_def one_row_def
      split: option.split)

lemma read_tail_quiet:
  assumes "replies s = []"
  shows "\<exists>s1. read_tail j s =
      (one_row (map_option (tail_of (tail_edits s) (tail_location s)) (chat_tail j (wa_messages s))), s1) \<and>
    replies s1 = [] \<and> wa_messages s1 = wa_messages s \<and> wa_chats s1 = wa_chats s"
proof (cases "featureLocation \<in> off s")
  case True
  with edits_tail_quiet [OF assms, of j False] show ?thesis
    by (auto simp: read_tail_def Fallback_def [of featureLocation] FeatureOff_def legacy_def tail_location_def)
next
  case on: False
  let ?F = "\<lambda>l. Fallback featureEdits (scan_tail j True l) (Some (scan_tail j False l)) empty_tail"
  obtain s1 where s1: "?F True s =
      (if ''wa_messages.location_name'' \<in> set (missing_columns s)
         then Inl (unknown_column ''location_name'')
       else one_row (map_option (tail_of (tail_edits s) True) (chat_tail j (wa_messages s))), s1)"
    "replies s1 = []" "missing_columns s1 = missing_columns s" "wa_messages s1 = wa_messages s"
    "wa_chats s1 = wa_chats s" "featureEdits \<in> off s1 \<longleftrightarrow> \<not> tail_edits s"
    using edits_tail_quiet [OF assms, of j True] by auto
  show ?thesis
  proof (cases "''wa_messages.location_name'' \<in> set (missing_columns s)")
    case False
    with s1 on show ?thesis
      by (auto simp: read_tail_def Fallback_def [of featureLocation] FeatureOff_def tail_location_def
          one_row_def split: option.split)
  next
    case True
    let ?s2 = "switch_off featureLocation s1"
    have "tail_edits ?s2 = tail_edits s" using s1(3,6) by (auto simp: tail_edits_def)
    then obtain s3 where "?F False ?s2 =
       (one_row (map_option (tail_of (tail_edits s) False) (chat_tail j (wa_messages s))), s3)"
      "replies s3 = []" "wa_messages s3 = wa_messages s" "wa_chats s3 = wa_chats s"
      using edits_tail_quiet [of ?s2 j False] s1 by auto
    with s1 on True show ?thesis
      by (auto simp: read_tail_def Fallback_def [of featureLocation] FeatureOff_def legacy_def tail_location_def)
  qed
qed

lemma RecomputeChatTail_quiet:
  assumes "replies s = []"
  shows "fst (RecomputeChatTail j preview s) = Inr () \<and>
    wa_chats (snd (RecomputeChatTail j preview s)) =
      (case chat_tail j (wa_messages s) of
         None \<Rightarrow> wa_chats s
       | Some m \<Rightarrow> set_tail j preview (tail_of (tail_edits s) (tail_location s) m) (wa_chats s))"
proof -
  obtain s1 where "read_tail j s =
      (one_row (map_option (tail_of (tail_edits s) (tail_location s)) (chat_tail j (wa_messages s))), s1)"
    "replies s1 = []" "wa_chats s1 = wa_chats s"
    using read_tail_quiet [OF assms] by blast
  then show ?thesis
    by (simp add: RecomputeChatTail_def one_row_def exec_quiet_known writes_def split: option.split)
qed

text \<open>RecomputeChatTail on any schema writes the tail row with the columns the database has, and leaves a chat without countable rows alone.\<close>

theorem RecomputeChatTail_outcome:
  assumes "replies s = []"
  shows "fst (RecomputeChatTail j preview s) = Inr () \<and>
    wa_chats (snd (RecomputeChatTail j preview s)) =
      (case chat_tail j (wa_messages s) of
         None \<Rightarrow> wa_chats s
       | Some m \<Rightarrow> set_tail j preview (tail_of (tail_edits s) (tail_location s) m) (wa_chats s))"
  using assms by (rule RecomputeChatTail_quiet)

text \<open>\<open>ORDER BY timestamp DESC, id DESC LIMIT 1\<close> is the newest countable message.\<close>

lemma hd_sort_key: "m # ms = sort_key f xs \<Longrightarrow> x \<in> set xs \<Longrightarrow> f m \<le> f x"
proof -
  assume s: "m # ms = sort_key f xs" and x: "x \<in> set xs"
  have "x \<in> set (m # ms)" using x by (simp only: s set_sort)
  moreover have "sorted (map f (m # ms))" by (simp only: s sorted_sort_key)
  ultimately show ?thesis by auto
qed

lemma sort_key_Nil_iff [simp]: "sort_key f xs = [] \<longleftrightarrow> xs = []"
  by (metis length_0_conv length_sort)

lemma chat_tail_None:
  "chat_tail j ms = None \<longleftrightarrow> filter (\<lambda>m. m_chat_jid m = j \<and> countable m) ms = []"
proof -
  define xs where "xs = filter (\<lambda>m. m_chat_jid m = j \<and> countable m) ms"
  have "sort_key (\<lambda>m. - m_timestamp m) (rev (sort_key m_id xs)) = [] \<longleftrightarrow> xs = []" by simp
  then show ?thesis
    unfolding chat_tail_def xs_def [symmetric]
    by (cases "sort_key (\<lambda>m. - m_timestamp m) (rev (sort_key m_id xs))") simp_all
qed

lemma chat_tail_newest:
  assumes "chat_tail j ms = Some m" "m' \<in> set ms" "m_chat_jid m' = j" "countable m'"
  shows "m \<in> set ms \<and> m_chat_jid m = j \<and> countable m \<and> m_timestamp m' \<le> m_timestamp m"
proof -
  let ?xs = "rev (sort_key m_id (filter (\<lambda>m. m_chat_jid m = j \<and> countable m) ms))"
  obtain rest where r: "sort_key (\<lambda>m. - m_timestamp m) ?xs = m # rest"
    using assms(1) by (auto simp: chat_tail_def split: list.splits)
  have "m \<in> set ?xs" by (metis list.set_intros(1) r set_sort)
  moreover have "- m_timestamp m \<le> - m_timestamp m'"
    using assms by (intro hd_sort_key [OF r [symmetric]]) auto
  ultimately show ?thesis by auto
qed

text \<open>C26: After RecomputeChatTail the chat shows the newest countable message: its time, who sent it and the label made of its type, body, file name and place and of whether it was deleted; the unread counter is unchanged.\<close>

theorem tail_is_newest:
  assumes "replies s = []" "row_by c_jid j (wa_chats s) = Some r"
    and "m' \<in> set (wa_messages s)" "m_chat_jid m' = j" "countable m'"
  shows "\<exists>m \<in> set (wa_messages s). m_chat_jid m = j \<and> countable m \<and> m_timestamp m' \<le> m_timestamp m \<and>
    (\<exists>r'. row_by c_jid j (wa_chats (snd (RecomputeChatTail j preview s))) = Some r' \<and>
       c_last_message_at r' = Some (m_timestamp m) \<and> c_last_message_from_me r' = m_from_me m \<and>
       c_unread_count r' = c_unread_count r \<and>
       c_last_message_preview r' = Some (preview
         \<lparr>tl_message_type = m_message_type m, tl_body = m_body m, tl_media_filename = m_media_filename m,
          tl_revoked = (tail_edits s \<and> m_revoked_at m \<noteq> None), tl_from_me = m_from_me m,
          tl_timestamp = m_timestamp m,
          tl_location_name = (if tail_location s then m_location_name m else None)\<rparr>))"
proof -
  have "chat_tail j (wa_messages s) \<noteq> None"
    using assms(3-5) by (auto simp: chat_tail_None filter_empty_conv)
  then obtain m where m: "chat_tail j (wa_messages s) = Some m" by blast
  obtain s1 where "read_tail j s =
      (Inr (tail_of (tail_edits s) (tail_location s) m), s1)" "replies s1 = []" "wa_chats s1 = wa_chats s"
    using read_tail_quiet [OF assms(1), of j] m by (auto simp: one_row_def)
  then have "wa_chats (snd (RecomputeChatTail j preview s)) =
      set_tail j preview (tail_of (tail_edits s) (tail_location s) m) (wa_chats s)"
    by (simp add: RecomputeChatTail_def exec_quiet_known writes_def)
  moreover have "row_by c_jid j (set_tail j preview t (wa_chats s)) = Some (r\<lparr>c_last_message_at := Some (tl_timestamp t),
      c_last_message_preview := Some (preview t), c_last_message_from_me := tl_from_me t\<rparr>)" for t
    unfolding set_tail_def
    using assms(2) row_by_Some_in [OF assms(2)] by (subst row_by_update_where) auto
  ultimately show ?thesis
    using chat_tail_newest [OF m assms(3-5)] by (intro bexI [of _ m]) (simp_all add: tail_of_def)
qed

section \<open>Closed instances\<close>

definition sample_upsert :: "bool \<Rightarrow> chat" where
  "sample_upsert fromMe =
     \<lparr>ch_jid = ''a'', ch_display_name = None, ch_phone_e164 = None, ch_is_group = False,
      ch_profile_pic_url = None, ch_last_message_at = Some 20, ch_last_message_preview = Some ''x'',
      ch_last_message_from_me = fromMe, ch_increment_unread = \<not> fromMe\<rparr>"

lemma sample_rows:
  "row_by c_jid ''a'' (wa_chats sample_store) = Some (sample_chat ''a'' False)"
  "list_all (\<lambda>m. m_timestamp m \<le> end_of_time) (wa_messages sample_store)"
  "sample_row ''m3'' True 10 \<in> set (wa_messages sample_store)"
  by (simp_all add: sample_defs end_of_time_def second_def)

theorem unread_counts_since_own_witness:
  "replies sample_store = [] \<and>
   unread_of ''a'' (run_upserts [sample_upsert False, sample_upsert True, sample_upsert False] sample_store) = 1"
  using unread_counts_since_own [of sample_store "''a''" "[sample_upsert False, sample_upsert True, sample_upsert False]"]
    sample_store_ok(2)
  by (simp add: expected_unread_def sample_upsert_def)

theorem upserts_never_forget_witness:
  "\<exists>r'. row_by c_jid ''a'' (wa_chats (run_upserts [sample_upsert True] sample_store)) = Some r' \<and>
     c_display_name r' \<noteq> None"
proof -
  have "c_display_name (sample_chat ''a'' False) \<noteq> None" by (simp add: sample_chat_def)
  with upserts_never_forget [OF sample_rows(1), of "[sample_upsert True]"]
  show ?thesis unfolding knows_more_def by blast
qed

theorem read_elsewhere_never_raises_witness:
  "row_by c_jid ''a'' (wa_chats sample_store) = Some (sample_chat ''a'' False) \<and>
   (\<exists>r'. row_by c_jid ''a'' (wa_chats (snd (ClearUnreadUpTo ''a'' [''m1''] sample_store))) = Some r' \<and>
     c_unread_count r' \<le> 2)"
proof -
  have "c_unread_count (sample_chat ''a'' False) = 2" by (simp add: sample_chat_def)
  with read_elsewhere_never_raises [OF sample_rows(1), of "''a''" "[''m1'']"] sample_rows(1)
  show ?thesis by auto
qed

theorem read_up_to_newest_clears_witness:
  "replies sample_store = [] \<and>
   (\<exists>r'. row_by c_jid ''a'' (wa_chats (snd (ClearUnreadUpTo ''a'' [''gone''] sample_store))) = Some r' \<and>
     c_unread_count r' = 0)"
  using read_up_to_newest_clears [of sample_store "[''gone'']" "''a''" "sample_chat ''a'' False"]
    sample_rows sample_store_ok(2)
  by (simp add: sample_defs)

theorem RecomputeChatTail_outcome_witness:
  "replies sample_store = [] \<and> fst (RecomputeChatTail ''a'' (\<lambda>_. ''p'') sample_store) = Inr ()"
  using RecomputeChatTail_outcome [of sample_store "''a''" "\<lambda>_. ''p''"] sample_store_ok(2) by simp

theorem tail_is_newest_witness:
  "\<exists>m \<in> set (wa_messages sample_store). 10 \<le> m_timestamp m \<and>
    (\<exists>r'. row_by c_jid ''a'' (wa_chats (snd (RecomputeChatTail ''a''
         (\<lambda>t. null_str (tl_body t)) sample_store))) = Some r' \<and>
       c_last_message_at r' = Some (m_timestamp m) \<and>
       c_last_message_preview r' = Some ''hi'')"
proof -
  have "m_body m = Some ''hi''" if "m \<in> set (wa_messages sample_store)" for m
    using that by (auto simp: sample_defs)
  moreover have "m_chat_jid (sample_row ''m3'' True 10) = ''a''" "countable (sample_row ''m3'' True 10)"
    "m_timestamp (sample_row ''m3'' True 10) = 10"
    by (simp_all add: countable_def sample_defs)
  ultimately show ?thesis
    using tail_is_newest [OF sample_store_ok(2) sample_rows(1,3), of "\<lambda>t. null_str (tl_body t)"] by fastforce
qed

end
