(* ===== verification/ContentLaws.thy ===== *)
theory ContentLaws
  imports Messages NewChat
begin

text \<open>
  What \<open>messages.go\<close> guarantees: wrapping a message changes nothing, an encrypted edit acts
  like the plain one, the type of a message and its media fit together, and what is stored
  of a quote fits its columns and is what the other side reads back.
\<close>

section \<open>Wrapping\<close>

lemma unwrap_step:
  assumes "inner w = Some m" "depth (Some m) < 8"
  shows "unwrapMessage w = unwrapMessage (Some m)"
proof -
  have "depth w \<le> 8" using assms by (simp add: depth_step [OF assms(1)])
  then show ?thesis
    using assms(2) by (simp add: unwrapMessage_leaf leaf_step [OF assms(1)])
qed

lemma unwrapMessage_leaf_id: "inner m = None \<Longrightarrow> unwrapMessage m = m"
  by (simp add: unwrapMessage_def unwrap_n_no_inner)

lemma unwrap_Some: "\<exists>m'. unwrap_n n (Some m) = Some m'"
  by (induction n arbitrary: m) (auto split: option.split)

lemma no_decryptor_same:
  assumes "unwrapMessage (ev_message a) = unwrapMessage (ev_message b)"
  shows "resolveAction a None = resolveAction b None" and "reactionOf a None = reactionOf b None"
  using assms
  by (auto simp: resolveAction_def reactionOf_def Let_def split: option.split secret_type.split)

text \<open>C29: A message in a container is classified, quoted, edited and reacted to as its content, and unwrapping ends at a message that is no container, for up to seven containers inside.\<close>

theorem wrapping_is_transparent:
  assumes "inner (Some w) = Some m" "depth (Some m) < 8"
  shows "classifyMessage (Some w) = classifyMessage (Some m) \<and>
    contextInfoOf (Some w) = contextInfoOf (Some m) \<and>
    quotedPreview (Some w) = quotedPreview (Some m) \<and>
    reactionOf \<lparr>ev_info = i, ev_message = Some w\<rparr> None =
      reactionOf \<lparr>ev_info = i, ev_message = Some m\<rparr> None \<and>
    resolveAction \<lparr>ev_info = i, ev_message = Some w\<rparr> None =
      resolveAction \<lparr>ev_info = i, ev_message = Some m\<rparr> None \<and>
    inner (unwrapMessage (Some w)) = None"
proof -
  have u: "unwrapMessage (Some w) = unwrapMessage (Some m)" using assms by (rule unwrap_step)
  then have "unwrapMessage (Some w) = leaf (Some m)" using assms(2) by (simp add: unwrapMessage_leaf)
  then have "inner (unwrapMessage (Some w)) = None" by (simp add: inner_leaf)
  moreover have "resolveAction \<lparr>ev_info = i, ev_message = Some w\<rparr> None =
      resolveAction \<lparr>ev_info = i, ev_message = Some m\<rparr> None"
    "reactionOf \<lparr>ev_info = i, ev_message = Some w\<rparr> None =
      reactionOf \<lparr>ev_info = i, ev_message = Some m\<rparr> None"
    by (rule no_decryptor_same; simp add: u)+
  ultimately show ?thesis
    by (simp add: u classifyMessage_def contextInfoOf_def quotedPreview_def)
qed

section \<open>Edits\<close>

lemma editAction_target: "editAction i e = ActionEdit t m \<Longrightarrow> t = i \<and> i \<noteq> '''' \<and> e = Some m"
  by (auto simp: editAction_def split: option.splits if_splits)

lemma editAction_no_revoke [simp]: "editAction i e \<noteq> ActionRevoke t" "editAction i e \<noteq> ActionNone"
  by (auto simp: editAction_def split: option.splits)

lemma edit_has_target: "resolveAction evt d = ActionEdit t m \<Longrightarrow> t \<noteq> ''''"
  by (auto simp: resolveAction_def Let_def dest!: editAction_target
      split: option.splits prod.splits if_splits secret_type.splits sum.splits protocol_type.splits)

text \<open>An edit or a delete always names a target, and a delete comes from a protocol message that names it.\<close>

theorem actions_name_a_target:
  "(\<forall>t m. resolveAction evt d = ActionEdit t m \<longrightarrow> t \<noteq> '''') \<and>
   (\<forall>t. resolveAction evt d = ActionRevoke t \<longrightarrow>
      t \<noteq> '''' \<and> (\<exists>e. protocol (unwrapMessage (ev_message evt)) = Some (Revoke, Some t, e)))"
proof (intro conjI allI impI)
  fix t m
  assume "resolveAction evt d = ActionEdit t m"
  then show "t \<noteq> ''''" by (rule edit_has_target)
next
  fix t
  assume r: "resolveAction evt d = ActionRevoke t"
  then have "\<exists>e. protocol (unwrapMessage (ev_message evt)) = Some (Revoke, Some t, e) \<and> t \<noteq> ''''"
    by (auto simp: resolveAction_def Let_def null_str_def
        split: option.splits prod.splits if_splits secret_type.splits sum.splits protocol_type.splits)
  then show "t \<noteq> ''''" "\<exists>e. protocol (unwrapMessage (ev_message evt)) = Some (Revoke, Some t, e)"
    by blast+
qed

text \<open>An encrypted edit acts as the plain edit it holds, with the envelope's target when it names none.\<close>

theorem encrypted_edit_as_plain:
  assumes "unwrapMessage (ev_message evt) = Some m"
    and "protocol (Some m) = None" "secret_encrypted (Some m) = Some (SecretMessageEdit, target)"
    and "d evt = Inr p" "protocol (unwrapMessage p) = Some (MessageEdit, key, edited)"
  shows "resolveAction evt (Some d) =
    (if null_str key = '''' then editAction (null_str target) edited
     else resolveAction (evt\<lparr>ev_message := p\<rparr>) None)"
  using assms by (simp add: resolveAction_def Let_def)

section \<open>Types and media\<close>

definition media_types :: "string set" where
  "media_types = {''image'', ''video'', ''audio'', ''document'', ''sticker''}"

definition plain_types :: "string set" where
  "plain_types = {''text'', ''contact'', ''reaction'', ''revoked'', ''system'', ''other''}"

text \<open>What a case of the switch may answer.\<close>

definition well_typed :: "classified \<Rightarrow> bool" where
  "well_typed c \<longleftrightarrow>
     (case c of (t, b, None) \<Rightarrow> t \<in> plain_types
      | (t, b, Some d) \<Rightarrow>
          if t = ''location'' then md_downloadable d = None \<and> md_filename d = ''''
          else t \<in> media_types \<and> md_downloadable d \<noteq> None \<and> (md_filename d = '''' \<or> t = ''document''))"

definition typed_rule :: "(msg option \<Rightarrow> classified option) \<Rightarrow> bool" where
  "typed_rule rule \<longleftrightarrow> (\<forall>m c. rule m = Some c \<longrightarrow> well_typed c)"

lemma typed_content: "(\<And>x. well_typed (f x)) \<Longrightarrow> typed_rule (content_rule k f)"
  unfolding typed_rule_def content_rule_def by (metis map_option_eq_Some)

lemma typed_special:
  "typed_rule conversation_rule"
  "typed_rule (\<lambda>m. map_option (\<lambda>r. (''reaction'', null_str (rm_text r), None)) (reaction_field m))"
  "typed_rule (\<lambda>m. map_option (\<lambda>(t, _, _). classifyProtocol t) (protocol m))"
  "typed_rule (\<lambda>m. if secret_encrypted m \<noteq> None \<or> enc_reaction m \<noteq> None
     then Some (''system'', '''', None) else None)"
proof -
  have "well_typed (classifyProtocol t)" for t
    by (cases t) (simp_all add: classifyProtocol_def well_typed_def plain_types_def)
  then show "typed_rule (\<lambda>m. map_option (\<lambda>(t, _, _). classifyProtocol t) (protocol m))"
    unfolding typed_rule_def by (metis (mono_tags, lifting) case_prod_beta map_option_eq_Some)
qed (auto simp: typed_rule_def well_typed_def plain_types_def conversation_rule_def split: if_splits)

lemma well_typed_rules:
  assumes "rule \<in> set (media_rules @ rich_rules)" "rule m = Some c"
  shows "well_typed c"
proof -
  have "list_all typed_rule (media_rules @ rich_rules)"
    unfolding media_rules_def rich_rules_def poll_rule_def system_rule_def
    by (simp only: list.pred_inject append.simps typed_special simp_thms, intro conjI typed_content)
      (simp_all add: well_typed_def plain_types_def media_types_def media_of_def
        media_with_thumbnail_def no_media_def location_media_def)
  with assms(1) have "typed_rule rule" unfolding list_all_iff by blast
  with assms(2) show ?thesis unfolding typed_rule_def by blast
qed

lemma classifyMessage_well_typed: "well_typed (classifyMessage m)"
proof (cases "first (\<lambda>rule. rule (unwrapMessage m)) (media_rules @ rich_rules)")
  case None
  then show ?thesis
    by (simp add: classifyMessage_def Let_def unknown_message_def well_typed_def plain_types_def)
next
  case (Some c)
  then obtain rule where "rule \<in> set (media_rules @ rich_rules)" "rule (unwrapMessage m) = Some c"
    by (auto dest!: first_Some_in)
  then show ?thesis using well_typed_rules Some by (simp add: classifyMessage_def Let_def)
qed

text \<open>C30: The type a message is classified as decides its media: a file for images, videos, audio, documents and stickers, a place for locations, none for the rest, and a file name for documents only.\<close>

theorem classified_types:
  assumes "classifyMessage m = (t, b, md)"
  shows "(md = None \<longrightarrow> t \<in> {''text'', ''contact'', ''reaction'', ''revoked'', ''system'', ''other''}) \<and>
    (\<forall>d. md = Some d \<longrightarrow>
       t \<in> {''image'', ''video'', ''audio'', ''document'', ''sticker'', ''location''} \<and>
       (md_downloadable d = None \<longleftrightarrow> t = ''location'') \<and>
       (md_filename d \<noteq> '''' \<longrightarrow> t = ''document''))"
  using classifyMessage_well_typed [of m] assms
  by (auto simp: well_typed_def plain_types_def media_types_def split: option.splits if_splits)

section \<open>Bounds of the stored texts\<close>

lemma chunks_nonempty: "k \<in> set (chunks s) \<Longrightarrow> k \<noteq> []"
  by (drule chunks_shape) (auto simp: wf_seq_def)

lemma length_concat_ge: "\<forall>k \<in> set ks. k \<noteq> [] \<Longrightarrow> length ks \<le> length (concat ks)"
proof (induction ks)
  case (Cons k ks)
  then have "Suc 0 \<le> length k" "length ks \<le> length (concat ks)" by (simp_all add: Suc_le_eq)
  then show ?case by simp
qed simp

lemma runes_append_wf: "\<forall>k \<in> set ks. wf_seq k \<Longrightarrow> wf_seq e \<Longrightarrow> length (runes (concat ks @ e)) = Suc (length ks)"
  using runes_concat [of "ks @ [e]"] by auto

lemma runes_truncate_le: "length (runes (GoText.truncate s n)) \<le> Suc n"
proof (cases "length (runes s) \<le> n")
  case True
  then show ?thesis by (simp add: GoText.truncate_def)
next
  case False
  have "\<forall>k \<in> set (take n (runes s)). wf_seq k" by (auto dest: in_set_takeD runes_wf)
  with False show ?thesis by (simp add: GoText.truncate_def runes_append_wf)
qed

lemma runes_Nil [simp]: "runes [] = []"
  by (simp add: runes_def)

lemma quotedPreview_cut: "\<exists>x. quotedPreview qm = truncateRunes x quotedPreviewMax"
proof -
  have e: "\<exists>x. '''' = truncateRunes x quotedPreviewMax"
    by (rule exI [of _ "''''"]) (simp add: truncateRunes_def)
  show ?thesis
    by (cases "unwrapMessage qm") (auto simp: quotedPreview_def e split: prod.split option.split)
qed

lemma quotedPreview_width: "length (runes (quotedPreview qm)) \<le> quotedPreviewMax"
  using quotedPreview_cut [of qm] tr.cut_width by metis

text \<open>What is read from a quote fits the columns it is stored in.\<close>

theorem quote_fits_columns:
  "let q = quoteFromContext ci in
     length (null_str (qi_message_id q)) \<le> 64 \<and>
     length (null_str (qi_sender_jid q)) \<le> maxJIDLen \<and>
     length (runes (null_str (qi_preview q))) \<le> quotedPreviewMax \<and>
     (qi_message_id q = None \<longleftrightarrow> q = no_quote) \<and>
     (qi_message_id q = None \<longleftrightarrow> ctx_stanza ci = '''' \<or> 64 < length (ctx_stanza ci))"
  using quotedPreview_width [of "ctx_quoted ci"]
  by (auto simp: quoteFromContext_def no_quote_def Let_def runes_def)

lemma length_runes_le: "length (runes s) \<le> length s"
proof -
  have "length (chunks s) \<le> length (concat (chunks s))"
    using length_concat_ge [of "chunks s"] chunks_nonempty by simp
  then show ?thesis by (simp add: runes_def)
qed

lemma label_runes: "length (runes (pin @ ubicacion)) \<le> 160" "length (runes (camera @ ''Imagen'')) \<le> 160"
  "length (runes (movie_camera @ ''Video'')) \<le> 160" "length (runes (microphone @ ''Audio'')) \<le> 160"
  "length (runes (page @ ''Documento'')) \<le> 160" "length (runes (person @ ''Contacto'')) \<le> 160"
  "length (runes ''Sticker'') \<le> 160" "length (runes ''Mensaje eliminado'') \<le> 160" "length (runes '''') \<le> 160"
  by (rule order_trans [OF length_runes_le], simp add: label_defs)+

text \<open>The preview of a chat has at most 160 characters and an ellipsis.\<close>

theorem preview_bounded:
  assumes "msgType = ''document'' \<and> body = '''' \<longrightarrow> m = None \<or> md_filename (the m) = ''''"
  shows "length (runes (previewFor msgType body m)) \<le> 161"
proof -
  have if_le: "(c \<Longrightarrow> length (runes x) \<le> n) \<Longrightarrow> (\<not> c \<Longrightarrow> length (runes y) \<le> n) \<Longrightarrow>
    length (runes (if c then x else y)) \<le> n" for c x y n by simp
  have le: "length (runes x) \<le> 160 \<Longrightarrow> length (runes x) \<le> 161" for x by simp
  have loc: "length (runes (locationLabel n)) \<le> 161" for n
    using runes_truncate_le [of "pin @ trim_space n" 160] label_runes(1) by (simp add: locationLabel_def)
  have doc: "length (runes (case m of Some d \<Rightarrow> if md_filename d \<noteq> '''' then page @ md_filename d
      else page @ ''Documento'' | None \<Rightarrow> page @ ''Documento'')) \<le> 161"
    if "msgType = ''document''" "body = ''''"
    using assms that label_runes(5) by (cases m) auto
  show ?thesis
    unfolding previewFor_def
    by (intro if_le loc)
      (use runes_truncate_le [of body 160] doc label_runes in \<open>auto intro: le\<close>)
qed

section \<open>A reply is read back as it was sent\<close>

lemma dropWhile_all_iff: "dropWhile P xs = [] \<longleftrightarrow> (\<forall>x \<in> set xs. P x)"
  by (induction xs) auto

lemma trim_space_empty_iff: "trim_space s = '''' \<longleftrightarrow> (\<forall>k \<in> set (chunks s). is_space k)"
proof -
  let ?d = "dropWhile is_space (chunks s)"
  have ne: "k \<in> set (rev (dropWhile is_space (rev ?d))) \<Longrightarrow> k \<noteq> []" for k
    by (metis chunks_nonempty set_dropWhileD set_rev)
  have "trim_space s = '''' \<longleftrightarrow> dropWhile is_space (rev ?d) = []"
    using ne by (auto simp: trim_space_def)
  also have "\<dots> \<longleftrightarrow> (\<forall>k \<in> set ?d. is_space k)" by (simp add: dropWhile_all_iff)
  also have "\<dots> \<longleftrightarrow> ?d = []" 
    by (metis empty_iff hd_dropWhile hd_in_set list.set(1))
  finally show ?thesis by (simp only: dropWhile_all_iff)
qed

lemma trim_space_start: "wf_seq k \<Longrightarrow> \<not> is_space k \<Longrightarrow> trim_space (k @ s) \<noteq> ''''"
  by (simp add: trim_space_empty_iff chunks_wf_append)

lemma label_heads:
  "wf_seq (take 4 pin)" "wf_seq (take 4 person)" "wf_seq (take 4 page)" "wf_seq (take 4 camera)"
  "wf_seq (take 4 movie_camera)" "wf_seq (take 4 microphone)"
  "\<not> is_space (take 4 pin)" "\<not> is_space (take 4 person)" "\<not> is_space (take 4 page)"
  "\<not> is_space (take 4 camera)" "\<not> is_space (take 4 movie_camera)" "\<not> is_space (take 4 microphone)"
  by (simp_all add: label_defs wf_seq_def byte_def second_ok_def cont_byte_def is_space_def
      space_runes_def)

lemma head_not_blank: "wf_seq (take n l) \<Longrightarrow> \<not> is_space (take n l) \<Longrightarrow> trim_space (l @ s) \<noteq> ''''"
  by (metis append.assoc append_take_drop_id trim_space_start)

lemmas label_not_blank = head_not_blank [OF label_heads(1,7)] head_not_blank [OF label_heads(2,8)]
  head_not_blank [OF label_heads(3,9)] head_not_blank [OF label_heads(4,10)]
  head_not_blank [OF label_heads(5,11)] head_not_blank [OF label_heads(6,12)]

lemma plain_not_blank: "trim_space ''Sticker'' \<noteq> ''''" "trim_space ''Mensaje eliminado'' \<noteq> ''''"
  by code_simp+

lemma quoteLabel_not_blank: "quoteLabel t b f = '''' \<or> trim_space (quoteLabel t b f) \<noteq> ''''"
  unfolding quoteLabel_def by (simp add: label_not_blank plain_not_blank)

lemma quotedPreview_conversation:
  assumes "s = '''' \<or> trim_space s \<noteq> ''''"
  shows "quotedPreview (Some (Msg [Conversation s])) = truncateRunes s quotedPreviewMax"
proof -
  have inner: "inner (Some (Msg [Conversation s])) = None"
    by (simp add: inner_def container_order_def container_def)
  have cls: "classifyMessage (Some (Msg [Conversation s])) =
      (if s = '''' then (''other'', ''[proto: conversation]'', None) else (''text'', s, None))"
    by (simp add: classifyMessage_def unwrapMessage_leaf_id inner media_rules_def rich_rules_def
        conversation_rule_def content_rule_def poll_rule_def system_rule_def getter_defs
        unknown_message_def setProtoFields_def proto_label_def)
  show ?thesis
    using assms
    by (auto simp: quotedPreview_def unwrapMessage_leaf_id inner cls has_prefix_def quoteLabel_def
        truncateRunes_def)
qed

lemma attached_context:
  assumes "out = Msg [Conversation t] \<or> k \<in> set quotable_kinds \<and> out = Msg [Content k c x] \<or>
    out = Msg [Container DocumentWithCaption (Some (Msg [Content Document c x]))]"
  shows "contextInfoOf (attachQuote (Some out) (Some ci)) = Some ci"
  using assms
  by (auto simp: quotable_kinds_def attachQuote_def contextInfoOf_def context_kinds_def
      getter_defs unwrapMessage_def numeral_eq_Suc inner_def container_order_def)

text \<open>C15: The quote attached to a text, a media message, a location or a captioned document is read back by the inbound side with the same message ID, preview and author.\<close>

theorem quote_round_trip:
  assumes "out = Msg [Conversation t] \<or> k \<in> set quotable_kinds \<and> out = Msg [Content k c x] \<or>
      out = Msg [Container DocumentWithCaption (Some (Msg [Content Document c x]))]"
    and "sid \<noteq> ''''" "length sid \<le> 64" "\<not> is_empty w p"
    and "jid_string w p \<noteq> ''''" "length (jid_string w p) \<le> maxJIDLen"
  shows "quoteFromContext (contextInfoOf
      (attachQuote (Some out) (Some (buildQuoteContext w sid p row)))) =
    \<lparr>qi_message_id = Some sid,
     qi_preview = nullString (truncateRunes (quoteLabel (q_message_type row)
       (null_str (q_body row)) (null_str (q_media_filename row))) quotedPreviewMax),
     qi_sender_jid = Some (jid_string w p)\<rparr>"
  using assms(2-)
  by (simp add: attached_context [OF assms(1)] quoteFromContext_def buildQuoteContext_def
      quotedPreview_conversation [OF quoteLabel_not_blank] nullString_def Let_def)

section \<open>Closed instances\<close>

definition caption_doc :: msg where
  "caption_doc = Msg [Content Document (no_content\<lparr>k_text := Some ''hi'', k_file_name := Some ''a.pdf''\<rparr>) None]"

definition wrapped_doc :: msg where
  "wrapped_doc = Msg [MessageContextInfo, Container DocumentWithCaption (Some caption_doc)]"

definition plain_info :: message_info where
  "plain_info =
     \<lparr>i_id = ''X1'', i_chat = plain_jid ''a'' DefaultUserServer, i_sender = plain_jid ''a'' DefaultUserServer,
      i_is_from_me = False, i_is_group = False, i_timestamp = 20, i_push_name = ''Ana''\<rparr>"

definition edit_plain :: msg where
  "edit_plain = Msg [Protocol MessageEdit (Some ''m1'') (Some (Msg [Conversation ''new'']))]"

definition edit_event :: message_event where
  "edit_event = \<lparr>ev_info = plain_info, ev_message = Some edit_plain\<rparr>"

definition secret_event :: message_event where
  "secret_event = \<lparr>ev_info = plain_info,
     ev_message = Some (Msg [SecretEncrypted SecretMessageEdit (Some ''m1'')])\<rparr>"

lemmas unwrap_simps = unwrapMessage_def numeral_eq_Suc inner_def container_order_def getter_defs

lemma wrapped_doc_inner: "inner (Some wrapped_doc) = Some caption_doc" "inner (Some caption_doc) = None"
  by (simp_all add: wrapped_doc_def caption_doc_def unwrap_simps)

theorem wrapping_is_transparent_witness:
  "classifyMessage (Some wrapped_doc) = classifyMessage (Some caption_doc) \<and>
   fst (classifyMessage (Some caption_doc)) = ''document''"
proof -
  have "depth (Some caption_doc) < 8" by (simp add: depth.simps wrapped_doc_inner)
  moreover have "fst (classifyMessage (Some caption_doc)) = ''document''" by code_simp
  ultimately show ?thesis
    using wrapping_is_transparent [of wrapped_doc caption_doc plain_info] wrapped_doc_inner by simp
qed

lemma edit_event_action: "resolveAction edit_event None = ActionEdit ''m1'' (Msg [Conversation ''new''])"
  by (simp add: edit_event_def edit_plain_def resolveAction_def editAction_def unwrap_simps)

theorem actions_name_a_target_witness:
  "''m1'' \<noteq> '''' \<and> resolveAction edit_event None = ActionEdit ''m1'' (Msg [Conversation ''new''])"
  using actions_name_a_target [of edit_event None] edit_event_action by blast

theorem encrypted_edit_as_plain_witness:
  "resolveAction secret_event (Some (\<lambda>_. Inr (Some edit_plain))) =
   ActionEdit ''m1'' (Msg [Conversation ''new''])"
proof -
  have "resolveAction secret_event (Some (\<lambda>_. Inr (Some edit_plain))) =
      resolveAction (secret_event\<lparr>ev_message := Some edit_plain\<rparr>) None"
    using encrypted_edit_as_plain [of secret_event "Msg [SecretEncrypted SecretMessageEdit (Some ''m1'')]"
        "Some ''m1''" "\<lambda>_. Inr (Some edit_plain)" "Some edit_plain" "Some ''m1''"
        "Some (Msg [Conversation ''new''])"]
    by (simp add: secret_event_def edit_plain_def unwrap_simps)
  moreover have "secret_event\<lparr>ev_message := Some edit_plain\<rparr> = edit_event"
    by (simp add: secret_event_def edit_event_def)
  ultimately show ?thesis by (simp add: edit_event_action)
qed

lemma caption_doc_class:
  "classifyMessage (Some caption_doc) = (''document'', ''hi'',
     Some (no_media\<lparr>md_downloadable := Some (no_content\<lparr>k_text := Some ''hi'', k_file_name := Some ''a.pdf''\<rparr>),
       md_filename := ''a.pdf''\<rparr>))"
  by (simp add: classifyMessage_def unwrapMessage_leaf_id wrapped_doc_inner)
    (simp add: caption_doc_def media_rules_def content_rule_def conversation_rule_def getter_defs
      media_with_thumbnail_def media_of_def no_media_def no_content_def)

theorem classified_types_witness:
  "fst (classifyMessage (Some caption_doc)) \<in>
     {''image'', ''video'', ''audio'', ''document'', ''sticker'', ''location''} \<and>
   snd (snd (classifyMessage (Some caption_doc))) \<noteq> None"
  using classified_types [OF caption_doc_class] by (simp add: caption_doc_class)

theorem preview_bounded_witness: "length (runes (previewFor ''text'' ''hello'' None)) \<le> 161"
  by (rule preview_bounded) simp

definition quoted_sample :: quoted_row where
  "quoted_sample = \<lparr>q_sender_jid = Some ''a'', q_from_me = False, q_message_type = ''text'',
     q_body = Some ''hi'', q_media_filename = None, q_revoked = False\<rparr>"

theorem quote_round_trip_witness:
  "quoteFromContext (contextInfoOf (attachQuote (Some caption_doc)
      (Some (buildQuoteContext sample_wa ''m1'' (plain_jid ''a'' DefaultUserServer) quoted_sample)))) =
   \<lparr>qi_message_id = Some ''m1'', qi_preview = Some ''hi'', qi_sender_jid = Some ''a''\<rparr>"
proof -
  have "nullString (truncateRunes (quoteLabel ''text'' ''hi'' '''') quotedPreviewMax) = Some ''hi''"
    by code_simp
  then show ?thesis
    using quote_round_trip [of caption_doc _ Document _ None "''m1''" sample_wa
        "plain_jid ''a'' DefaultUserServer" quoted_sample]
    by (auto simp: caption_doc_def quotable_kinds_def sample_wa_def plain_jid_def maxJIDLen_def
        quoted_sample_def)
qed

end
