(* ===== verification/InboundLaws.thy ===== *)
theory InboundLaws
  imports Session StoreFrames MessageLaws ChatLaws ContentLaws
begin

text \<open>
  What the event handlers guarantee: the log of messages only grows whatever the database
  answers, a history sync never touches an unread counter, an ordinary message is stored
  once however often it is delivered, an edit rewrites its target in place, and a receipt
  either marks own messages or lowers one counter.
\<close>

section \<open>What no handler can break\<close>

text \<open>
  A relation that the methods used for edits, deletes, reactions and history rows keep, and
  then every handler.
\<close>

locale message_frame = store_frame R for R :: "store \<Rightarrow> store \<Rightarrow> bool" +
  assumes R_insert: "R s (snd (InsertMessage m s))"
    and R_locate: "R s (snd (LocateMessage i cs s))"
    and R_edit: "R s (snd (ApplyEdit cs i fm body s))"
    and R_revoke: "R s (snd (RevokeMessage cs i fm g s))"
    and R_reaction: "R s (snd (UpsertReaction r s))"
    and R_tail: "R s (snd (RecomputeChatTail j tailPreview s))"
begin

lemma R_recomputeTail: "R s (recomputeTail j s)"
  unfolding recomputeTail_def by (rule frame_storeRetry) (rule R_tail)

lemma R_storeEditAsRow: "R s (storeEditAsRow w i j body s)"
proof -
  obtain x s1 where r: "storeRetry (InsertMessage (edit_as_row w i j body)) s = (x, s1)"
    by (rule prod.exhaust)
  have "R s (snd (storeRetry (InsertMessage (edit_as_row w i j body)) s))"
    by (rule frame_storeRetry) (rule R_insert)
  then have 1: "R s s1" by (simp add: r)
  show ?thesis
    using 1 R_trans [OF 1 R_recomputeTail] by (cases x) (simp_all add: storeEditAsRow_def r)
qed

lemma R_retry_located: "(\<And>s. R s (snd (run s))) \<Longrightarrow> R s (snd (retry_located run s))"
  unfolding retry_located_def by (rule frame_retry)

lemma R_apply_edit: "R s (apply_edit w i chats t e s)"
proof -
  obtain ref found err s1 where r: "retry_located (ApplyEdit chats t (i_is_from_me i)
      (nullString (fst (snd (classifyMessage (Some e)))))) s = ((ref, found, err), s1)"
    by (metis prod.exhaust)
  have "R s (snd (retry_located (ApplyEdit chats t (i_is_from_me i)
      (nullString (fst (snd (classifyMessage (Some e)))))) s))"
    by (rule R_retry_located) (rule R_edit)
  then have 1: "R s s1" by (simp add: r)
  show ?thesis
    using R_trans [OF 1 R_recomputeTail] R_trans [OF 1 R_storeEditAsRow] 1
    by (simp add: apply_edit_def r split: option.split)
qed

lemma R_apply_revoke: "R s (snd (apply_revoke i chats t s))"
proof -
  obtain ref found err s1 where r: "retry_located (RevokeMessage chats t (i_is_from_me i)
      (i_is_group i)) s = ((ref, found, err), s1)"
    by (metis prod.exhaust)
  have "R s (snd (retry_located (RevokeMessage chats t (i_is_from_me i) (i_is_group i)) s))"
    by (rule R_retry_located) (rule R_revoke)
  then have 1: "R s s1" by (simp add: r)
  show ?thesis
    using R_trans [OF 1 R_recomputeTail] 1 by (simp add: apply_revoke_def r split: option.split)
qed

lemma R_applyProtocolAction: "R s (snd (applyProtocolAction w i chats act s))"
  by (auto simp: applyProtocolAction_def R_refl R_apply_edit R_apply_revoke split: proto_action.split)

lemma R_storeReaction: "R s (storeReaction w i chats rm s)"
proof (cases "null_str (rm_key_id rm) = ''''")
  case True
  then show ?thesis by (simp add: storeReaction_def R_refl)
next
  case False
  obtain ref found err s1 where l: "LocateMessage (r_target_id (reactionRecord w i (hd chats) rm)) chats s
      = ((ref, found, err), s1)" by (metis prod.exhaust)
  have 1: "R s s1" using R_locate [of s "r_target_id (reactionRecord w i (hd chats) rm)" chats] by (simp add: l)
  show ?thesis using False R_reaction R_trans [OF 1 R_reaction] by (simp add: storeReaction_def Let_def l)
qed

lemma R_history_store: "R (st b) (st (snd (history_store w j evt b)))"
proof -
  have ins: "R (st b) s1" if "InsertMessage m (st b) = (x, s1)" for m x s1
    using R_insert [of "st b" m] that by simp
  show ?thesis
    by (auto simp: history_store_def Let_def R_refl R_reaction
        split: prod.split sum.split option.split dest: ins)
qed

lemma R_history_message: "R (st b) (st (snd (history_message w j chats g p b)))"
proof -
  have rev: "R (st b) s1" if "RevokeMessage chats t fm g (st b) = (x, s1)" for t fm x s1
    using R_revoke [of "st b" chats t fm g] that by simp
  have store: "R s1 (st (snd (history_store w j evt (b\<lparr>st := s1\<rparr>))))" for evt s1
    using R_history_store [of "b\<lparr>st := s1\<rparr>"] by simp
  show ?thesis
    unfolding history_message_def
    by (auto simp: R_refl R_history_store split: option.split proto_action.split prod.split
        dest: rev intro: R_trans [OF rev store])
qed

lemma R_history_messages: "R (st b) (st (snd (history_messages w j chats g ps b)))"
proof (induction ps arbitrary: b)
  case Nil
  show ?case by (simp add: R_refl)
next
  case (Cons p ps)
  obtain ins b1 where h: "history_message w j chats g p b = (ins, b1)" by (rule prod.exhaust)
  have "R (st b) (st b1)" using R_history_message [of b w j chats g p] h by simp
  from R_trans [OF this Cons.IH] show ?case by (simp add: h split_beta)
qed

end

text \<open>With the chat upsert of a history sync kept too, so is the whole sync.\<close>

locale history_frame = message_frame R for R :: "store \<Rightarrow> store \<Rightarrow> bool" +
  assumes R_history_upsert:
    "\<not> ch_last_message_from_me c \<Longrightarrow> \<not> ch_increment_unread c \<Longrightarrow> R s (snd (UpsertChat c s))"
begin

lemma R_history_conversation: "R (st b) (st (history_conversation w cv b))"
proof (cases "parse_jid w (cv_id cv)")
  case (Inl e)
  then show ?thesis by (simp add: history_conversation_def R_refl)
next
  case (Inr raw)
  define j where "j = canonicalChatJID w (trace (st b)) raw"
  obtain x s1 where u: "UpsertChat (chat_of_conversation w (trace (st b)) j (cv_name cv)) (st b) = (x, s1)"
    by (rule prod.exhaust)
  have 1: "R (st b) s1"
    using R_history_upsert [of "chat_of_conversation w (trace (st b)) j (cv_name cv)" "st b"] u
    by (simp add: chat_of_conversation_def)
  obtain n b2 where h: "history_messages w (jid_string w j) (chatAliases w (trace (st b)) raw j)
      (j_server j = GroupServer) (cv_messages cv) (b\<lparr>st := s1\<rparr>) = (n, b2)" by (rule prod.exhaust)
  have 2: "R s1 (st b2)" using R_history_messages [of "b\<lparr>st := s1\<rparr>"] h by (metis bridge.select_convs(1)
    bridge.update_convs(1) bridge.surjective snd_conv)
  have 3: "R (st b2) (snd (RecomputeChatTail (jid_string w j) tailPreview (st b2)))" by (rule R_tail)
  show ?thesis
    using R_trans [OF 1 2] R_trans [OF R_trans [OF 1 2] 3] 1
    by (cases x) (auto simp: history_conversation_def Inr j_def [symmetric] u h R_refl Let_def)
qed

lemma R_handleHistorySync: "R (st b) (st (handleHistorySync w n convs b))"
proof -
  have "R (st b) (st (foldl (\<lambda>b cv. history_conversation w cv b) b cvs))" for cvs
  proof (induction cvs arbitrary: b)
    case (Cons cv cvs)
    show ?case using R_trans [OF R_history_conversation Cons.IH] by simp
  qed (simp add: R_refl)
  then show ?thesis by (simp add: handleHistorySync_def)
qed

end

text \<open>With every method an event can call kept, so is every event.\<close>

locale event_frame = message_frame R for R :: "store \<Rightarrow> store \<Rightarrow> bool" +
  assumes R_upsert: "R s (snd (UpsertChat c s))"
    and R_typing: "R s (snd (SetPeerTyping j until s))"
    and R_clear_typing: "R s (snd (ClearAllPeerTyping s))"
    and R_unread: "R s (snd (ClearUnreadUpTo j ids s))"
    and R_status: "R s (snd (MarkMessagesStatus ids n s))"
    and R_heartbeat: "R s (snd (Heartbeat s))"
    and R_lost: "R s (snd (SetSessionLost now reason s))"
    and R_online: "R s (emit WaOnline s)"

sublocale event_frame \<subseteq> history_frame
  by unfold_locales (rule R_upsert)

context event_frame
begin

lemma R_store_message: "R (st b) (st (store_message w evt j c b))"
proof -
  obtain t body m where c: "c = (t, body, m)" by (metis prod.exhaust)
  have up: "R (st b) s1" if "UpsertChat ch (st b) = (x, s1)" for ch x s1
    using R_upsert [of "st b" ch] that by simp
  show ?thesis
    by (auto simp: store_message_def c Let_def split: prod.split sum.split
        dest: up intro: R_trans [OF up R_insert])
qed

lemma R_handleMessage: "R (st b) (st (handleMessage w evt b))"
proof -
  define chats where "chats = chatAliases w (trace (st b)) (i_chat (ev_info evt))
    (canonicalChatJID w (trace (st b)) (i_chat (ev_info evt)))"
  obtain hd s1 where a: "applyProtocolAction w (ev_info evt) chats
      (resolveAction evt (Some (decrypt_secret w (trace (st b))))) (st b) = (hd, s1)"
    by (rule prod.exhaust)
  have 1: "R (st b) s1" using R_applyProtocolAction a by (metis snd_conv)
  have 2: "R s1 (st (store_message w evt j c (b\<lparr>st := s1\<rparr>)))" for j c
    using R_store_message [of "b\<lparr>st := s1\<rparr>"] by simp
  show ?thesis
    using R_trans [OF 1 2] R_trans [OF 1 R_storeReaction] 1
    by (auto simp: handleMessage_def Let_def R_refl chats_def [symmetric] a
        split: bool.split option.split sum.split)
qed

lemma R_send_online: "R (st b) (st (send_online w b))"
  by (simp add: send_online_def R_refl R_online)

lemma R_markOnline: "R (st b) (st (markOnline w b))"
  using R_send_online [of "b\<lparr>online_loops := Suc (online_loops b)\<rparr>" w] by (simp add: markOnline_def)

lemma R_online_tick: "R (st b) (st (online_tick w b))"
  by (simp add: online_tick_def R_refl R_send_online)

lemma R_handleEvent: "R (st b) (st (handleEvent w e b))"
proof -
  have lost: "R (st b) (st (recordSessionLost r b))" for r b
    by (simp add: recordSessionLost_def R_lost)
  have fatal: "st (signalFatal r b) = st b" for r b
    by (simp add: signalFatal_def split: option.split)
  have beat: "R (st b) (st (heartbeat b))" for b by (simp add: heartbeat_def R_heartbeat)
  have "R (st b) (st (heartbeat (markOnline w b)))" by (rule R_trans [OF R_markOnline beat])
  then show ?thesis
    by (cases e)
      (auto simp: handleEvent_def Let_def R_refl lost fatal R_handleMessage R_handleHistorySync
        handleChatPresence_def handleReceipt_def R_typing R_unread R_status
        split: option.split intro: R_trans [OF _ R_clear_typing])
qed

lemma R_events: "R (st b) (st (foldl (\<lambda>b e. handleEvent w e b) b es))"
proof (induction es arbitrary: b)
  case (Cons e es)
  show ?case using R_trans [OF R_handleEvent Cons.IH] by simp
qed (simp add: R_refl)

end

section \<open>The interpretations\<close>

text \<open>The queues the web app writes: no event touches them.\<close>

definition queues :: "store \<Rightarrow> outbound_row list \<times> typing_row list" where
  "queues s = (wa_outbound s, wa_typing_outbound s)"

interpretation queues_m: beside_messages queues
  by unfold_locales (simp_all add: queues_def)

interpretation queues_c: beside_chats queues
  by unfold_locales (simp_all add: queues_def)

lemma set_pairing_views: "wa_messages (set_pairing f s) = wa_messages s" "queues (set_pairing f s) = queues s"
  by (simp_all add: set_pairing_def queues_def)

lemma pairing_writes:
  "wa_messages (snd (Heartbeat s)) = wa_messages s" "queues (snd (Heartbeat s)) = queues s"
  "wa_messages (snd (SetSessionLost now r s)) = wa_messages s"
  "queues (snd (SetSessionLost now r s)) = queues s"
  unfolding Heartbeat_def SetSessionLost_def
  by (auto simp: set_pairing_views intro!: messages.frame_Fallback messages.frame_exec
      queues_m.frame_Fallback queues_m.frame_exec)

interpretation safe_events: event_frame evolves
proof unfold_locales
  fix s :: store and c m i cs fm body g r j until ids n now reason
  show "evolves s (snd (ApplyEdit cs i fm body s))" by (rule evolves_ApplyEdit)
  show "evolves s (snd (RevokeMessage cs i fm g s))" by (rule evolves_RevokeMessage)
  show "evolves s (snd (UpsertReaction r s))" by (rule evolves_UpsertReaction)
  show "evolves s (snd (RecomputeChatTail j tailPreview s))" by (rule evolves_RecomputeChatTail)
  show "evolves s (snd (UpsertChat c s))" by (rule evolves_UpsertChat)
  show "evolves s (snd (SetPeerTyping j until s))" by (rule evolves_SetPeerTyping)
  show "evolves s (snd (ClearAllPeerTyping s))" by (rule evolves_ClearAllPeerTyping)
  show "evolves s (snd (ClearUnreadUpTo j ids s))" by (rule evolves_ClearUnreadUpTo)
  show "evolves s (snd (MarkMessagesStatus ids n s))" by (rule evolves_MarkMessagesStatus)
  show "evolves s (snd (Heartbeat s))" by (rule evolves_Heartbeat)
  show "evolves s (snd (SetSessionLost now reason s))" by (rule evolves_SetSessionLost)
qed simp_all

interpretation log_events: event_frame log_grows
proof unfold_locales
  fix s :: store and c m i cs fm body g r j until ids n now reason
  show "log_grows s (snd (InsertMessage m s))" by (rule log_InsertMessage)
  show "log_grows s (snd (LocateMessage i cs s))" by (rule log_LocateMessage)
  show "log_grows s (snd (ApplyEdit cs i fm body s))" by (rule log_ApplyEdit)
  show "log_grows s (snd (RevokeMessage cs i fm g s))" by (rule log_RevokeMessage)
  show "log_grows s (snd (UpsertReaction r s))" by (rule log_UpsertReaction)
  show "log_grows s (snd (MarkMessagesStatus ids n s))" by (rule log_MarkMessagesStatus)
qed (rule log_same_messages, simp add: messages.view_chat_methods pairing_writes)+

interpretation queue_events: event_frame "\<lambda>s s'. queues s' = queues s"
  by unfold_locales
    (simp_all add: queues_m.view_message_methods queues_c.view_chat_methods pairing_writes,
      simp add: queues_def)

interpretation counter_history: history_frame "\<lambda>s s'. counter_of s' = counter_of s"
  by unfold_locales
    (simp_all add: counter.view_message_methods counter_RecomputeChatTail counter_UpsertChat)

text \<open>The counters with the chats that have one, and counters that only go down.\<close>

definition row_counts :: "store \<Rightarrow> string \<Rightarrow> int option" where
  "row_counts s j = map_option c_unread_count (row_by c_jid j (wa_chats s))"

interpretation counts: beside_messages row_counts
  by unfold_locales (simp_all add: row_counts_def fun_eq_iff)

lemma row_counts_tail: "row_counts (snd (RecomputeChatTail j pv s)) = row_counts s"
proof -
  have "row_counts (set_chats (set_tail j pv t) s) = row_counts s" for t s
    by (simp add: row_counts_def fun_eq_iff set_tail_def row_by_update_where option.map_comp
        comp_def if_distrib [of c_unread_count] cong: if_cong)
  then show ?thesis
    by (auto simp: RecomputeChatTail_def read_tail_def scan_tail_def split: sum.split
        intro!: counts.frame_case_prod counts.frame_exec counts.frame_Fallback counts.frame_selects)
qed

interpretation counts_events: message_frame "\<lambda>s s'. row_counts s' = row_counts s"
  by unfold_locales (simp_all add: counts.view_message_methods row_counts_tail)

interpretation lowering: store_frame "\<lambda>s s'. \<forall>j. counter_of s' j \<le> counter_of s j"
  by unfold_locales (auto intro: order_trans simp: counter_of_def)

text \<open>Any sequence of WhatsApp events only adds messages, leaves the queues of the web app alone, never turns a feature back on and keeps the tables well-formed.\<close>

theorem events_only_add:
  "let s = st b; s' = st (foldl (\<lambda>b e. handleEvent w e b) b es) in
     prefix (map msg_key (wa_messages s)) (map msg_key (wa_messages s')) \<and>
     wa_outbound s' = wa_outbound s \<and> wa_typing_outbound s' = wa_typing_outbound s \<and>
     off s \<subseteq> off s' \<and> (tables_ok s \<longrightarrow> tables_ok s')"
proof -
  let ?b' = "foldl (\<lambda>b e. handleEvent w e b) b es"
  have "evolves (st b) (st ?b')" by (rule safe_events.R_events)
  moreover have "log_grows (st b) (st ?b')" by (rule log_events.R_events)
  moreover have "queues (st ?b') = queues (st b)" by (rule queue_events.R_events)
  ultimately show ?thesis by (simp add: evolves_def log_grows_def queues_def)
qed

text \<open>C24: A history sync leaves the unread counter of every chat as it was.\<close>

theorem history_keeps_counters:
  "(case row_by c_jid j (wa_chats (st (handleHistorySync w n convs b))) of
      None \<Rightarrow> 0 | Some r \<Rightarrow> c_unread_count r) =
   (case row_by c_jid j (wa_chats (st b)) of None \<Rightarrow> 0 | Some r \<Rightarrow> c_unread_count r)"
  using counter_history.R_handleHistorySync [of w n convs b]
  by (simp add: counter_of_def fun_eq_iff)

section \<open>An ordinary message\<close>

text \<open>A message that adds a row: no edit or delete, no reaction, nothing hidden.\<close>

definition ordinary :: "wa \<Rightarrow> event list \<Rightarrow> message_event \<Rightarrow> bool" where
  "ordinary w h evt \<longleftrightarrow>
     \<not> isSkippedChat (i_chat (ev_info evt)) \<and>
     resolveAction evt (Some (decrypt_secret w h)) = ActionNone \<and>
     reactionOf evt (Some (decrypt_reaction w h)) = None \<and>
     fst (classifyMessage (ev_message evt)) \<noteq> ''system''"

lemma handle_ordinary:
  assumes "ordinary w (trace (st b)) evt"
  shows "handleMessage w evt b = store_message w evt
    (canonicalChatJID w (trace (st b)) (i_chat (ev_info evt))) (classifyMessage (ev_message evt)) b"
  using assms by (simp add: handleMessage_def Let_def ordinary_def applyProtocolAction_def)

text \<open>On a database that answers, the chat is upserted and the row inserted behind it.\<close>

lemma store_message_quiet:
  assumes "replies (st b) = []"
  shows "\<exists>u im. store_message w evt j c b =
    b\<lparr>files := u,
      st := snd (InsertMessage (row_of_message (ev_info evt) (jid_string w (i_sender (ev_info evt)))
          (jid_string w j) c (quoteFromContext (contextInfoOf (ev_message evt))) im)
        (set_chats (upsert_chat_row (chat_of_message w (trace (st b)) (ev_info evt) j
            (previewFor (fst c) (fst (snd c)) (snd (snd c)))) (utc_now (st b)))
          (sent_off ''INSERT wa_chats'' (st b))))\<rparr>"
proof -
  obtain t body m where c: "c = (t, body, m)" by (metis prod.exhaust)
  obtain im u where r: "receive_media w (trace (st b)) t m (files b) = (im, u)" by (rule prod.exhaust)
  show ?thesis
    using assms
    by (intro exI [of _ u] exI [of _ im]) (simp add: store_message_def c Let_def r UpsertChat_quiet)
qed

lemma row_of_message_fields [simp]:
  "m_id (row_of_message i s j c q im) = i_id i" "m_chat_jid (row_of_message i s j c q im) = j"
  "m_from_me (row_of_message i s j c q im) = i_is_from_me i"
  "m_timestamp (row_of_message i s j c q im) = i_timestamp i"
  "m_message_type (row_of_message i s j c q im) = fst c"
  "m_body (row_of_message i s j c q im) = nullString (fst (snd c))"
  "m_sender_jid (row_of_message i s j c q im) = nullString s"
  "m_status (row_of_message i s j c q im) = Some (defaultStatus (i_is_from_me i))"
  by (simp_all add: row_of_message_def split: prod.split)

text \<open>The state after an ordinary message on a database that answers.\<close>

lemma handle_ordinary_quiet:
  assumes "replies (st b) = []" "ordinary w (trace (st b)) evt"
  defines "j \<equiv> jid_string w (canonicalChatJID w (trace (st b)) (i_chat (ev_info evt)))"
  shows "(\<exists>m. m_id m = i_id (ev_info evt) \<and> m_chat_jid m = j \<and>
        m_from_me m = i_is_from_me (ev_info evt) \<and> m_timestamp m = i_timestamp (ev_info evt) \<and>
        m_message_type m = fst (classifyMessage (ev_message evt)) \<and>
        m_body m = nullString (fst (snd (classifyMessage (ev_message evt)))) \<and>
        wa_messages (st (handleMessage w evt b)) =
          (if i_id (ev_info evt) \<in> m_id ` set (wa_messages (st b)) then wa_messages (st b)
           else wa_messages (st b) @ [m])) \<and>
    counter_of (st (handleMessage w evt b)) =
      (counter_of (st b))(j := if i_is_from_me (ev_info evt) then 0 else counter_of (st b) j + 1) \<and>
    replies (st (handleMessage w evt b)) = [] \<and>
    (\<exists>r. row_by c_jid j (wa_chats (st (handleMessage w evt b))) = Some r \<and>
       c_last_message_at r = Some (i_timestamp (ev_info evt)) \<and>
       c_last_message_from_me r = i_is_from_me (ev_info evt))"
proof -
  let ?i = "ev_info evt" and ?c = "classifyMessage (ev_message evt)"
  let ?cj = "canonicalChatJID w (trace (st b)) (i_chat (ev_info evt))"
  define ch where "ch = chat_of_message w (trace (st b)) ?i ?cj (previewFor (fst ?c) (fst (snd ?c)) (snd (snd ?c)))"
  define s1 where "s1 = set_chats (upsert_chat_row ch (utc_now (st b))) (sent_off ''INSERT wa_chats'' (st b))"
  obtain u im where h: "handleMessage w evt b =
      b\<lparr>files := u, st := snd (InsertMessage (row_of_message ?i (jid_string w (i_sender ?i)) j ?c
        (quoteFromContext (contextInfoOf (ev_message evt))) im) s1)\<rparr>"
    using store_message_quiet [OF assms(1), of w evt ?cj ?c] handle_ordinary [OF assms(2)]
    by (auto simp: ch_def s1_def j_def)
  define m where "m = row_of_message ?i (jid_string w (i_sender ?i)) j ?c
        (quoteFromContext (contextInfoOf (ev_message evt))) im"
  have q: "replies s1 = []" using assms(1) by (simp add: s1_def)
  have j: "ch_jid ch = j" by (simp add: ch_def chat_of_message_def j_def)
  have here: "j \<in> c_jid ` set (wa_chats s1)" using upserted_jid [of ch] by (simp add: s1_def j)
  have msgs: "wa_messages (st (handleMessage w evt b)) = inserted (kept s1 m) s1"
    using InsertMessage_quiet [OF q, of m] by (simp add: h m_def)
  have chats: "wa_chats (st (handleMessage w evt b)) = upsert_chat_row ch (utc_now (st b)) (wa_chats (st b))"
    using chats.view_InsertMessage [of m s1] by (simp add: h m_def s1_def)
  have row: "row_by c_jid x (wa_chats (st (handleMessage w evt b))) =
    (if x = j then Some (case row_by c_jid x (wa_chats (st b)) of
        None \<Rightarrow> new_chat_row ch (utc_now (st b)) | Some r \<Rightarrow> merge_chat_row ch (utc_now (st b)) r)
     else row_by c_jid x (wa_chats (st b)))" for x
    by (simp add: chats row_by_upsert j)
  have cnt: "counter_of (st (handleMessage w evt b)) =
      (counter_of (st b))(j := if i_is_from_me ?i then 0 else counter_of (st b) j + 1)"
    by (auto simp: fun_eq_iff counter_of_def row ch_def chat_of_message_def new_chat_row_def
        merge_chat_row_def split: option.split)
  have tail: "\<exists>r. row_by c_jid j (wa_chats (st (handleMessage w evt b))) = Some r \<and>
      c_last_message_at r = Some (i_timestamp ?i) \<and> c_last_message_from_me r = i_is_from_me ?i"
    by (auto simp: row ch_def chat_of_message_def new_chat_row_def merge_chat_row_def split: option.split)
  have rep: "replies (st (handleMessage w evt b)) = []"
    using insert_op.run_quiet [OF q, of m] by (simp add: h m_def)
  have add: "wa_messages (st (handleMessage w evt b)) =
      (if i_id ?i \<in> m_id ` set (wa_messages (st b)) then wa_messages (st b)
       else wa_messages (st b) @ [stored (kept s1 m)])"
    using here by (simp add: msgs inserted_def m_def) (simp add: s1_def)
  show ?thesis
    using add cnt tail rep by (intro conjI exI [of _ "stored (kept s1 m)"]) (simp_all add: m_def)
qed

text \<open>C8: An ordinary message is stored once, under its canonical chat with the classified type and body, its chat shows its time, and a second delivery adds no row.\<close>

theorem message_stored_once:
  assumes "replies (st b) = []" "\<And>h. ordinary w h evt" "i_id (ev_info evt) \<notin> m_id ` set (wa_messages (st b))"
  shows "\<exists>m r. wa_messages (st (handleMessage w evt b)) = wa_messages (st b) @ [m] \<and>
    m_id m = i_id (ev_info evt) \<and>
    m_chat_jid m = jid_string w (canonicalChatJID w (trace (st b)) (i_chat (ev_info evt))) \<and>
    m_message_type m = fst (classifyMessage (ev_message evt)) \<and>
    m_body m = nullString (fst (snd (classifyMessage (ev_message evt)))) \<and>
    m_timestamp m = i_timestamp (ev_info evt) \<and>
    row_by c_jid (m_chat_jid m) (wa_chats (st (handleMessage w evt b))) = Some r \<and>
    c_last_message_at r = Some (i_timestamp (ev_info evt)) \<and>
    wa_messages (st (handleMessage w evt (handleMessage w evt b))) = wa_messages (st (handleMessage w evt b))"
proof -
  note one = handle_ordinary_quiet [OF assms(1) assms(2)]
  obtain m where m: "m_id m = i_id (ev_info evt)"
      "m_chat_jid m = jid_string w (canonicalChatJID w (trace (st b)) (i_chat (ev_info evt)))"
      "m_timestamp m = i_timestamp (ev_info evt)"
      "m_message_type m = fst (classifyMessage (ev_message evt))"
      "m_body m = nullString (fst (snd (classifyMessage (ev_message evt))))"
      "wa_messages (st (handleMessage w evt b)) = wa_messages (st b) @ [m]"
    using conjunct1 [OF one] assms(3) by auto
  have "i_id (ev_info evt) \<in> m_id ` set (wa_messages (st (handleMessage w evt b)))" by (simp add: m)
  moreover have "replies (st (handleMessage w evt b)) = []" using one by simp
  ultimately have "wa_messages (st (handleMessage w evt (handleMessage w evt b))) =
      wa_messages (st (handleMessage w evt b))"
    using handle_ordinary_quiet [of "handleMessage w evt b", OF _ assms(2)] by auto
  moreover obtain r where "row_by c_jid (m_chat_jid m) (wa_chats (st (handleMessage w evt b))) = Some r"
      "c_last_message_at r = Some (i_timestamp (ev_info evt))"
    using one m(2) by auto
  ultimately show ?thesis using m by blast
qed

text \<open>
  The counter counts deliveries: the upsert of the chat comes before the insertion that
  would tell a duplicate.
\<close>

text \<open>C33: An incoming message delivered twice adds two to the unread counter and at most one row.\<close>

theorem redelivery_counts_again:
  assumes "replies (st b) = []" "\<And>h. ordinary w h evt" "\<not> i_is_from_me (ev_info evt)"
    and "\<And>h. canonicalChatJID w h (i_chat (ev_info evt)) = j"
  shows "counter_of (st (handleMessage w evt (handleMessage w evt b))) (jid_string w j) =
      counter_of (st b) (jid_string w j) + 2 \<and>
    length (wa_messages (st (handleMessage w evt (handleMessage w evt b)))) \<le>
      length (wa_messages (st b)) + 1"
proof -
  let ?b1 = "handleMessage w evt b"
  have one: "counter_of (st ?b1) (jid_string w j) = counter_of (st b) (jid_string w j) + 1"
    and q: "replies (st ?b1) = []"
    using handle_ordinary_quiet [OF assms(1,2)] assms(3,4) by simp_all
  have two: "counter_of (st (handleMessage w evt ?b1)) (jid_string w j) = counter_of (st ?b1) (jid_string w j) + 1"
    using handle_ordinary_quiet [OF q assms(2)] assms(3,4) by simp
  have len: "length (wa_messages (st (handleMessage w evt x))) \<le> length (wa_messages (st x)) + 1"
    "i_id (ev_info evt) \<in> m_id ` set (wa_messages (st (handleMessage w evt x)))"
    "i_id (ev_info evt) \<in> m_id ` set (wa_messages (st x)) \<Longrightarrow>
      wa_messages (st (handleMessage w evt x)) = wa_messages (st x)"
    if "replies (st x) = []" for x
    using conjunct1 [OF handle_ordinary_quiet [OF that assms(2)]] by auto
  show ?thesis using one two len(1,2) [OF assms(1)] len(3) [OF q] by simp
qed

section \<open>An edit\<close>

text \<open>C18: An edit event rewrites exactly the row of its target, keeps every unread counter and uploads nothing.\<close>

theorem edit_rewrites_in_place:
  assumes "replies (st b) = []" "edits_on (st b) edit_cols" "\<not> isSkippedChat (i_chat (ev_info evt))"
    and "resolveAction evt (Some (decrypt_secret w (trace (st b)))) = ActionEdit t e"
    and "located t (chatAliases w (trace (st b)) (i_chat (ev_info evt))
      (canonicalChatJID w (trace (st b)) (i_chat (ev_info evt)))) (wa_messages (st b)) = Some m"
    and "m_from_me m = i_is_from_me (ev_info evt)"
  shows "wa_messages (st (handleMessage w evt b)) =
      update_where (\<lambda>x. m_id x = t \<and> m_chat_jid x = m_chat_jid m)
        (edit_row (nullString (fst (snd (classifyMessage (Some e))))) (utc_now (st b)))
        (wa_messages (st b)) \<and>
    (\<forall>j. map_option c_unread_count (row_by c_jid j (wa_chats (st (handleMessage w evt b)))) =
      map_option c_unread_count (row_by c_jid j (wa_chats (st b)))) \<and>
    files (handleMessage w evt b) = files b"
proof -
  let ?i = "ev_info evt"
  let ?chats = "chatAliases w (trace (st b)) (i_chat ?i) (canonicalChatJID w (trace (st b)) (i_chat ?i))"
  let ?body = "nullString (fst (snd (classifyMessage (Some e))))"
  have h: "handleMessage w evt b = b\<lparr>st := apply_edit w ?i ?chats t e (st b)\<rparr>"
    using assms(3,4) by (simp add: handleMessage_def Let_def applyProtocolAction_def)
  obtain r s1 where a: "ApplyEdit ?chats t (i_is_from_me ?i) ?body (st b) = (r, s1)"
    by (rule prod.exhaust)
  have r: "r = (ref_of m, True, None)"
    and s1: "wa_messages s1 = update_where (\<lambda>x. m_id x = t \<and> m_chat_jid x = m_chat_jid m)
        (edit_row ?body (utc_now (st b))) (wa_messages (st b))"
    using ApplyEdit_quiet [OF assms(1), where t = t and chats = ?chats and fromMe = "i_is_from_me ?i" and b = ?body]
      assms(2,5,6) a by simp_all
  have "apply_edit w ?i ?chats t e (st b) = recomputeTail (m_chat_jid m) s1"
    by (simp add: apply_edit_def retry_located_def retryDelays_def a r located_err_def retry_done_def
        ref_of_def)
  moreover have "wa_messages (recomputeTail j s) = wa_messages s" for j s
    unfolding recomputeTail_def by (rule messages.frame_storeRetry) (rule messages.view_RecomputeChatTail)
  ultimately have msgs: "wa_messages (st (handleMessage w evt b)) = wa_messages s1" by (simp add: h)
  have "row_counts (apply_edit w ?i ?chats t e (st b)) = row_counts (st b)"
    by (rule counts_events.R_apply_edit)
  then show ?thesis using msgs s1 by (simp add: h row_counts_def fun_eq_iff)
qed

section \<open>A reaction from another device\<close>

lemma add_alias_mem: "x \<in> set out \<Longrightarrow> x \<in> set (add_alias w j out)"
  by (simp add: add_alias_def)

lemma add_alias_self: "\<not> is_empty w j \<Longrightarrow> j_user j \<noteq> '''' \<Longrightarrow> jid_string w j \<in> set (add_alias w j out)"
  by (simp add: add_alias_def)

text \<open>The record that the handlers pass to \<open>UpsertReaction\<close>.\<close>

definition event_reaction :: "wa \<Rightarrow> event list \<Rightarrow> message_info \<Rightarrow> string \<Rightarrow> reaction_message \<Rightarrow> reaction" where
  "event_reaction w h i chat rm =
     (reactionRecord w i chat rm)\<lparr>r_sender_aliases := senderAliases w h (i_sender i)\<rparr>"

text \<open>
  The form a reaction is stored under is among the aliases of every other reaction of the same
  address, whatever the devices, and of one under the counterpart that the LID table gives.
\<close>

theorem any_device_is_recognised:
  assumes "\<not> is_empty w (i_sender i)" "\<not> is_empty w (i_sender i')"
    and "to_non_ad w (i_sender i) = to_non_ad w (i_sender i') \<or>
      \<not> is_empty w (to_non_ad w (i_sender i)) \<and> j_user (to_non_ad w (i_sender i)) \<noteq> '''' \<and>
      (j_server (to_non_ad w (i_sender i')) = HiddenUserServer \<and>
         resolvePNForLID w h' (to_non_ad w (i_sender i')) = to_non_ad w (i_sender i) \<or>
       j_server (to_non_ad w (i_sender i')) = DefaultUserServer \<and>
         lid_for_pn w h' (to_non_ad w (i_sender i')) = Inr (to_non_ad w (i_sender i)))"
  shows "null_str (r_sender_jid (event_reaction w h i chat rm)) \<in>
    set (reaction_senders (event_reaction w h' i' chat' rm'))"
proof -
  have "jid_string w (to_non_ad w (i_sender i)) \<in> set (senderAliases w h' (i_sender i'))"
    using assms
    by (auto simp: senderAliases_def Let_def add_alias_mem add_alias_self split: sum.split)
  then show ?thesis
    using assms(1) by (auto simp: event_reaction_def reactionRecord_def senderNonAD_def reaction_senders_def)
qed

section \<open>Receipts\<close>

text \<open>A receipt changes messages or chats, never both, and raises no counter.\<close>

theorem receipts_are_separate:
  "(wa_messages (st (handleReceipt w r b)) = wa_messages (st b) \<or>
    wa_chats (st (handleReceipt w r b)) = wa_chats (st b)) \<and>
   counter_of (st (handleReceipt w r b)) j \<le> counter_of (st b) j \<and>
   (if isSelfRead r then wa_messages (st (handleReceipt w r b)) = wa_messages (st b)
    else wa_chats (st (handleReceipt w r b)) = wa_chats (st b))"
proof -
  have lower: "counter_of (snd (ClearUnreadUpTo c ids s)) j \<le> counter_of s j" for c ids s
  proof -
    have "\<forall>j. counter_of (set_chats (update_where (\<lambda>r. c_jid r = c \<and> 0 < c_unread_count r)
        (\<lambda>r. r\<lparr>c_unread_count := min (c_unread_count r) (f r)\<rparr>)) s) j \<le> counter_of s j" for f s
      by (auto simp: counter_of_def row_by_update_where split: option.split)
    then have "\<forall>j. counter_of (snd (ClearUnreadUpTo c ids s)) j \<le> counter_of s j"
      by (auto simp: ClearUnreadUpTo_def intro!: lowering.frame_exec)
    then show ?thesis by blast
  qed
  have "counter_of (snd (MarkMessagesStatus ids n s)) = counter_of s" for ids n s
    by (rule counter.view_MarkMessagesStatus)
  then show ?thesis
    by (auto simp: handleReceipt_def messages.view_ClearUnreadUpTo chats.view_MarkMessagesStatus lower
        split: option.split)
qed

section \<open>Concrete runs\<close>

definition hello_event :: message_event where
  "hello_event = \<lparr>ev_info = plain_info, ev_message = Some (Msg [Conversation ''hola''])\<rparr>"

lemma conversation_simps:
  "unwrapMessage (Some (Msg [Conversation t])) = Some (Msg [Conversation t])"
  "t \<noteq> '''' \<Longrightarrow> classifyMessage (Some (Msg [Conversation t])) = (''text'', t, None)"
  by (simp_all add: classifyMessage_def media_rules_def conversation_rule_def unwrap_simps)

lemma sample_canonical: "canonicalChatJID sample_wa h (plain_jid u DefaultUserServer) = plain_jid u DefaultUserServer"
  by (simp add: canonicalChatJID_def sample_wa_def)

lemma hello_ordinary: "ordinary sample_wa h hello_event"
  by (simp add: ordinary_def hello_event_def plain_info_def isSkippedChat_def plain_jid_def
      resolveAction_def reactionOf_def conversation_simps getter_defs)

theorem events_only_add_witness:
  "tables_ok (st (foldl (\<lambda>b e. handleEvent sample_wa e b) sample_bridge
     [Connected, MessageEvent hello_event, Disconnected]))"
proof -
  have "tables_ok (st sample_bridge)"
    by (simp add: sample_bridge_def queued_row_def sample_outbound_def tables_ok_def sample_defs)
  then show ?thesis
    using events_only_add [of sample_bridge sample_wa "[Connected, MessageEvent hello_event, Disconnected]"]
    unfolding Let_def by blast
qed

lemma sample_bridge_quiet: "replies (st sample_bridge) = []"
  by (simp add: sample_bridge_def sample_defs)

theorem message_stored_once_witness:
  "\<exists>m. wa_messages (st (handleMessage sample_wa hello_event sample_bridge)) =
      wa_messages sample_store @ [m] \<and> m_id m = ''X1'' \<and> m_body m = Some ''hola''"
  using message_stored_once [OF sample_bridge_quiet hello_ordinary]
  by (auto simp: hello_event_def plain_info_def conversation_simps sample_bridge_def sample_defs
      nullString_def)

theorem redelivery_counts_again_witness:
  "counter_of (st (handleMessage sample_wa hello_event (handleMessage sample_wa hello_event sample_bridge))) ''a'' = 4"
  using redelivery_counts_again [OF sample_bridge_quiet hello_ordinary, of "plain_jid ''a'' DefaultUserServer"]
  by (simp add: hello_event_def plain_info_def sample_canonical)
    (simp add: sample_wa_def plain_jid_def sample_bridge_def counter_of_def row_by_def sample_defs)

theorem edit_rewrites_in_place_witness:
  "map m_body (wa_messages (st (handleMessage sample_wa edit_event sample_bridge))) =
    [Some ''new'', Some ''hi'', Some ''hi'']"
proof -
  have "resolveAction edit_event (Some d) = ActionEdit ''m1'' (Msg [Conversation ''new''])" for d
    by (simp add: edit_event_def edit_plain_def resolveAction_def editAction_def unwrap_simps)
  moreover have "located ''m1'' (chatAliases sample_wa h (i_chat plain_info)
      (canonicalChatJID sample_wa h (i_chat plain_info))) (wa_messages (st sample_bridge)) =
      Some (sample_row ''m1'' False 8)" for h
    by (simp add: plain_info_def sample_canonical chatAliases_def add_alias_def resolvePNForLID_def)
      (simp add: sample_wa_def plain_jid_def located_def sample_bridge_def sample_defs)
  moreover have "edits_on (st sample_bridge) edit_cols"
    by (simp add: edits_on_def has_cols_def edit_cols_def sample_bridge_def sample_defs)
  moreover have "\<not> isSkippedChat (i_chat (ev_info edit_event))"
    "m_from_me (sample_row ''m1'' False 8) = i_is_from_me (ev_info edit_event)"
    by (simp_all add: edit_event_def plain_info_def plain_jid_def isSkippedChat_def sample_defs)
  moreover have "i_chat (ev_info edit_event) = i_chat plain_info" by (simp add: edit_event_def)
  ultimately have "wa_messages (st (handleMessage sample_wa edit_event sample_bridge)) =
      update_where (\<lambda>x. m_id x = ''m1'' \<and> m_chat_jid x = ''a'')
        (edit_row (Some ''new'') 1000) (wa_messages (st sample_bridge))"
    using edit_rewrites_in_place [OF sample_bridge_quiet, of edit_event sample_wa "''m1''"
        "Msg [Conversation ''new'']" "sample_row ''m1'' False 8"]
    by (simp add: conversation_simps nullString_def) (simp add: sample_bridge_def sample_defs)
  then show ?thesis
    by (simp add: update_where_def edit_row_def sample_bridge_def sample_defs)
qed

end
