(* ===== verification/SendLaws.thy ===== *)
theory SendLaws
  imports Outbound StoreFrames OutboundLaws InboundLaws
begin

text \<open>
  What the outbound loop guarantees: a row is sent at most once per turn and touches no other
  row, what the recipient reads is what the row says, a row that cannot be sent is failed
  under its own reason, one that keeps failing is given up after five attempts, a deleted
  text is never quoted, and a pin arrives where the web app put it.
\<close>

section \<open>What sending a row keeps\<close>

context store_frame
begin

lemma frame_GetQuotedRow: "R s (snd (GetQuotedRow c i s))"
proof -
  have scan: "R s (snd (scan_quoted c i e s))" for e s
    unfolding scan_quoted_def by (rule frame_selects)
  have "R s (snd (case scan_quoted c i e s of
      (Inr q, s1) \<Rightarrow> (Inr (Some q), s1) | (Inl e, s1) \<Rightarrow> (Inl e, s1)))" for e s
    using scan [of s e] by (auto split: prod.split sum.split)
  note cs = this
  show ?thesis
    unfolding GetQuotedRow_def
    by (auto intro!: frame_case_prod frame_Fallback cs R_refl split: sum.split)
qed

lemma frame_OutboundLocation: "R s (snd (OutboundLocation i s))"
  unfolding OutboundLocation_def by (auto intro!: frame_Fallback frame_selects R_refl)

end

text \<open>A relation that the methods the sender calls for the row \<open>oid\<close> keep.\<close>

locale outbound_frame = store_frame R for R :: "store \<Rightarrow> store \<Rightarrow> bool" +
  fixes oid :: int
  assumes R_insert: "R s (snd (InsertMessage m s))"
    and R_upsert: "R s (snd (UpsertChat c s))"
    and R_reaction: "R s (snd (UpsertReaction x s))"
    and R_update: "(\<And>now r. o_id (f now r) = o_id r) \<Longrightarrow> (\<And>now r. o_chat_jid (f now r) = o_chat_jid r) \<Longrightarrow>
      R s (snd (update_outbound oid f s))"
begin

lemma R_exec_update:
  assumes "\<And>now r. o_id (f now r) = o_id r" "\<And>now r. o_chat_jid (f now r) = o_chat_jid r"
  shows "R s (snd (exec n cols (update_outbound oid f) s))"
  using R_update [OF assms] by (rule frame_exec)

lemma R_fail: "R s (snd (FailOutbound oid n c d s))"
  unfolding FailOutbound_def Let_def
  by (rule frame_Fallback) (auto simp: failed_row_def intro!: R_exec_update)

lemma R_markAttempt: "R s (markAttempt oid n c m s)"
  by (auto simp: markAttempt_def Let_def attempted_row_def R_fail intro!: R_exec_update)

lemma R_refuse: "R s (markOutboundPermanentlyFailed oid c m s)"
  by (simp add: markOutboundPermanentlyFailed_def R_fail)

lemma R_stamp: "R s (snd (stamp_sent oid i s))"
proof -
  have "writes (\<lambda>s. set_outbound (update_where (\<lambda>r. o_id r = oid) (sent_row i (server_now s))) s) s =
      update_outbound oid (\<lambda>_. sent_row i (server_now s)) s" for s
    by (simp add: update_outbound_def writes_def)
  then show ?thesis
    unfolding stamp_sent_def
    by (intro frame_exec) (simp add: R_update sent_row_def)
qed

lemma R_findMessageRow: "R s (snd (findMessageRow r j s))"
proof -
  obtain x s1 where g: "GetQuotedRow (pr_chat_jid r) (null_str (pr_quoted_message_id r)) s = (x, s1)"
    by (rule prod.exhaust)
  have "R s s1" using frame_GetQuotedRow g by (metis snd_conv)
  then show ?thesis
    using R_trans [OF _ frame_GetQuotedRow]
    by (auto simp: findMessageRow_def Let_def g split: sum.split option.split)
qed

lemma R_quote_for_row: "R s (snd (quote_for_row w r chat j s))"
proof -
  obtain x s1 where g: "findMessageRow r j s = (x, s1)" by (rule prod.exhaust)
  have "R s s1" using R_findMessageRow g by (metis snd_conv)
  then show ?thesis
    by (auto simp: quote_for_row_def lookupQuote_def Let_def g R_refl split: sum.split option.split)
qed

lemma R_record_sent: "pr_id r = oid \<Longrightarrow> R s (record_sent w r j resp t u q p s)"
  unfolding record_sent_def using R_trans [OF R_trans [OF R_stamp R_insert] R_upsert] by simp

lemma R_build_row:
  assumes "pr_id r = oid"
  shows "R (st b) (st (snd (build_row w r b)))"
proof -
  have place: "R (st b) s1" if "OutboundLocation i (st b) = (x, s1)" for i x s1
    using frame_OutboundLocation that by (metis snd_conv)
  have "R (st b) (st (snd (fetch_and_build w r t n b)))" for t n
    by (simp add: fetch_and_build_def R_refl split: prod.split sum.split)
  then have "R (st b) (st (snd (buildOutboundMessage w r b)))"
    using assms
    by (auto simp: buildOutboundMessage_def permanent_failure_def Let_def R_refl R_refuse
        split: option.split)
  moreover have "R (st b) (st (snd (buildLocationMessage r b)))"
    using assms
    by (auto simp: buildLocationMessage_def permanent_failure_def Let_def R_refl R_refuse
        split: option.split prod.split sum.split dest: place)
  ultimately show ?thesis
    by (auto simp: build_row_def split: prod.split sum.split)
qed

end

text \<open>With the send itself kept too, so is a whole turn of the row.\<close>

locale sending_frame = outbound_frame R oid for R :: "store \<Rightarrow> store \<Rightarrow> bool" and oid +
  assumes R_emit: "R s (emit (WaSendRow oid j) s)"
begin

lemma R_send: "R s (snd (send_proto w oid j m s))"
  by (simp add: send_proto_def Let_def R_emit)

lemma R_sendReactionRow:
  assumes "pr_id r = oid"
  shows "R s (sendReactionRow w r chat j s)"
proof -
  have send: "R s (send_reaction_to w r chat j sender s)" for sender s
  proof -
    obtain x s1 where p: "send_proto w oid chat
        (build_reaction w chat sender (null_str (pr_quoted_message_id r)) (pr_body r)) s = (x, s1)"
      by (rule prod.exhaust)
    have "R s s1" using R_send p by (metis snd_conv)
    then show ?thesis
      using R_trans [OF _ R_markAttempt] R_trans [OF _ R_trans [OF R_stamp R_reaction]] assms
      by (auto simp: send_reaction_to_def p markOutboundAttempt_def split: sum.split)
  qed
  obtain x s1 where g: "findMessageRow r j s = (x, s1)" by (rule prod.exhaust)
  have 1: "R s s1" using R_findMessageRow g by (metis snd_conv)
  show ?thesis
    using R_trans [OF 1 R_markAttempt] R_trans [OF 1 R_refuse] R_trans [OF 1 send] assms
    by (auto simp: sendReactionRow_def Let_def g R_refuse markOutboundAttempt_def
        split: sum.split option.split)
qed

lemma R_build_and_send:
  assumes "pr_id r = oid"
  shows "R (st b) (st (build_and_send w r chat j q b))"
proof -
  obtain x b1 where g: "build_row w r b = (x, b1)" by (rule prod.exhaust)
  have 1: "R (st b) (st b1)" using R_build_row [OF assms] g by (metis snd_conv)
  have 2: "R (st b1) s2" if "send_proto w oid chat m (st b1) = (y, s2)" for m y s2
    using R_send that by (metis snd_conv)
  show ?thesis
    using 1 R_trans [OF 1 R_markAttempt] R_trans [OF 1 R_trans [OF 2 R_markAttempt]]
      R_trans [OF 1 R_trans [OF 2 R_record_sent]] assms
    by (auto simp: build_and_send_def g markOutboundAttempt_def split: sum.split prod.split)
qed

lemma R_sendOutboundRow:
  assumes "pr_id r = oid"
  shows "R (st b) (st (sendOutboundRow w r b))"
proof -
  have q: "R (st b) s1" if "quote_for_row w r chat j (st b) = (y, s1)" for chat j y s1
    using R_quote_for_row that by (metis snd_conv)
  have send: "R s1 (st (build_and_send w r chat j y (b\<lparr>st := s1\<rparr>)))" for chat j y s1
    using R_build_and_send [OF assms, of "b\<lparr>st := s1\<rparr>"] by simp
  show ?thesis
    using assms R_trans [OF q R_markAttempt] R_trans [OF q send]
    by (auto simp: sendOutboundRow_def Let_def markOutboundAttempt_def R_refuse R_sendReactionRow
        split: sum.split prod.split)
qed

end

section \<open>A row's turn is its own\<close>

definition beside_row ::
  "int \<Rightarrow> store \<Rightarrow> outbound_row list \<times> pairing_row option \<times> typing_row list" where
  "beside_row oid s =
     (filter (\<lambda>r. o_id r \<noteq> oid) (wa_outbound s), wa_pairing s, wa_typing_outbound s)"

fun is_send :: "event \<Rightarrow> bool" where
  "is_send (WaSend _ _ _) = True"
| "is_send (WaSendRow _ _) = True"
| "is_send _ = False"

definition sends :: "store \<Rightarrow> event list" where
  "sends s = filter is_send (trace s)"

lemma filter_update_other:
  "(\<And>r. key (f r) = key r) \<Longrightarrow>
    filter (\<lambda>r. key r \<noteq> k) (update_where (\<lambda>r. key r = k) f rs) = filter (\<lambda>r. key r \<noteq> k) rs"
  by (induction rs) (auto simp: update_where_def)

interpretation row_m: beside_messages "beside_row oid" for oid
  by unfold_locales (simp_all add: beside_row_def)

interpretation row_c: beside_chats "beside_row oid" for oid
  by unfold_locales (simp_all add: beside_row_def)

interpretation sends_m: beside_messages sends
  by unfold_locales (simp_all add: sends_def)

interpretation sends_c: beside_chats sends
  by unfold_locales (simp_all add: sends_def)

lemma beside_row_emit: "beside_row oid (emit e s) = beside_row oid s"
  by (simp add: beside_row_def)

lemma sends_update: "sends (snd (update_outbound oid f s)) = sends s"
  by (simp add: sends_def update_outbound_def)

interpretation own_row: sending_frame "\<lambda>s s'. beside_row oid s' = beside_row oid s" oid for oid
proof unfold_locales
  show "beside_row oid (snd (update_outbound oid f s)) = beside_row oid s"
    if "\<And>now r. o_id (f now r) = o_id r" for f s
    using filter_update_other [of o_id "f (utc_now s)" oid] that
    by (simp add: beside_row_def update_outbound_def)
qed (simp_all add: row_m.view_message_methods row_c.view_UpsertChat beside_row_emit)

interpretation log_send: sending_frame log_grows oid for oid
  by unfold_locales (simp_all add: log_InsertMessage log_UpsertReaction log_same_messages
      messages.view_UpsertChat update_outbound_def)

interpretation safe_send: sending_frame evolves oid for oid
  by unfold_locales (simp_all add: evolves_UpsertChat evolves_UpsertReaction)

interpretation no_send: outbound_frame "\<lambda>s s'. sends s' = sends s" oid for oid
  by unfold_locales (simp_all add: sends_m.view_message_methods sends_c.view_UpsertChat sends_update)

lemma sends_emit [simp]: "sends (emit (WaSendRow i j) s) = sends s @ [WaSendRow i j]"
  by (simp add: sends_def)

definition at_most_once :: "int \<Rightarrow> store \<Rightarrow> store \<Rightarrow> bool" where
  "at_most_once oid s s' \<longleftrightarrow> (\<exists>es. sends s' = sends s @ es \<and>
     (es = [] \<or> (\<exists>j. es = [WaSendRow oid j])))"

lemma at_most_once_refl: "sends s' = sends s \<Longrightarrow> at_most_once oid s s'"
  by (auto simp: at_most_once_def)

lemma at_most_once_same:
  "sends s1 = sends s \<Longrightarrow> at_most_once oid s1 s' \<Longrightarrow> at_most_once oid s s'"
  by (simp add: at_most_once_def)

lemma send_once:
  assumes "send_proto w oid j m s = (x, s1)" "sends s' = sends s1"
  shows "at_most_once oid s s'"
  using assms by (auto simp: at_most_once_def send_proto_def Let_def)

lemma reaction_at_most_once: "at_most_once (pr_id r) s (sendReactionRow w r chat j s)"
proof -
  obtain x s1 where g: "findMessageRow r j s = (x, s1)" by (rule prod.exhaust)
  have 1: "sends s1 = sends s" using no_send.R_findMessageRow g by (metis snd_conv)
  have send: "at_most_once (pr_id r) s1 (send_reaction_to w r chat j sender s1)" for sender
    by (auto simp: send_reaction_to_def markOutboundAttempt_def no_send.R_markAttempt
        sends_m.view_UpsertReaction no_send.R_stamp intro: send_once split: prod.split sum.split)
  show ?thesis
    using at_most_once_same [OF 1 send] 1
    by (auto simp: sendReactionRow_def Let_def g no_send.R_refuse no_send.R_markAttempt
        markOutboundAttempt_def at_most_once_refl split: sum.split option.split)
qed

lemma build_and_send_at_most_once:
  "at_most_once (pr_id r) (st b) (st (build_and_send w r chat j q b))"
proof -
  obtain x b1 where g: "build_row w r b = (x, b1)" by (rule prod.exhaust)
  have 1: "sends (st b1) = sends (st b)" using no_send.R_build_row g by (metis snd_conv)
  show ?thesis
    using at_most_once_same [OF 1 send_once] 1
    by (auto simp: build_and_send_def g no_send.R_markAttempt markOutboundAttempt_def
        no_send.R_record_sent at_most_once_refl split: sum.split prod.split)
qed

lemma turn_at_most_once: "at_most_once (pr_id r) (st b) (st (sendOutboundRow w r b))"
proof -
  have q: "sends s1 = sends (st b)" if "quote_for_row w r chat j (st b) = (y, s1)" for chat j y s1
    using no_send.R_quote_for_row that by (metis snd_conv)
  have send: "at_most_once (pr_id r) s1 (st (build_and_send w r chat j y (b\<lparr>st := s1\<rparr>)))" for chat j y s1
    using build_and_send_at_most_once [of r "b\<lparr>st := s1\<rparr>"] by simp
  show ?thesis
    using at_most_once_same [OF q send]
    by (auto simp: sendOutboundRow_def Let_def reaction_at_most_once no_send.R_refuse q
        no_send.R_markAttempt markOutboundAttempt_def at_most_once_refl split: sum.split prod.split)
qed

text \<open>C5: One turn of an outbound row makes at most one send, changes no other row of wa_outbound and no pairing or typing row, and removes or moves no message, whatever the database and WhatsApp answer.\<close>

theorem turn_is_its_own:
  "beside_row (pr_id r) (st (sendOutboundRow w r b)) = beside_row (pr_id r) (st b) \<and>
   at_most_once (pr_id r) (st b) (st (sendOutboundRow w r b)) \<and>
   log_grows (st b) (st (sendOutboundRow w r b))"
  using own_row.R_sendOutboundRow turn_at_most_once log_send.R_sendOutboundRow by auto

section \<open>A row that is sent\<close>

lemma place_keeps:
  assumes "OutboundLocation oid s = (x, s1)"
  shows "wa_chats s1 = wa_chats s" "wa_messages s1 = wa_messages s" "wa_outbound s1 = wa_outbound s"
  using chats.frame_OutboundLocation [where s = s and i = oid] messages.frame_OutboundLocation [where s = s and i = oid]
    others_m.frame_OutboundLocation [where s = s and i = oid] assms
  by (simp_all add: other_tables_def)

lemma build_row_keeps:
  assumes "build_row w r b = (Inr x, b1)"
  shows "wa_chats (st b1) = wa_chats (st b)" "wa_messages (st b1) = wa_messages (st b)"
    "wa_outbound (st b1) = wa_outbound (st b)" "evolves (st b) (st b1)"
proof -
  show "evolves (st b) (st b1)"
    using safe_send.R_build_row [of r "pr_id r" b w] assms by simp
  have "st b1 = st b \<or> (\<exists>y. OutboundLocation (pr_id r) (st b) = (y, st b1))"
    using assms
    by (auto simp: build_row_def buildOutboundMessage_def fetch_and_build_def buildLocationMessage_def
        permanent_failure_def Let_def split: if_splits option.splits prod.splits sum.splits)
  then show "wa_chats (st b1) = wa_chats (st b)" "wa_messages (st b1) = wa_messages (st b)"
    "wa_outbound (st b1) = wa_outbound (st b)"
    using place_keeps by auto
qed

lemma stamp_quiet:
  "replies s = [] \<Longrightarrow> snd (stamp_sent oid i s) = set_outbound (update_where (\<lambda>r. o_id r = oid)
     (sent_row i (server_now s))) (sent_off ''UPDATE wa_outbound sent'' s)"
  by (simp add: stamp_sent_def exec_quiet_known)

lemma sent_message_row_fields [simp]:
  "m_id (sent_message_row w r j resp t u q p) = resp_id resp"
  "m_chat_jid (sent_message_row w r j resp t u q p) = j"
  "m_from_me (sent_message_row w r j resp t u q p)"
  "m_timestamp (sent_message_row w r j resp t u q p) = resp_timestamp resp"
  "m_message_type (sent_message_row w r j resp t u q p) = t"
  "m_client_request_id (sent_message_row w r j resp t u q p) = nullString (pr_client_request_id r)"
  "m_body (sent_message_row w r j resp t u q p) =
     nullString (case p of None \<Rightarrow> pr_body r | Some l \<Rightarrow> coordinates (sp_lat l) (sp_lng l))"
  by (simp_all add: sent_message_row_def Let_def empty_message_def split: option.split)

lemma stored_request_id [simp]: "m_client_request_id (stored m) = m_client_request_id m"
  by (simp add: stored_def message.defs message_row.defs)

lemma truncate_Nil: "GoText.truncate s n = '''' \<longleftrightarrow> s = ''''"
  by (cases s) (simp_all add: GoText.truncate_def ellipsis_def)

lemma record_sent_quiet:
  fixes w r j resp t u q p s
  assumes "replies s = []"
  defines "s' \<equiv> record_sent w r j resp t u q p s"
  shows "wa_outbound s' = update_where (\<lambda>x. o_id x = pr_id r) (sent_row (resp_id resp) (server_now s))
      (wa_outbound s) \<and>
    (\<exists>m. wa_messages s' =
        (if resp_id resp \<in> m_id ` set (wa_messages s) \<or> j \<notin> c_jid ` set (wa_chats s)
         then wa_messages s else wa_messages s @ [m]) \<and>
      m_id m = resp_id resp \<and> m_chat_jid m = j \<and> m_message_type m = t \<and>
      m_client_request_id m = nullString (pr_client_request_id r) \<and>
      m_body m = nullString (case p of None \<Rightarrow> pr_body r | Some l \<Rightarrow> coordinates (sp_lat l) (sp_lng l))) \<and>
    (\<exists>c. row_by c_jid j (wa_chats s') = Some c \<and> c_last_message_at c = Some (resp_timestamp resp) \<and>
      c_last_message_from_me c \<and> c_unread_count c = 0 \<and>
      (\<forall>c0 lbl. row_by c_jid j (wa_chats s) = Some c0 \<longrightarrow>
        lbl = (case p of Some l \<Rightarrow> locationLabel (sp_name l)
          | None \<Rightarrow> if pr_body r \<noteq> '''' then pr_body r else previewForKind t (null_str (pr_media_filename r))) \<longrightarrow>
        c_last_message_preview c =
          (if lbl = '''' then c_last_message_preview c0 else Some (GoText.truncate lbl 160))))"
proof -
  define s1 where "s1 = snd (stamp_sent (pr_id r) (resp_id resp) s)"
  define m where "m = sent_message_row w r j resp t u q p"
  define s2 where "s2 = snd (InsertMessage m s1)"
  define ch where "ch = sent_chat_row j resp (sent_preview r t p)"
  have r1: "replies s1 = []" using assms(1) by (simp add: s1_def stamp_quiet)
  have r2: "replies s2 = []" using insert_op.run_quiet [OF r1] by (simp add: s2_def)
  have m2: "wa_messages s2 = inserted (kept s1 m) s1" using InsertMessage_quiet [OF r1] by (simp add: s2_def)
  have o2: "wa_outbound s2 = wa_outbound s1"
    using others_m.view_InsertMessage [of m s1] by (simp add: s2_def other_tables_def)
  have s': "s' = set_chats (upsert_chat_row ch (utc_now s2)) (sent_off ''INSERT wa_chats'' s2)"
    by (simp add: s'_def record_sent_def s1_def [symmetric] m_def [symmetric] s2_def [symmetric]
        ch_def [symmetric] UpsertChat_quiet [OF r2])
  have c2: "wa_chats s2 = wa_chats s"
    using chats.view_InsertMessage [of m s1] assms(1) by (simp add: s2_def s1_def stamp_quiet)
  have "wa_outbound s' = update_where (\<lambda>x. o_id x = pr_id r) (sent_row (resp_id resp) (server_now s))
      (wa_outbound s)"
    using assms(1) by (simp add: s' o2 s1_def stamp_quiet)
  moreover have "wa_messages s' =
      (if resp_id resp \<in> m_id ` set (wa_messages s) \<or> j \<notin> c_jid ` set (wa_chats s)
       then wa_messages s else wa_messages s @ [stored (kept s1 m)])"
    using assms(1) by (simp add: s' m2 inserted_def m_def s1_def stamp_quiet)
  moreover have "\<exists>c. row_by c_jid j (wa_chats s') = Some c \<and> c_last_message_at c = Some (resp_timestamp resp) \<and>
      c_last_message_from_me c \<and> c_unread_count c = 0 \<and>
      (\<forall>c0 lbl. row_by c_jid j (wa_chats s) = Some c0 \<longrightarrow>
        lbl = (case p of Some l \<Rightarrow> locationLabel (sp_name l)
          | None \<Rightarrow> if pr_body r \<noteq> '''' then pr_body r else previewForKind t (null_str (pr_media_filename r))) \<longrightarrow>
        c_last_message_preview c =
          (if lbl = '''' then c_last_message_preview c0 else Some (GoText.truncate lbl 160)))"
  proof (cases "row_by c_jid j (wa_chats s)")
    case None
    then show ?thesis
      by (simp add: s' row_by_upsert ch_def sent_chat_row_def new_chat_row_def c2)
  next
    case (Some c0)
    have "sent_preview r t p = (case p of Some l \<Rightarrow> locationLabel (sp_name l)
          | None \<Rightarrow> if pr_body r \<noteq> '''' then pr_body r else previewForKind t (null_str (pr_media_filename r)))"
      by (simp add: sent_preview_def split: option.split)
    with Some show ?thesis
      by (simp add: s' row_by_upsert ch_def sent_chat_row_def merge_chat_row_def c2 coalesce_def
          nullString_def truncate_Nil)
  qed
  ultimately show ?thesis
    by (intro conjI exI [of _ "stored (kept s1 m)"]) (simp_all add: m_def)
qed

text \<open>The turn of a row that is not a reaction and quotes nothing.\<close>

lemma plain_turn:
  assumes "parse_jid w (pr_chat_jid r) = Inr chat" "pr_kind r \<noteq> ''reaction''"
    and "null_str (pr_quoted_message_id r) = ''''"
  shows "sendOutboundRow w r b =
    build_and_send w r chat (jid_string w (canonicalChatJID w (trace (st b)) chat)) None b"
  using assms by (simp add: sendOutboundRow_def quote_for_row_def)

lemma sent_turn:
  assumes "replies (st b) = []" "parse_jid w (pr_chat_jid r) = Inr chat" "pr_kind r \<noteq> ''reaction''"
    and "null_str (pr_quoted_message_id r) = ''''"
    and "build_row w r b = (Inr ((m, t, u), p), b1)" "\<And>h. send_message w h chat m = Inr resp"
  defines "j \<equiv> jid_string w (canonicalChatJID w (trace (st b)) chat)"
  shows "\<exists>s. st (sendOutboundRow w r b) = record_sent w r j resp t u None p s \<and>
    replies s = [] \<and> wa_outbound s = wa_outbound (st b) \<and> wa_messages s = wa_messages (st b) \<and>
    wa_chats s = wa_chats (st b) \<and> server_now s = server_now (st b)"
proof -
  let ?s = "emit (WaSendRow (pr_id r) (jid_string w chat)) (st b1)"
  have ev: "evolves (st b) (st b1)" using build_row_keeps [OF assms(5)] by simp
  then have "replies (st b1) = []" "server_now (st b1) = server_now (st b)"
    using assms(1) by (auto simp: evolves_def)
  moreover have "st (sendOutboundRow w r b) = record_sent w r j resp t u None p ?s"
    using assms(5,6)
    by (simp add: plain_turn [OF assms(2-4)] build_and_send_def send_proto_def Let_def with_quote_def j_def)
  ultimately show ?thesis using build_row_keeps [OF assms(5)] by (intro exI [of _ ?s]) simp
qed

text \<open>C6: On a database that answers, a row that is no reaction and quotes nothing, whose message builds, is taken by WhatsApp under an ID not stored yet and goes to a canonical chat that has its row: it is stamped with that ID, the inbox gets one message with its request ID, type and body in that chat, and the chat shows the time and, unless blank, the label of that message (its body, the kind of its file or its place), as sent by us, with nothing unread.\<close>

theorem sent_row_outcome:
  assumes "replies (st b) = []" "parse_jid w (pr_chat_jid r) = Inr chat" "pr_kind r \<noteq> ''reaction''"
    and "null_str (pr_quoted_message_id r) = ''''"
    and "build_row w r b = (Inr ((m, t, u), p), b1)" "\<And>h. send_message w h chat m = Inr resp"
    and "resp_id resp \<notin> m_id ` set (wa_messages (st b))"
    and "row_by c_jid (jid_string w (canonicalChatJID w (trace (st b)) chat)) (wa_chats (st b)) = Some c0"
  shows "\<exists>x c lbl. wa_outbound (st (sendOutboundRow w r b)) =
      update_where (\<lambda>x. o_id x = pr_id r) (sent_row (resp_id resp) (server_now (st b))) (wa_outbound (st b)) \<and>
    wa_messages (st (sendOutboundRow w r b)) = wa_messages (st b) @ [x] \<and>
    m_id x = resp_id resp \<and> m_message_type x = t \<and>
    m_chat_jid x = jid_string w (canonicalChatJID w (trace (st b)) chat) \<and>
    m_client_request_id x = nullString (pr_client_request_id r) \<and>
    m_body x = nullString (case p of None \<Rightarrow> pr_body r | Some l \<Rightarrow> coordinates (sp_lat l) (sp_lng l)) \<and>
    row_by c_jid (m_chat_jid x) (wa_chats (st (sendOutboundRow w r b))) = Some c \<and>
    c_last_message_at c = Some (resp_timestamp resp) \<and> c_last_message_from_me c \<and> c_unread_count c = 0 \<and>
    lbl = (case p of Some l \<Rightarrow> locationLabel (sp_name l)
      | None \<Rightarrow> if pr_body r \<noteq> '''' then pr_body r else previewForKind t (null_str (pr_media_filename r))) \<and>
    c_last_message_preview c =
      (if lbl = '''' then c_last_message_preview c0 else Some (GoText.truncate lbl 160))"
proof -
  let ?j = "jid_string w (canonicalChatJID w (trace (st b)) chat)"
  obtain s where s: "st (sendOutboundRow w r b) = record_sent w r ?j resp t u None p s"
      "replies s = []" "wa_outbound s = wa_outbound (st b)" "wa_messages s = wa_messages (st b)"
      "wa_chats s = wa_chats (st b)" "server_now s = server_now (st b)"
    using sent_turn [OF assms(1-6)] by blast
  have "?j \<in> c_jid ` set (wa_chats (st b))" using row_by_Some_in [OF assms(8)] by force
  then show ?thesis
    using record_sent_quiet [of s w r ?j resp t u None p] s assms(7,8) by auto
qed

text \<open>
  The row of the message goes before the row of its chat, so a chat that is not stored under
  the canonical address yet loses the message: the chat list shows a message the chat does
  not have.
\<close>

text \<open>C31: A message sent to a chat whose canonical address has no chat row yet is stamped as sent and its chat row is created, but the message never reaches the inbox: it is inserted before the chat.\<close>

theorem first_send_under_new_address_is_lost:
  assumes "replies (st b) = []" "parse_jid w (pr_chat_jid r) = Inr chat" "pr_kind r \<noteq> ''reaction''"
    and "null_str (pr_quoted_message_id r) = ''''"
    and "build_row w r b = (Inr ((m, t, u), p), b1)" "\<And>h. send_message w h chat m = Inr resp"
    and "jid_string w (canonicalChatJID w (trace (st b)) chat) \<notin> c_jid ` set (wa_chats (st b))"
  shows "wa_messages (st (sendOutboundRow w r b)) = wa_messages (st b) \<and>
    jid_string w (canonicalChatJID w (trace (st b)) chat) \<in>
      c_jid ` set (wa_chats (st (sendOutboundRow w r b))) \<and>
    wa_outbound (st (sendOutboundRow w r b)) =
      update_where (\<lambda>x. o_id x = pr_id r) (sent_row (resp_id resp) (server_now (st b))) (wa_outbound (st b))"
proof -
  let ?j = "jid_string w (canonicalChatJID w (trace (st b)) chat)"
  obtain s where "st (sendOutboundRow w r b) = record_sent w r ?j resp t u None p s"
      "replies s = []" "wa_outbound s = wa_outbound (st b)" "wa_messages s = wa_messages (st b)"
      "wa_chats s = wa_chats (st b)" "server_now s = server_now (st b)"
    using sent_turn [OF assms(1-6)] by blast
  moreover have "row_by c_jid ?j cs = Some c \<Longrightarrow> ?j \<in> c_jid ` set cs" for cs c
    using row_by_None_iff [of c_jid ?j cs] by (cases "?j \<in> c_jid ` set cs") auto
  ultimately show ?thesis
    using record_sent_quiet [of s w r ?j resp t u None p] assms(7) by auto
qed

section \<open>A row that cannot be sent\<close>

text \<open>The reason for which a row will never be sendable, by the fields of the row alone.\<close>

definition refusal :: "wa \<Rightarrow> pending_row \<Rightarrow> string option" where
  "refusal w r =
     (let kind = pr_kind r; url = null_str (pr_media_url r)
      in if (case parse_jid w (pr_chat_jid r) of Inl _ \<Rightarrow> True | Inr _ \<Rightarrow> False) then Some ''INVALID_JID''
         else if kind = ''reaction'' then
           (if null_str (pr_quoted_message_id r) = '''' then Some ''REACTION_TARGET'' else None)
         else if null_str (pr_quoted_message_id r) \<noteq> '''' then None
         else if kind = ''location'' then
           (if parseCoordinates (pr_body r) = None then Some ''INVALID_LOCATION'' else None)
         else if kind = '''' \<or> kind = ''text'' then None
         else if mediaTypeForKind kind = None then Some ''UNSUPPORTED_KIND''
         else if url = '''' \<or> BasenameFromPublicURL w url = '''' then Some ''MEDIA''
         else None)"

lemma refused_turn:
  assumes "refusal w r = Some code"
  shows "\<exists>msg. sendOutboundRow w r b = b\<lparr>st := markOutboundPermanentlyFailed (pr_id r) code msg (st b)\<rparr>"
proof (cases "parse_jid w (pr_chat_jid r)")
  case (Inl e)
  then show ?thesis using assms by (auto simp: sendOutboundRow_def refusal_def)
next
  case (Inr chat)
  show ?thesis
  proof (cases "pr_kind r = ''reaction''")
    case True
    then show ?thesis
      using assms Inr
      by (auto simp: sendOutboundRow_def refusal_def sendReactionRow_def Let_def split: if_splits)
  next
    case False
    then have "null_str (pr_quoted_message_id r) = ''''"
      using assms Inr by (auto simp: refusal_def Let_def split: if_splits)
    note turn = plain_turn [OF Inr False this, of b]
    have "\<exists>e msg. build_row w r b = (Inl (Wrapped e ErrOutboundPermanent),
        b\<lparr>st := markOutboundPermanentlyFailed (pr_id r) code msg (st b)\<rparr>)"
      using assms Inr False
      by (auto simp: refusal_def build_row_def buildLocationMessage_def buildOutboundMessage_def
          permanent_failure_def Let_def split: if_splits option.splits)
    then show ?thesis by (auto simp: turn build_and_send_def)
  qed
qed

lemma clip_length: "length (clip s n) \<le> n"
  using clip_at_le [of s n] by (simp add: clip_def)

lemma refusal_code:
  "refusal w r = Some code \<Longrightarrow>
    code \<in> {''INVALID_JID'', ''REACTION_TARGET'', ''INVALID_LOCATION'', ''UNSUPPORTED_KIND'', ''MEDIA''}"
  by (auto simp: refusal_def Let_def split: if_splits)

text \<open>C13: A row with a bad address, a reaction without target, bad coordinates, an unknown kind or a foreign media URL is failed under its own code with a message of at most 500 bytes, and nothing is sent, stored or uploaded.\<close>

theorem refused_row_keeps_its_reason:
  assumes "replies (st b) = []" "has_error_code (st b)" "refusal w r = Some code"
    and "row_by o_id (pr_id r) (wa_outbound (st b)) = Some x"
  shows "\<exists>y msg. row_by o_id (pr_id r) (wa_outbound (st (sendOutboundRow w r b))) = Some y \<and>
    o_status y = ''failed'' \<and> o_error_code y = Some code \<and> o_attempts y = 5 \<and>
    o_error_message y = Some msg \<and> prefix (code @ '':'') msg \<and> length msg \<le> 500 \<and>
    sends (st (sendOutboundRow w r b)) = sends (st b) \<and>
    wa_messages (st (sendOutboundRow w r b)) = wa_messages (st b) \<and>
    files (sendOutboundRow w r b) = files b"
proof -
  obtain msg where t: "sendOutboundRow w r b =
      b\<lparr>st := markOutboundPermanentlyFailed (pr_id r) code msg (st b)\<rparr>"
    using refused_turn [OF assms(3)] by blast
  let ?s = "markOutboundPermanentlyFailed (pr_id r) code msg (st b)"
  let ?m = "clip (code @ '': '' @ msg) outboundMessageMax"
  have "wa_outbound ?s = update_where (\<lambda>r'. o_id r' = pr_id r)
      (\<lambda>r'. (failed_row 5 ?m (utc_now (st b)) r')\<lparr>o_error_code := Some code\<rparr>) (wa_outbound (st b))"
    using FailOutbound_quiet [OF assms(1), of "pr_id r" outboundMaxAttempts code msg] assms(2)
    by (simp add: markOutboundPermanentlyFailed_def outboundMaxAttempts_def)
  then have row: "row_by o_id (pr_id r) (wa_outbound ?s) =
      Some ((failed_row 5 ?m (utc_now (st b)) x)\<lparr>o_error_code := Some code\<rparr>)"
    using row_by_Some_in [OF assms(4)] by (simp add: row_by_update_where assms(4) failed_row_def)
  have "length code + 1 \<le> outboundMessageMax"
    using refusal_code [OF assms(3)] by (auto simp: outboundMessageMax_def)
  then have "prefix (code @ '':'') ?m" by (rule clip_keeps_code)
  moreover have "length ?m \<le> 500" using clip_length [of _ outboundMessageMax] by (simp add: outboundMessageMax_def)
  moreover have "sends ?s = sends (st b)" by (rule no_send.R_refuse)
  moreover have "wa_messages ?s = wa_messages (st b)"
    unfolding markOutboundPermanentlyFailed_def FailOutbound_def Let_def
    by (auto intro!: messages.frame_Fallback messages.frame_exec simp: update_outbound_def)
  ultimately show ?thesis using row by (simp add: t failed_row_def)
qed

section \<open>A row whose sends fail\<close>

text \<open>A turn of the row \<open>oid\<close> as the next tick reads it.\<close>

definition turn :: "wa \<Rightarrow> int \<Rightarrow> bridge \<Rightarrow> bridge" where
  "turn w oid b =
     (case row_by o_id oid (wa_outbound (st b)) of
        None \<Rightarrow> b
      | Some x \<Rightarrow> (case scan_pending True x of None \<Rightarrow> b | Some r \<Rightarrow> sendOutboundRow w r b))"

lemma markAttempt_quiet:
  assumes "replies s = []" "row_by o_id oid (wa_outbound s) = Some x" "n < 5"
  shows "\<exists>y m. row_by o_id oid (wa_outbound (markAttempt oid n c msg s)) = Some y \<and>
    o_attempts y = int n + 1 \<and> o_error_message y = Some m \<and>
    (if n + 1 = 5 then o_status y = ''failed''
     else y = attempted_row (n + 1) m (utc_now s) x)"
proof (cases "n + 1 = 5")
  case True
  then show ?thesis
    using FailOutbound_quiet [OF assms(1), of oid 5 c "if 500 < length msg then take 500 msg else msg"]
      row_by_Some_in [OF assms(2)]
    by (simp add: markAttempt_def Let_def outboundMaxAttempts_def row_by_update_where assms(2)
        failed_row_def)
next
  case False
  then show ?thesis
    using assms row_by_Some_in [OF assms(2)]
    by (simp add: markAttempt_def Let_def outboundMaxAttempts_def exec_quiet_known update_outbound_def
        row_by_update_where attempted_row_def)
qed

lemma failing_turn:
  assumes "replies (st b) = []" "parse_jid w (pr_chat_jid r) = Inr chat" "pr_kind r = ''text''"
    and "null_str (pr_quoted_message_id r) = ''''" "\<And>h m. send_message w h chat m = Inl e"
  shows "\<exists>s. sendOutboundRow w r b = b\<lparr>st := markAttempt (pr_id r) (pr_attempts r) codeSendFailed (error_text e) s\<rparr> \<and>
    replies s = [] \<and> wa_outbound s = wa_outbound (st b)"
  using plain_turn [OF assms(2) _ assms(4), of b] assms(1,3,5)
  by (auto simp: build_and_send_def build_row_def buildOutboundMessage_def send_proto_def Let_def
      with_quote_def markOutboundAttempt_def)

lemma scan_pending_fields:
  assumes "scan_pending q x = Some r"
  shows "pr_id r = o_id x" "pr_attempts r = nat (o_attempts x)"
    and "scan_pending q (attempted_row n m now x) = Some (r\<lparr>pr_attempts := n\<rparr>)"
  using assms by (auto simp: scan_pending_def attempted_row_def split: option.splits)

text \<open>C12: A text that WhatsApp keeps refusing counts one attempt per turn, keeps its status until the fifth and is failed by the fifth.\<close>

theorem gives_up_after_five:
  assumes "replies (st b) = []" "row_by o_id oid (wa_outbound (st b)) = Some x"
    and "scan_pending True x = Some r" "0 \<le> o_attempts x"
    and "parse_jid w (pr_chat_jid r) = Inr chat" "pr_kind r = ''text''"
    and "null_str (pr_quoted_message_id r) = ''''" "\<And>h m. send_message w h chat m = Inl e"
    and "pr_attempts r < 5" "pr_attempts r + n \<le> 5"
  shows "\<exists>y. row_by o_id oid (wa_outbound (st ((turn w oid ^^ n) b))) = Some y \<and>
    o_attempts y = o_attempts x + int n \<and>
    o_status y = (if pr_attempts r + n = 5 then ''failed'' else o_status x)"
  using assms(1-4) assms(9,10) assms(5-8)
proof (induction n arbitrary: b x r)
  case 0
  then show ?case by simp
next
  case (Suc n)
  note f = scan_pending_fields [OF Suc.prems(3)]
  have key: "o_id x = oid" using row_by_Some_in [OF Suc.prems(2)] by simp
  obtain s where t: "turn w oid b = b\<lparr>st := markAttempt (pr_id r) (pr_attempts r) codeSendFailed (error_text e) s\<rparr>"
      and s: "replies s = []" "wa_outbound s = wa_outbound (st b)"
    using failing_turn [OF Suc.prems(1,7,8,9,10)] Suc.prems(2,3) by (auto simp: turn_def)
  let ?s = "markAttempt oid (pr_attempts r) codeSendFailed (error_text e) s"
  have row: "row_by o_id oid (wa_outbound s) = Some x" using Suc.prems(2) by (simp add: s)
  obtain y m where y: "row_by o_id oid (wa_outbound ?s) = Some y" "o_attempts y = int (pr_attempts r) + 1"
      "if pr_attempts r + 1 = 5 then o_status y = ''failed'' else y = attempted_row (pr_attempts r + 1) m (utc_now s) x"
    using markAttempt_quiet [OF s(1) row Suc.prems(5)] by blast
  have st: "st (turn w oid b) = ?s" by (simp add: t f(1) key)
  have q: "replies ?s = []" using evolves_markAttempt [of s] s(1) by (auto simp: evolves_def)
  show ?case
  proof (cases "pr_attempts r + 1 = 5")
    case True
    then have "n = 0" using Suc.prems(6) by simp
    then show ?thesis using y True Suc.prems(4) f(2) by (simp add: st)
  next
    case False
    then have y': "y = attempted_row (pr_attempts r + 1) m (utc_now s) x" using y(3) by simp
    have sc: "scan_pending True y = Some (r\<lparr>pr_attempts := pr_attempts r + 1\<rparr>)"
      unfolding y' by (rule f(3))
    have "\<exists>z. row_by o_id oid (wa_outbound (st ((turn w oid ^^ n) (turn w oid b)))) = Some z \<and>
        o_attempts z = o_attempts y + int n \<and>
        o_status z = (if pr_attempts (r\<lparr>pr_attempts := pr_attempts r + 1\<rparr>) + n = 5 then ''failed'' else o_status y)"
      using Suc.prems(5,6) False y(1,2) sc by (intro Suc.IH) (simp_all add: st q Suc.prems)
    moreover have "o_status y = o_status x" by (simp add: y' attempted_row_def)
    ultimately show ?thesis
      using Suc.prems(4) f(2) y(2) by (auto simp: funpow_swap1)
  qed
qed

section \<open>What the recipient reads\<close>

lemma one_content_unwraps: "unwrapMessage (Some (Msg [Content k c x])) = Some (Msg [Content k c x])"
  by (simp add: unwrap_simps)

lemma captioned_unwraps:
  "unwrapMessage (Some (Msg [Container DocumentWithCaption (Some (Msg [Content k c x]))])) =
    Some (Msg [Content k c x])"
  by (simp add: unwrap_simps)

lemma classified_contents:
  "fst (classifyMessage (Some (Msg [Content Image c x]))) = ''image''"
  "fst (snd (classifyMessage (Some (Msg [Content Image c x])))) = null_str (k_text c)"
  "fst (classifyMessage (Some (Msg [Content Video c x]))) = ''video''"
  "fst (snd (classifyMessage (Some (Msg [Content Video c x])))) = null_str (k_text c)"
  "fst (classifyMessage (Some (Msg [Content Audio c x]))) = ''audio''"
  "fst (snd (classifyMessage (Some (Msg [Content Audio c x])))) = ''''"
  "fst (classifyMessage (Some (Msg [Content Document c x]))) = ''document''"
  "fst (snd (classifyMessage (Some (Msg [Content Document c x])))) = null_str (k_text c)"
  "fst (classifyMessage (Some (Msg [Content Location c x]))) = ''location''"
  "fst (snd (classifyMessage (Some (Msg [Content Location c x])))) = location_body c"
  "fst (classifyMessage (Some (Msg [Content ExtendedText c x]))) = ''text''"
  "fst (snd (classifyMessage (Some (Msg [Content ExtendedText c x])))) = null_str (k_text c)"
  by (simp_all add: classifyMessage_def one_content_unwraps media_rules_def content_rule_def
      conversation_rule_def getter_defs)

lemma classified_captioned:
  "classifyMessage (Some (Msg [Container DocumentWithCaption (Some (Msg [Content Document c x]))])) =
    classifyMessage (Some (Msg [Content Document c x]))"
  by (simp add: classifyMessage_def one_content_unwraps captioned_unwraps)

text \<open>Quoting changes neither the type nor the text.\<close>

definition plain_message :: "msg \<Rightarrow> bool" where
  "plain_message m \<longleftrightarrow>
     (\<exists>t. m = Msg [Conversation t] \<and> t \<noteq> '''') \<or>
     (\<exists>k \<in> {Image, Video, Audio, Document, Location}. \<exists>c. m = Msg [Content k c None]) \<or>
     (\<exists>c. m = Msg [Container DocumentWithCaption (Some (Msg [Content Document c None]))])"

lemma quoted_reads_same:
  assumes "plain_message m"
  shows "fst (classifyMessage (Some (with_quote q m))) = fst (classifyMessage (Some m)) \<and>
    fst (snd (classifyMessage (Some (with_quote q m)))) = fst (snd (classifyMessage (Some m)))"
proof (cases q)
  case None
  then show ?thesis by (simp add: with_quote_def)
next
  case (Some o')
  have kinds: "with_quote q (Msg [Content k c None]) = Msg [Content k c (Some (oq_ctx o'))]"
    if "k \<in> {Image, Video, Audio, Document, Location}" for k c
    using that by (auto simp: with_quote_def Some attachQuote_def quotable_kinds_def getter_defs)
  have doc: "with_quote q (Msg [Container DocumentWithCaption (Some (Msg [Content Document c None]))]) =
      Msg [Container DocumentWithCaption (Some (Msg [Content Document c (Some (oq_ctx o'))]))]" for c
    by (simp add: with_quote_def Some attachQuote_def quotable_kinds_def getter_defs)
  have conv: "with_quote q (Msg [Conversation t]) =
      Msg [Content ExtendedText (no_content\<lparr>k_text := Some t\<rparr>) (Some (oq_ctx o'))]" for t
    by (simp add: with_quote_def Some attachQuote_def getter_defs)
  show ?thesis
    using assms unfolding plain_message_def
    by (elim disjE exE bexE conjE)
      (auto simp: kinds doc conv classified_contents classified_captioned conversation_simps)
qed

lemma document_has_no_text: "k_text (fst (document_content w r d up f)) = None"
proof -
  obtain prev e where e: "ExtractPDFPreview w d = (prev, e)" by (rule prod.exhaust)
  obtain y f1 where u: "UploadThumbnail w (null_str (pr_media_sha256 r)) (pv_thumbnail prev) f = (y, f1)"
    by (rule prod.exhaust)
  have "k_text (uploaded_content r up) = None" by (simp add: uploaded_content_def no_content_def)
  then show ?thesis
    by (cases e; cases y)
      (simp_all add: document_content_def Let_def e u if_distrib [of fst] if_distrib [of k_text] cong: if_cong)
qed

definition built_as :: "pending_row \<Rightarrow> msg \<Rightarrow> string \<Rightarrow> bool" where
  "built_as r m t \<longleftrightarrow>
     (t = ''text'' \<and> m = Msg [Conversation (pr_body r)]) \<or>
     (t = ''image'' \<and> (\<exists>c. k_text c = protoStringPtrOrNil (pr_body r) \<and> m = Msg [Content Image c None])) \<or>
     (t = ''video'' \<and> (\<exists>c. k_text c = protoStringPtrOrNil (pr_body r) \<and> m = Msg [Content Video c None])) \<or>
     (t = ''audio'' \<and> (\<exists>c. m = Msg [Content Audio c None])) \<or>
     (t = ''document'' \<and> (\<exists>c. k_text c = None \<and> m =
       (if pr_body r \<noteq> '''' then Msg [Container DocumentWithCaption (Some (Msg [Content Document c None]))]
        else Msg [Content Document c None])))"

lemma media_message_as:
  "built_as r (fst (fst (media_message w r mt d up f))) (fst (snd (fst (media_message w r mt d up f))))"
proof (cases mt)
  case MediaImage
  have "\<exists>c. k_text c = protoStringPtrOrNil (pr_body r) \<and> image_message w r d up = Msg [Content Image c None]"
    by (auto simp: image_message_def Let_def split: sum.split prod.split)
  then show ?thesis by (simp add: media_message_def MediaImage built_as_def)
next
  case MediaVideo
  then show ?thesis by (simp add: media_message_def built_as_def)
next
  case MediaAudio
  then show ?thesis by (simp add: media_message_def built_as_def)
next
  case MediaDocument
  obtain c x f1 where c: "document_content w r d up f = (c, x, f1)" by (metis prod.exhaust)
  have "k_text c = None" using document_has_no_text [of w r d up f] c by simp
  then show ?thesis by (auto simp: media_message_def MediaDocument c built_as_def)
qed

lemma built_message:
  assumes "buildOutboundMessage w r b = (Inr (m, t, u), b1)"
  shows "built_as r m t"
proof -
  have fetch: "built_as r m t" if "fetch_and_build w r mt n b = (Inr (m, t, u), b1)" for mt n
    using that media_message_as [of r w mt]
    by (auto simp: fetch_and_build_def split: prod.splits sum.splits) (metis fst_conv snd_conv)
  have "built_as r (Msg [Conversation (pr_body r)]) ''text''" by (simp add: built_as_def)
  then show ?thesis
    using assms
    by (auto simp: buildOutboundMessage_def permanent_failure_def Let_def dest: fetch
        split: if_splits option.splits)
qed

lemma pin_reads:
  "location_body (no_content\<lparr>k_latitude := Some a, k_longitude := Some c, k_name := n,
     k_address := d, k_url := e\<rparr>) = coordinates a c"
  by (simp add: location_body_def float_of_def)

text \<open>C7: The row the inbox gets for an outbound message has the type and body that the inbound classifier reads back from the message sent, quoted or not, for a text with a body and for audio and documents without one.\<close>

theorem inbox_shows_what_was_sent:
  assumes "build_row w r b = (Inr ((m, t, u), p), b1)"
    and "t = ''text'' \<Longrightarrow> pr_body r \<noteq> ''''" "t \<in> {''audio'', ''document''} \<Longrightarrow> pr_body r = ''''"
  shows "m_message_type (sent_message_row w r j resp t u q p) =
      fst (classifyMessage (Some (with_quote q m))) \<and>
    m_body (sent_message_row w r j resp t u q p) =
      nullString (fst (snd (classifyMessage (Some (with_quote q m)))))"
proof (cases "pr_kind r = ''location''")
  case True
  then obtain l where "p = Some l" "t = ''location''" "m = pin_message l"
    using assms(1)
    by (auto simp: build_row_def buildLocationMessage_def permanent_failure_def Let_def
        split: option.splits prod.splits sum.splits)
  moreover have "plain_message (pin_message l)" by (auto simp: plain_message_def pin_message_def)
  ultimately show ?thesis
    using quoted_reads_same [of "pin_message l" q]
    by (simp add: classified_contents) (simp add: pin_message_def classified_contents pin_reads)
next
  case False
  then have p: "p = None" and b: "buildOutboundMessage w r b = (Inr (m, t, u), b1)"
    using assms(1) by (auto simp: build_row_def split: prod.splits sum.splits)
  have "plain_message m" using built_message [OF b] assms(2,3) by (auto simp: plain_message_def built_as_def)
  then show ?thesis
    using quoted_reads_same [of m q] built_message [OF b] assms(2,3)
    by (auto simp: p built_as_def classified_contents conversation_simps protoStringPtrOrNil_def)
qed

text \<open>C32: The caption of an outbound document is shown in the inbox but is not in the message sent.\<close>

theorem document_caption_is_lost:
  assumes "build_row w r b = (Inr ((m, t, u), p), b1)" "pr_kind r = ''document''" "pr_body r \<noteq> ''''"
  shows "m_body (sent_message_row w r j resp t u q p) = Some (pr_body r) \<and>
    fst (classifyMessage (Some (with_quote q m))) = ''document'' \<and>
    fst (snd (classifyMessage (Some (with_quote q m)))) = ''''"
proof -
  have p: "p = None" and b: "buildOutboundMessage w r b = (Inr (m, t, u), b1)"
    using assms by (auto simp: build_row_def split: prod.splits sum.splits)
  have "t = ''document''"
    using b assms(2)
    by (auto simp: buildOutboundMessage_def fetch_and_build_def permanent_failure_def Let_def
        mediaTypeForKind_def media_message_def split: if_splits prod.splits sum.splits)
  then obtain c where m: "k_text c = None"
      "m = Msg [Container DocumentWithCaption (Some (Msg [Content Document c None]))]"
    using built_message [OF b] assms(3) by (auto simp: built_as_def)
  then have "plain_message m" by (auto simp: plain_message_def)
  then show ?thesis
    using quoted_reads_same [of m q] assms(3)
    by (simp add: p m classified_captioned classified_contents nullString_def)
qed

section \<open>Replies\<close>

lemma exec_selects_snd: "snd (exec n cols (selects f) s) = sent_off n s"
  using exec_snd [of n cols "selects f" s] by simp

lemma scan_quoted_Inr:
  assumes "scan_quoted c i e s = (Inr row, s1)"
  shows "\<exists>m \<in> set (wa_messages s). m_id m = i \<and> m_chat_jid m = c \<and> row = quoted_of e m \<and>
    wa_messages s1 = wa_messages s \<and> off s1 = off s"
  using exec_Inr [OF assms [unfolded scan_quoted_def]]
  by (auto simp: selects_def one_row_def find_Some_iff split: option.splits)

lemma GetQuotedRow_Some:
  assumes "GetQuotedRow c i s = (Inr (Some row), s1)"
  shows "\<exists>m \<in> set (wa_messages s). m_id m = i \<and> m_chat_jid m = c \<and>
    (row = quoted_of True m \<or> row = quoted_of False m \<and> featureEdits \<in> off s1)"
proof -
  let ?read = "\<lambda>e s. case scan_quoted c i e s of
      (Inr q, s1) \<Rightarrow> (Inr (Some q), s1) | (Inl e, s1) \<Rightarrow> (Inl e, s1)"
  have keeps: "wa_messages s2 = wa_messages s" "off s2 = off s" if "?read e s = (x, s2)" for e s x s2
  proof -
    obtain y s3 where y: "scan_quoted c i e s = (y, s3)" by (rule prod.exhaust)
    have "snd (scan_quoted c i e s) = sent_off ''SELECT wa_messages quoted'' s"
      unfolding scan_quoted_def by (rule exec_selects_snd)
    then have "s3 = sent_off ''SELECT wa_messages quoted'' s" by (simp add: y)
    then show "wa_messages s2 = wa_messages s" "off s2 = off s"
      using that by (auto simp: y split: sum.splits)
  qed
  have "Fallback featureEdits (?read True) (Some (?read False)) None s = (Inr (Some row), s1)"
    using assms by (auto simp: GetQuotedRow_def split: prod.splits sum.splits if_splits)
  then show ?thesis
  proof (cases rule: Fallback_cases)
    case off
    then have "?read False s = (Inr (Some row), s1)" by (simp add: legacy_def)
    then show ?thesis
      using off(1) by (auto split: prod.splits sum.splits dest: scan_quoted_Inr)
  next
    case ran
    then show ?thesis by (auto split: prod.splits sum.splits dest: scan_quoted_Inr)
  next
    case (fell e s2)
    then have 2: "?read False (switch_off featureEdits s2) = (Inr (Some row), s1)"
      by (simp add: legacy_def)
    have "wa_messages s2 = wa_messages s" by (rule keeps(1) [OF fell(2)])
    moreover have "off s1 = insert featureEdits (off s2)" using keeps(2) [OF 2] by simp
    ultimately show ?thesis
      using 2 by (auto split: prod.splits sum.splits dest!: scan_quoted_Inr)
  qed
qed

lemma findMessageRow_Some:
  assumes "findMessageRow r j s = (Inr (Some row), s1)"
  shows "\<exists>m \<in> set (wa_messages s). m_id m = null_str (pr_quoted_message_id r) \<and>
    m_chat_jid m \<in> {pr_chat_jid r, j} \<and>
    (row = quoted_of True m \<or> row = quoted_of False m \<and> featureEdits \<in> off s1)"
proof -
  let ?i = "null_str (pr_quoted_message_id r)"
  obtain x s2 where g: "GetQuotedRow (pr_chat_jid r) ?i s = (x, s2)" by (rule prod.exhaust)
  have same: "wa_messages s2 = wa_messages s"
    using messages.frame_GetQuotedRow [where s = s and c = "pr_chat_jid r" and i = ?i] g by simp
  have "x = Inr (Some row) \<and> s2 = s1 \<or> GetQuotedRow j ?i s2 = (Inr (Some row), s1)"
    using assms by (auto simp: findMessageRow_def Let_def g split: sum.splits option.splits if_splits)
  then show ?thesis
    using GetQuotedRow_Some [of "pr_chat_jid r" ?i s row s1] GetQuotedRow_Some [of j ?i s2 row s1]
    by (auto simp: g same)
qed

text \<open>C28: A reply quotes a message stored in its chat that is no reaction, system or revoked row and, with the edit columns, is not deleted; the preview is its label.\<close>

theorem quotes_a_live_message:
  assumes "quote_for_row w r chat j s = (Inr (Some q), s1)"
  shows "\<exists>m \<in> set (wa_messages s). m_id m = null_str (pr_quoted_message_id r) \<and>
    m_chat_jid m \<in> {pr_chat_jid r, j} \<and>
    m_message_type m \<notin> {''revoked'', ''reaction'', ''system''} \<and>
    (featureEdits \<in> off s1 \<or> m_revoked_at m = None) \<and>
    oq_preview q = truncateRunes (quoteLabel (m_message_type m) (null_str (m_body m))
      (null_str (m_media_filename m))) quotedPreviewMax"
proof -
  obtain row where f: "findMessageRow r j s = (Inr (Some row), s1)" and row: "Quotable row"
      and q: "q = quote_of w (null_str (pr_quoted_message_id r))
        (participantFor w row chat (ownPN w) (ownLID w)) row"
    using assms
    by (auto simp: quote_for_row_def lookupQuote_def Let_def split: if_splits prod.splits sum.splits
        option.splits)
  obtain m where "m \<in> set (wa_messages s)" "m_id m = null_str (pr_quoted_message_id r)"
      "m_chat_jid m \<in> {pr_chat_jid r, j}"
      "row = quoted_of True m \<or> row = quoted_of False m \<and> featureEdits \<in> off s1"
    using findMessageRow_Some [OF f] by blast
  then show ?thesis
    using row by (intro bexI [of _ m]) (auto simp: q quote_of_def quoted_of_def Quotable_def)
qed

section \<open>A pin\<close>

text \<open>A number of micro-degrees as the web app writes it, six decimals.\<close>

definition micro_int :: "nat \<Rightarrow> string" where
  "micro_int n = decimal (n div 10 ^ 6)"

definition micro_frac :: "nat \<Rightarrow> string" where
  "micro_frac n = digits 6 (n mod 10 ^ 6)"

definition micro_text :: "bool \<Rightarrow> nat \<Rightarrow> string" where
  "micro_text neg n = (if neg then ''-'' else '''') @ micro_int n @ ''.'' @ micro_frac n"

definition micro_value :: "bool \<Rightarrow> nat \<Rightarrow> float64" where
  "micro_value neg n = Finite neg (round64 (of_nat n / 10 ^ 6))"

lemma byte_digit [simp]: "d < 10 \<Longrightarrow> byte (digit_char d) = 48 + d"
  by (simp add: byte_def digit_char_def)

lemma digit_char_props [simp]:
  assumes "d < 10"
  shows "is_digit (digit_char d)" "digit_value (digit_char d) = d"
  using assms by (simp_all add: is_digit_def digit_value_def)

lemma digits_props: "list_all is_digit (digits k n)" "length (digits k n) = k"
  by (induction k arbitrary: n) simp_all

lemma decimal_props: "list_all is_digit (decimal n)" "decimal n \<noteq> ''''"
proof -
  show "list_all is_digit (decimal n)"
    by (induction n rule: decimal.induct) (simp add: decimal.simps)
  show "decimal n \<noteq> ''''" by (simp add: decimal.simps [of n])
qed

lemma decimal_short: "n < 1000 \<Longrightarrow> length (decimal n) \<le> 3"
  by (simp add: decimal.simps [of n] decimal.simps [of "n div 10"] decimal.simps [of "n div 10 div 10"])

lemma number_of_snoc: "number_of (s @ [c]) = number_of s * 10 + digit_value c"
  by (simp add: number_of_def)

lemma number_of_append: "number_of (s @ t) = number_of s * 10 ^ length t + number_of t"
proof (induction t rule: rev_induct)
  case Nil
  then show ?case by (simp add: number_of_def)
next
  case (snoc c t)
  then show ?case by (simp add: number_of_snoc append_assoc [symmetric] del: append_assoc)
qed

lemma number_of_digits: "number_of (digits k n) = n mod 10 ^ k"
proof (induction k arbitrary: n)
  case 0
  then show ?case by (simp add: number_of_def)
next
  case (Suc k)
  then show ?case by (simp add: number_of_snoc mod_mult2_eq)
qed

lemma number_of_decimal: "number_of (decimal n) = n"
proof (induction n rule: decimal.induct)
  case (1 n)
  show ?case
  proof (cases "n < 10")
    case True
    then show ?thesis by (simp add: decimal.simps [of n] number_of_def)
  next
    case False
    then show ?thesis using 1 by (simp add: decimal.simps [of n] number_of_snoc)
  qed
qed

lemma micro_props:
  "list_all is_digit (micro_int n)" "list_all is_digit (micro_frac n)"
  "length (micro_frac n) = 6" "number_of (micro_int n @ micro_frac n) = n"
proof -
  show "number_of (micro_int n @ micro_frac n) = n"
    unfolding micro_int_def micro_frac_def
    by (simp only: number_of_append number_of_decimal number_of_digits digits_props mod_mod_trivial)
      simp
qed (simp_all add: micro_int_def micro_frac_def decimal_props digits_props)

lemma micro_int_Cons: "\<exists>c cs. micro_int n = c # cs \<and> is_digit c"
  using micro_props(1) [of n] decimal_props(2) [of "n div 10 ^ 6"]
  by (cases "micro_int n") (auto simp: micro_int_def)

lemma takeWhile_digits:
  assumes "list_all is_digit s" "rest = '''' \<or> \<not> is_digit (hd rest)"
  shows "takeWhile is_digit (s @ rest) = s" "dropWhile is_digit (s @ rest) = rest"
proof -
  have all: "\<And>c. c \<in> set s \<Longrightarrow> is_digit c" using assms(1) by (simp add: list_all_iff)
  have "takeWhile is_digit rest = ''''" "dropWhile is_digit rest = rest"
    using assms(2) by (cases rest; auto)+
  then show "takeWhile is_digit (s @ rest) = s" "dropWhile is_digit (s @ rest) = rest"
    using all by (simp_all add: takeWhile_append2 dropWhile_append2)
qed

lemma not_digits: "\<not> is_digit (CHR ''.'')" "\<not> is_digit (CHR ''-'')" "\<not> is_digit (CHR '','')"
  by (simp_all add: is_digit_def byte_def)

lemma read_micro:
  assumes "n < 1000 * 10 ^ 6" "rest = '''' \<or> \<not> is_digit (hd rest)"
  shows "read_number (micro_text neg n @ rest) = Some ((neg, micro_int n, micro_frac n), rest)"
proof -
  have i: "length (micro_int n) \<le> 3"
    using assms(1) unfolding micro_int_def by (intro decimal_short) (simp add: less_mult_imp_div_less)
  obtain c cs where ic: "micro_int n = c # cs" "is_digit c" using micro_int_Cons by blast
  then have no_minus: "c \<noteq> CHR ''-''" using not_digits by auto
  have f: "micro_frac n \<noteq> ''''" using micro_props(3) [of n] by auto
  have ip: "takeWhile is_digit (micro_int n @ ''.'' @ micro_frac n @ rest) = micro_int n"
    "dropWhile is_digit (micro_int n @ ''.'' @ micro_frac n @ rest) = ''.'' @ micro_frac n @ rest"
    by (rule takeWhile_digits; simp add: micro_props not_digits)+
  have fp: "takeWhile is_digit (micro_frac n @ rest) = micro_frac n"
    "dropWhile is_digit (micro_frac n @ rest) = rest"
    by (rule takeWhile_digits; simp add: micro_props assms(2))+
  have pre: "has_prefix (micro_text neg n @ rest) ''-'' = neg"
    using no_minus unfolding micro_text_def ic by (simp add: has_prefix_def)
  have body: "(if neg then drop 1 (micro_text neg n @ rest) else micro_text neg n @ rest) =
      micro_int n @ ''.'' @ micro_frac n @ rest"
    by (simp add: micro_text_def)
  have dot: "has_prefix (''.'' @ micro_frac n @ rest) ''.''" by (simp add: has_prefix_def)
  have "micro_int n \<noteq> ''''" by (simp add: ic)
  then show ?thesis
    using i f unfolding read_number_def Let_def pre body ip
    by (simp only: dot if_True if_False) (simp add: fp)
qed

text \<open>The nearest \<open>float64\<close> is close enough to print the same six decimals.\<close>

lemma shift_up_ge:
  "0 \<le> q \<Longrightarrow> q * 2 ^ m < 2 ^ 53 \<Longrightarrow> m \<le> N \<Longrightarrow> k + m \<le> shift_up N q k"
proof (induction N arbitrary: q m k)
  case 0
  then show ?case by simp
next
  case (Suc N)
  show ?case
  proof (cases m)
    case 0
    have "k \<le> shift_up M x k" for M x k
    proof (induction M arbitrary: x k)
      case (Suc M)
      show ?case using Suc.IH [of "Suc k" "x * 2"] by simp
    qed simp
    then show ?thesis using 0 by (metis add_0_right)
  next
    case (Suc m')
    have "q * 2 * 1 \<le> q * 2 * 2 ^ m'" using Suc.prems(1) by (intro mult_left_mono) simp_all
    then have "q * 2 < 2 ^ 53" using Suc.prems(2) by (simp add: Suc mult.assoc)
    then show ?thesis
      using Suc.IH [of "q * 2" m' "Suc k"] Suc.prems by (simp add: Suc mult.assoc)
  qed
qed

lemma round64_error:
  assumes "0 \<le> q" "q \<le> 1000"
  shows "\<bar>round64 q - q\<bar> * 10 ^ 6 < 1 / 2"
proof -
  let ?k = "ulp_shift q"
  have "0 + 40 \<le> ?k"
    unfolding ulp_shift_def using assms by (intro shift_up_ge) simp_all
  then have "(2 :: rat) ^ 40 \<le> 2 ^ ?k" by (intro power_increasing) simp_all
  then have k: "(10 :: rat) ^ 6 < 2 ^ ?k" by simp
  have "of_int (round_even (q * 2 ^ ?k)) - q * 2 ^ ?k = (round64 q - q) * 2 ^ ?k"
    by (simp add: round64_def left_diff_distrib)
  then have "\<bar>(round64 q - q) * 2 ^ ?k\<bar> \<le> 1 / 2" using round_even_error [of "q * 2 ^ ?k"] by simp
  then have "\<bar>round64 q - q\<bar> * 2 ^ ?k \<le> 1 / 2" by (simp add: abs_mult)
  moreover have "\<bar>round64 q - q\<bar> * 10 ^ 6 < \<bar>round64 q - q\<bar> * 2 ^ ?k \<or> round64 q = q"
    using k by (auto intro: mult_strict_left_mono)
  ultimately show ?thesis by auto
qed

lemma round_even_le: "x \<le> of_int n \<Longrightarrow> round_even x \<le> n"
proof -
  assume "x \<le> of_int n"
  moreover have "of_int (round_even x) \<le> x + 1 / 2" using round_even_error [of x] by linarith
  ultimately have "(of_int (round_even x) :: rat) < of_int (n + 1)" by simp
  then show ?thesis unfolding of_int_less_iff by simp
qed

lemma round_even_ge: "of_int n \<le> x \<Longrightarrow> n \<le> round_even x"
proof -
  assume "of_int n \<le> x"
  moreover have "x - 1 / 2 \<le> of_int (round_even x)" using round_even_error [of x] by linarith
  ultimately have "(of_int (n - 1) :: rat) < of_int (round_even x)" by simp
  then show ?thesis unfolding of_int_less_iff by simp
qed

lemma round64_le:
  assumes "q \<le> of_nat m"
  shows "round64 q \<le> of_nat m"
proof -
  have "q * 2 ^ ulp_shift q \<le> of_int (int m * 2 ^ ulp_shift q)" using assms by simp
  then have "round_even (q * 2 ^ ulp_shift q) \<le> int m * 2 ^ ulp_shift q" by (rule round_even_le)
  then have "(of_int (round_even (q * 2 ^ ulp_shift q)) :: rat) \<le> of_int (int m * 2 ^ ulp_shift q)"
    by (simp only: of_int_le_iff)
  then show ?thesis by (simp add: round64_def pos_divide_le_eq)
qed

lemma round64_nonneg: "0 \<le> q \<Longrightarrow> 0 \<le> round64 q"
proof -
  assume "0 \<le> q"
  then have "0 \<le> round_even (q * 2 ^ ulp_shift q)" by (intro round_even_ge) simp
  then show ?thesis by (simp add: round64_def)
qed

lemma micro_within: "float_within (of_nat m) (micro_value neg n)"
  if "n \<le> m * 10 ^ 6"
proof -
  have "(of_nat n :: rat) \<le> of_nat (m * 10 ^ 6)" using that by (simp only: of_nat_le_iff)
  then have "(of_nat n :: rat) / 10 ^ 6 \<le> of_nat m" by (simp add: pos_divide_le_eq)
  then have "round64 (of_nat n / 10 ^ 6) \<le> of_nat m" by (rule round64_le)
  moreover have "0 \<le> round64 (of_nat n / 10 ^ 6)" by (rule round64_nonneg) simp
  ultimately show ?thesis unfolding micro_value_def by auto
qed

lemma micro_prints: "fixed6 (micro_value neg n) = micro_text neg n"
  if "n \<le> 1000 * 10 ^ 6"
proof -
  let ?q = "of_nat n / 10 ^ 6 :: rat"
  have "(of_nat n :: rat) \<le> of_nat (1000 * 10 ^ 6)" using that by (simp only: of_nat_le_iff)
  then have "\<bar>round64 ?q - ?q\<bar> * 10 ^ 6 < 1 / 2" by (intro round64_error) simp_all
  then have "\<bar>round64 ?q * 10 ^ 6 - of_int (int n)\<bar> < 1 / 2"
    by (simp add: abs_if left_diff_distrib split: if_splits)
  then have "round_even (round64 ?q * 10 ^ 6) = int n" by (rule round_even_near)
  then show ?thesis by (simp add: fixed6_magnitude_def micro_text_def micro_int_def micro_frac_def micro_value_def)
qed

lemma no_space: "dropWhile re_space (micro_text neg n @ rest) = micro_text neg n @ rest"
proof -
  obtain c cs where ic: "micro_int n = c # cs" "is_digit c" using micro_int_Cons by blast
  then have "\<not> re_space c" by (auto simp: is_digit_def re_space_def)
  moreover have "\<not> re_space (CHR ''-'')" by (simp add: re_space_def byte_def)
  ultimately show ?thesis unfolding micro_text_def ic by simp
qed

text \<open>C14: Coordinates on the globe that the web app writes with six decimals parse as a pin, and the bridge prints the parsed pin as the same text.\<close>

theorem pin_round_trip:
  assumes "la \<le> 90 * 10 ^ 6" "lo \<le> 180 * 10 ^ 6"
  shows "\<exists>x y. parseCoordinates (micro_text nla la @ '', '' @ micro_text nlo lo) = Some (x, y) \<and>
    coordinates x y = micro_text nla la @ '', '' @ micro_text nlo lo"
proof -
  let ?x = "micro_value nla la" and ?y = "micro_value nlo lo"
  have rx: "read_number (micro_text nla la @ '', '' @ micro_text nlo lo) =
      Some ((nla, micro_int la, micro_frac la), '', '' @ micro_text nlo lo)"
    using assms(1) by (intro read_micro) (simp_all add: not_digits)
  have ry: "read_number (micro_text nlo lo) = Some ((nlo, micro_int lo, micro_frac lo), '''')"
    using read_micro [of lo "''''" nlo] assms(2) by simp
  have px: "parse_float (neg, micro_int n, micro_frac n) = micro_value neg n" for neg n
    by (simp only: parse_float.simps micro_props micro_value_def)
  have sp: "re_space (CHR '' '')" "\<not> re_space (CHR '','')" by (simp_all add: re_space_def byte_def)
  have "float_within 90 ?x" "float_within 180 ?y"
    using micro_within [of la 90 nla] micro_within [of lo 180 nlo] assms by simp_all
  then have "parseCoordinates (micro_text nla la @ '', '' @ micro_text nlo lo) = Some (?x, ?y)"
    unfolding parseCoordinates_def no_space rx
    using no_space [of nlo lo "''''"] sp by (simp add: ry px del: parse_float.simps)
  moreover have "coordinates ?x ?y = micro_text nla la @ '', '' @ micro_text nlo lo"
    using assms unfolding coordinates_def by (simp only: micro_prints)
  ultimately show ?thesis by blast
qed

section \<open>Concrete runs\<close>

definition sample_pending :: "string \<Rightarrow> string \<Rightarrow> pending_row" where
  "sample_pending kind body =
     \<lparr>pr_id = 7, pr_client_request_id = ''c1'', pr_chat_jid = ''a'', pr_body = body, pr_kind = kind,
      pr_media_url = None, pr_media_mime = None, pr_media_filename = None, pr_media_size = None,
      pr_media_sha256 = None, pr_attempts = 0, pr_quoted_message_id = None\<rparr>"

definition pending_db_row :: outbound_row where
  "pending_db_row = (sample_outbound 7 ''pending'')
     \<lparr>o_client_request_id := Some ''c1'', o_chat_jid := Some ''a'', o_body := Some ''hi'',
      o_kind := Some ''text'', o_quoted_message_id := None, o_attempts := 0\<rparr>"

definition pending_bridge :: bridge where
  "pending_bridge = sample_bridge\<lparr>st := sample_store\<lparr>wa_outbound := [pending_db_row]\<rparr>\<rparr>"

definition sample_resp :: send_response where
  "sample_resp = \<lparr>resp_id = ''W9'', resp_timestamp = 500\<rparr>"

lemma sample_calls:
  "parse_jid sample_wa s = Inr (plain_jid s DefaultUserServer)"
  "send_message sample_wa h j m = Inr sample_resp"
  "jid_string sample_wa (plain_jid u sv) = u"
  by (simp_all add: sample_wa_def sample_resp_def plain_jid_def)

lemma pending_bridge_quiet: "replies (st pending_bridge) = []"
  by (simp add: pending_bridge_def sample_defs)

lemma text_builds:
  "build_row w (sample_pending ''text'' t) b = (Inr ((Msg [Conversation t], ''text'', None), None), b)"
  by (simp add: build_row_def buildOutboundMessage_def sample_pending_def Let_def)

theorem sent_row_outcome_witness:
  "\<exists>x c. wa_messages (st (sendOutboundRow sample_wa (sample_pending ''text'' ''new'') pending_bridge)) =
      wa_messages sample_store @ [x] \<and> m_id x = ''W9'' \<and> m_body x = Some ''new'' \<and>
    row_by c_jid ''a'' (wa_chats (st (sendOutboundRow sample_wa (sample_pending ''text'' ''new'') pending_bridge))) =
      Some c \<and> c_last_message_preview c = Some ''new'' \<and> c_unread_count c = 0"
proof -
  have row: "row_by c_jid (jid_string sample_wa (canonicalChatJID sample_wa (trace (st pending_bridge))
      (plain_jid ''a'' DefaultUserServer))) (wa_chats (st pending_bridge)) = Some (sample_chat ''a'' False)"
    by (simp add: sample_canonical sample_calls pending_bridge_def sample_store_def empty_store_def sample_chat_def)
  have t: "GoText.truncate ''new'' 160 = ''new''" by code_simp
  have f: "parse_jid sample_wa (pr_chat_jid (sample_pending ''text'' ''new'')) = Inr (plain_jid ''a'' DefaultUserServer)"
    "pr_kind (sample_pending ''text'' ''new'') \<noteq> ''reaction''"
    "null_str (pr_quoted_message_id (sample_pending ''text'' ''new'')) = ''''"
    "resp_id sample_resp = ''W9''" "pr_body (sample_pending ''text'' ''new'') = ''new''"
    by (simp_all add: sample_calls sample_pending_def sample_resp_def)
  have m: "wa_messages (st pending_bridge) = wa_messages sample_store" by (simp add: pending_bridge_def)
  have "resp_id sample_resp \<notin> m_id ` set (wa_messages (st pending_bridge))"
    by (simp add: f m sample_defs)
  from sent_row_outcome [OF pending_bridge_quiet f(1-3)
      text_builds [of sample_wa "''new''" pending_bridge] sample_calls(2) this row]
  show ?thesis by (auto simp: f m t sample_calls sample_canonical nullString_def)
qed

theorem first_send_under_new_address_is_lost_witness:
  "wa_messages (st (sendOutboundRow (sample_wa\<lparr>lid_for_pn := \<lambda>_ _. Inr (plain_jid ''lid'' HiddenUserServer)\<rparr>)
     (sample_pending ''text'' ''hi'') pending_bridge)) = wa_messages sample_store"
proof -
  let ?w = "sample_wa\<lparr>lid_for_pn := \<lambda>_ _. Inr (plain_jid ''lid'' HiddenUserServer)\<rparr>"
  have calls: "parse_jid ?w s = Inr (plain_jid s DefaultUserServer)" "send_message ?w h j m = Inr sample_resp"
    for s h j m by (simp_all add: sample_calls)
  have lid: "jid_string ?w (canonicalChatJID ?w h (plain_jid ''a'' DefaultUserServer)) = ''lid''" for h
    by (simp add: canonicalChatJID_def sample_wa_def plain_jid_def)
  have "''lid'' \<notin> c_jid ` set (wa_chats (st pending_bridge))" by (simp add: pending_bridge_def sample_defs)
  moreover have "parse_jid ?w (pr_chat_jid (sample_pending ''text'' ''hi'')) = Inr (plain_jid ''a'' DefaultUserServer)"
    "pr_kind (sample_pending ''text'' ''hi'') \<noteq> ''reaction''"
    "null_str (pr_quoted_message_id (sample_pending ''text'' ''hi'')) = ''''"
    by (simp_all add: sample_calls sample_pending_def)
  ultimately have "wa_messages (st (sendOutboundRow ?w (sample_pending ''text'' ''hi'') pending_bridge)) =
      wa_messages (st pending_bridge)"
    using first_send_under_new_address_is_lost [OF pending_bridge_quiet _ _ _
        text_builds [of ?w "''hi''" pending_bridge] calls(2), of "plain_jid ''a'' DefaultUserServer"]
    unfolding lid by blast
  then show ?thesis by (simp add: pending_bridge_def)
qed

theorem refused_row_keeps_its_reason_witness:
  "\<exists>y. row_by o_id 7 (wa_outbound (st (sendOutboundRow sample_wa (sample_pending ''sticker'' '''') pending_bridge))) =
      Some y \<and> o_status y = ''failed'' \<and> o_error_code y = Some ''UNSUPPORTED_KIND''"
proof -
  have r: "refusal sample_wa (sample_pending ''sticker'' '''') = Some ''UNSUPPORTED_KIND''"
    by (simp add: refusal_def sample_calls sample_pending_def mediaTypeForKind_def)
  have "has_error_code (st pending_bridge)"
    "row_by o_id (pr_id (sample_pending ''sticker'' '''')) (wa_outbound (st pending_bridge)) = Some pending_db_row"
    by (simp_all add: has_error_code_def pending_bridge_def sample_pending_def pending_db_row_def
        sample_outbound_def sample_defs)
  from refused_row_keeps_its_reason [OF pending_bridge_quiet this(1) r this(2)]
  show ?thesis by (auto simp: sample_pending_def)
qed

theorem gives_up_after_five_witness:
  "\<exists>y. row_by o_id 7 (wa_outbound (st ((turn (sample_wa\<lparr>send_message := \<lambda>_ _ _. Inl (ErrText ''x'')\<rparr>) 7 ^^ 5)
      pending_bridge))) = Some y \<and> o_attempts y = 5 \<and> o_status y = ''failed''"
proof -
  let ?w = "sample_wa\<lparr>send_message := \<lambda>_ _ _. Inl (ErrText ''x'')\<rparr>"
  have row: "row_by o_id 7 (wa_outbound (st pending_bridge)) = Some pending_db_row"
    by (simp add: pending_bridge_def pending_db_row_def sample_outbound_def)
  have scan: "scan_pending True pending_db_row = Some (sample_pending ''text'' ''hi'')"
    by (simp add: scan_pending_def pending_db_row_def sample_outbound_def sample_pending_def)
  have "parse_jid ?w (pr_chat_jid (sample_pending ''text'' ''hi'')) = Inr (plain_jid ''a'' DefaultUserServer)"
    by (simp add: sample_calls sample_pending_def)
  from gives_up_after_five [OF pending_bridge_quiet row scan _ this, of "ErrText ''x''" 5]
  show ?thesis by (simp add: pending_db_row_def sample_pending_def)
qed

theorem inbox_shows_what_was_sent_witness:
  "fst (snd (classifyMessage (Some (with_quote None (Msg [Conversation ''hi'']))))) = ''hi'' \<and>
   m_body (sent_message_row sample_wa (sample_pending ''text'' ''hi'') ''a'' sample_resp ''text'' None None None) =
     Some ''hi''"
  using inbox_shows_what_was_sent [OF text_builds [of sample_wa "''hi''" sample_bridge],
      where j = "''a''" and resp = sample_resp and q = None]
  by (simp add: sample_pending_def nullString_def split: if_splits)

theorem quotes_a_live_message_witness:
  "\<exists>q s1. quote_for_row sample_wa ((sample_pending ''text'' ''hi'')\<lparr>pr_quoted_message_id := Some ''m2''\<rparr>)
      (plain_jid ''a'' DefaultUserServer) ''a'' sample_store = (Inr (Some q), s1) \<and>
    oq_preview q = truncateRunes (quoteLabel ''text'' ''hi'' '''') quotedPreviewMax"
proof -
  let ?r = "(sample_pending ''text'' ''hi'')\<lparr>pr_quoted_message_id := Some ''m2''\<rparr>"
  have g: "GetQuotedRow ''a'' ''m2'' sample_store =
      (Inr (Some (quoted_of True (sample_row ''m2'' True 9))), sent_off ''SELECT wa_messages quoted'' sample_store)"
  proof -
    have "\<forall>(k, c) \<in> set revoke_cols. k \<notin> set (missing_columns sample_store)" by (simp add: sample_defs)
    then have "exec ''SELECT wa_messages quoted'' revoke_cols f sample_store =
        f (sent_off ''SELECT wa_messages quoted'' sample_store)" for f :: "store \<Rightarrow> quoted_row res \<times> store"
      using sample_store_ok(2) by (intro exec_quiet_known)
    then have "scan_quoted ''a'' ''m2'' True sample_store =
        (Inr (quoted_of True (sample_row ''m2'' True 9)), sent_off ''SELECT wa_messages quoted'' sample_store)"
      by (simp add: scan_quoted_def selects_def one_row_def) (simp add: sample_defs)
    moreover have "off sample_store = {}" by (simp add: sample_defs)
    ultimately show ?thesis by (simp add: GetQuotedRow_def Fallback_def FeatureOff_def)
  qed
  have "Quotable (quoted_of True (sample_row ''m2'' True 9))"
    by (simp add: Quotable_def quoted_of_def sample_defs)
  then obtain q s1 where q: "quote_for_row sample_wa ?r (plain_jid ''a'' DefaultUserServer) ''a'' sample_store =
      (Inr (Some q), s1)"
    by (simp add: quote_for_row_def lookupQuote_def findMessageRow_def Let_def sample_pending_def g
        participantFor_def ownPN_def ownLID_def) (simp add: sample_wa_def plain_jid_def quoted_of_def sample_defs)
  obtain m where "m \<in> set (wa_messages sample_store)" "m_id m = ''m2''"
      "oq_preview q = truncateRunes (quoteLabel (m_message_type m) (null_str (m_body m))
        (null_str (m_media_filename m))) quotedPreviewMax"
    using quotes_a_live_message [OF q] by auto
  then have "oq_preview q = truncateRunes (quoteLabel ''text'' ''hi'' '''') quotedPreviewMax"
    by (auto simp: sample_defs)
  with q show ?thesis by blast
qed

theorem pin_round_trip_witness:
  "\<exists>x y. parseCoordinates (micro_text False 18921200 @ '', '' @ micro_text True 99234100) = Some (x, y) \<and>
    coordinates x y = micro_text False 18921200 @ '', '' @ micro_text True 99234100"
  using pin_round_trip [of 18921200 99234100 False True] by simp

definition caption_row :: pending_row where
  "caption_row = (sample_pending ''document'' ''see page 2'')
     \<lparr>pr_media_url := Some ''https://x/wa_media/x.pdf'', pr_media_mime := Some ''text/plain'',
      pr_media_filename := Some ''x.txt''\<rparr>"

definition caption_bridge :: bridge where
  "caption_bridge = sample_bridge\<lparr>files := sample_uploader
     \<lparr>remote_files := (\<lambda>p. if p = ''/srv/wa_media/x.pdf'' then Some ''data'' else None)\<rparr>\<rparr>"

lemma caption_file: "BasenameFromPublicURL sample_wa ''https://x/wa_media/x.pdf'' = ''x.pdf''"
  by code_simp

lemma caption_read: "fst (Read sample_wa ''x.pdf'' (files caption_bridge)) = Inr ''data''"
  by code_simp

theorem document_caption_is_lost_witness:
  "\<exists>m u b1. build_row sample_wa caption_row caption_bridge = (Inr ((m, ''document'', u), None), b1) \<and>
    fst (snd (classifyMessage (Some m))) = '''' \<and> pr_body caption_row = ''see page 2''"
proof -
  obtain u1 where r: "Read sample_wa ''x.pdf'' (files caption_bridge) = (Inr ''data'', u1)"
    using caption_read by (metis prod.exhaust_sel)
  have np: "\<not> contains ''text/plain'' ''pdf''" by code_simp
  obtain up where up: "upload_media sample_wa h ''data'' MediaDocument = Inr up" for h
    by (simp add: sample_wa_def)
  have "\<exists>m b1. build_row sample_wa caption_row caption_bridge = (Inr ((m, ''document'', None), None), b1)"
    using r np up caption_file
    by (simp add: build_row_def buildOutboundMessage_def caption_row_def sample_pending_def Let_def
        mediaTypeForKind_def fetch_and_build_def media_message_def document_content_def)
  then obtain m b1 where b: "build_row sample_wa caption_row caption_bridge =
      (Inr ((m, ''document'', None), None), b1)" by blast
  have "fst (snd (classifyMessage (Some (with_quote None m)))) = ''''"
    using document_caption_is_lost [OF b, where q = None]
    by (simp add: caption_row_def sample_pending_def)
  then show ?thesis using b by (simp add: with_quote_def caption_row_def sample_pending_def)
qed

end
