(* ===== verification/Resends.thy ===== *)
theory Resends
  imports SendLaws
begin

text \<open>
  What the outbound queue does when a message was sent and the row cannot be stamped
  (\<open>sendOutboundRow\<close> of \<open>internal/wabridge/wabridge.go\<close>): the failure is logged, nothing else.
\<close>

section \<open>A stamp the database refuses\<close>

lemma exec_refused:
  "replies d = Fails e # rs \<Longrightarrow>
    \<exists>x. exec name [] stmt d = (Inl x, d\<lparr>trace := trace d @ [Stmt name], replies := rs\<rparr>)"
  by (cases d) (simp add: exec_def take_reply_def emit_def)

lemma others_InsertMessage: "wa_outbound (snd (InsertMessage m s)) = wa_outbound s"
  using others_m.view_InsertMessage [of m s] by (simp add: other_tables_def)

lemma others_UpsertChat: "wa_outbound (snd (UpsertChat c s)) = wa_outbound s"
  using others_c.view_UpsertChat [of c s] by (simp add: other_tables_def)

lemma record_unstamped:
  assumes "replies s = Fails e # rs"
  shows "wa_outbound (record_sent w r j resp t u q p s) = wa_outbound s"
proof -
  have "wa_outbound (snd (exec name [] stmt s)) = wa_outbound s"
    for name and stmt :: "store \<Rightarrow> unit res \<times> store"
    using exec_refused [OF assms, of name stmt] by auto
  then show ?thesis by (simp add: record_sent_def stamp_sent_def others_InsertMessage others_UpsertChat)
qed

lemma unstamped_turn:
  assumes "row_by o_id oid (wa_outbound (st b)) = Some x" "scan_pending True x = Some r"
    and "parse_jid w (pr_chat_jid r) = Inr chat" "pr_kind r = ''text''"
    and "null_str (pr_quoted_message_id r) = ''''" "\<And>h m. send_message w h chat m = Inr resp"
    and "replies (st b) = Fails e # rs"
  shows "wa_outbound (st (turn w oid b)) = wa_outbound (st b) \<and>
    sends (st (turn w oid b)) = sends (st b) @ [WaSendRow oid (jid_string w chat)]"
proof -
  let ?j = "jid_string w (canonicalChatJID w (trace (st b)) chat)"
  let ?s = "emit (WaSendRow (pr_id r) (jid_string w chat)) (st b)"
  have kind: "pr_kind r \<noteq> ''reaction''" using assms(4) by simp
  have id: "pr_id r = oid" using scan_pending_fields(1) [OF assms(2)] row_by_Some_in [OF assms(1)] by simp
  have t: "st (turn w oid b) = record_sent w r ?j resp ''text'' None None None ?s"
    using assms(1,2,4,6)
    by (simp add: turn_def plain_turn [OF assms(3) kind assms(5)] build_and_send_def build_row_def
        buildOutboundMessage_def send_proto_def Let_def with_quote_def)
  have "replies ?s = Fails e # rs" using assms(7) by simp
  from record_unstamped [OF this] show ?thesis by (simp add: t no_send.R_record_sent [OF refl] id)
qed

text \<open>A turn in which the first statement, which is the stamp, fails.\<close>

definition unstamped :: "wa \<Rightarrow> int \<Rightarrow> go_error \<Rightarrow> bridge \<Rightarrow> bridge" where
  "unstamped w oid e b = turn w oid (b\<lparr>st := (st b)\<lparr>replies := [Fails e]\<rparr>\<rparr>)"

text \<open>C21: A text that is sent while its row cannot be stamped stays as it was, with no attempt counted: every further turn sends the message again, without a limit.\<close>

theorem unstamped_row_is_resent:
  assumes "row_by o_id oid (wa_outbound (st b)) = Some x" "scan_pending True x = Some r"
    and "parse_jid w (pr_chat_jid r) = Inr chat" "pr_kind r = ''text''"
    and "null_str (pr_quoted_message_id r) = ''''" "\<And>h m. send_message w h chat m = Inr resp"
  shows "wa_outbound (st ((unstamped w oid e ^^ n) b)) = wa_outbound (st b) \<and>
    sends (st ((unstamped w oid e ^^ n) b)) = sends (st b) @ replicate n (WaSendRow oid (jid_string w chat))"
proof (induction n)
  case (Suc n)
  let ?b = "(unstamped w oid e ^^ n) b"
  let ?c = "?b\<lparr>st := (st ?b)\<lparr>replies := [Fails e]\<rparr>\<rparr>"
  have row: "row_by o_id oid (wa_outbound (st ?c)) = Some x" using Suc.IH assms(1) by simp
  have rep: "replies (st ?c) = [Fails e]" by simp
  have same: "wa_outbound (st ?c) = wa_outbound (st b)" "sends (st ?c) = sends (st ?b)"
    using Suc.IH by (simp_all add: sends_def)
  show ?case
    using unstamped_turn [OF row assms(2-6) rep] Suc.IH same
    by (simp add: unstamped_def [of w oid e ?b] replicate_append_same)
qed simp

theorem unstamped_row_is_resent_witness:
  "wa_outbound (st ((unstamped sample_wa 7 (ErrText ''read only'') ^^ 3) pending_bridge)) = [pending_db_row] \<and>
   sends (st ((unstamped sample_wa 7 (ErrText ''read only'') ^^ 3) pending_bridge)) =
     sends (st pending_bridge) @ replicate 3 (WaSendRow 7 ''a'')"
proof -
  have row: "row_by o_id 7 (wa_outbound (st pending_bridge)) = Some pending_db_row"
    by (simp add: pending_bridge_def pending_db_row_def sample_outbound_def)
  have scan: "scan_pending True pending_db_row = Some (sample_pending ''text'' ''hi'')"
    by (simp add: scan_pending_def pending_db_row_def sample_outbound_def sample_pending_def)
  have rest: "pr_kind (sample_pending ''text'' ''hi'') = ''text''"
    "null_str (pr_quoted_message_id (sample_pending ''text'' ''hi'')) = ''''"
    "pr_chat_jid (sample_pending ''text'' ''hi'') = ''a''"
    by (simp_all add: sample_pending_def)
  show ?thesis
    using unstamped_row_is_resent [OF row scan sample_calls(1) rest(1,2) sample_calls(2), where e = "ErrText ''read only''" and n = 3]
    by (simp add: rest(3) sample_calls(3) pending_bridge_def)
qed

end
