(* ===== verification/TestDb.thy ===== *)
theory TestDb
  imports GoText
begin

text \<open>
  The in-memory SQL driver of \<open>internal/testdb/testdb.go\<close>: it records every statement and lets a
  handler answer it. \<open>database/sql\<close> around it is not modelled, except that it reads rows with
  \<open>Next\<close> into one value per column until the end. The handler is a closure of a test: it has a
  state of its own, which is an argument.
\<close>

section \<open>Statements and answers\<close>

record 'v call =
  k_query :: string
  k_args :: "'v list"
  k_is_query :: bool

record 'v answer =
  w_err :: "go_error option"
  w_cols :: "string list"
  w_rows :: "'v list list"
  w_no_rows_affected :: bool

definition empty_answer :: "'v answer" where
  "empty_answer = \<lparr>w_err = None, w_cols = [], w_rows = [], w_no_rows_affected = False\<rparr>"

record ('v, 's) testdb =
  d_calls :: "'v call list"
  d_handler :: "('v call \<Rightarrow> 's \<Rightarrow> 'v answer \<times> 's) option"
  d_state :: 's

definition New :: "('v call \<Rightarrow> 's \<Rightarrow> 'v answer \<times> 's) option \<Rightarrow> 's \<Rightarrow> ('v, 's) testdb" where
  "New h s = \<lparr>d_calls = [], d_handler = h, d_state = s\<rparr>"

definition Calls :: "('v, 's) testdb \<Rightarrow> 'v call list" where
  "Calls d = d_calls d"

definition Reset :: "('v, 's) testdb \<Rightarrow> ('v, 's) testdb" where
  "Reset d = d\<lparr>d_calls := []\<rparr>"

text \<open>\<open>strings.Fields\<close> on the runes of a text, and \<open>Norm\<close>.\<close>

fun words_from :: "string list \<Rightarrow> string list \<Rightarrow> string list list" where
  "words_from w [] = (if w = [] then [] else [w])"
| "words_from w (k # ks) =
     (if is_space k then (if w = [] then [] else [w]) @ words_from [] ks else words_from (w @ [k]) ks)"

definition Fields :: "string \<Rightarrow> string list" where
  "Fields q = map concat (words_from [] (chunks q))"

definition Norm :: "string \<Rightarrow> string" where
  "Norm q = join '' '' (Fields q)"

definition run :: "string \<Rightarrow> 'v list \<Rightarrow> bool \<Rightarrow> ('v, 's) testdb \<Rightarrow> 'v answer \<times> ('v, 's) testdb" where
  "run q args is_query d =
     (let c = \<lparr>k_query = Norm q, k_args = args, k_is_query = is_query\<rparr>;
          d1 = d\<lparr>d_calls := d_calls d @ [c]\<rparr>
      in case d_handler d of
           None \<Rightarrow> (empty_answer, d1)
         | Some h \<Rightarrow> (case h c (d_state d) of (r, s) \<Rightarrow> (r, d1\<lparr>d_state := s\<rparr>)))"

definition ExecContext :: "string \<Rightarrow> 'v list \<Rightarrow> ('v, 's) testdb \<Rightarrow> int res \<times> ('v, 's) testdb" where
  "ExecContext q args d =
     (case run q args False d of
        (r, d1) \<Rightarrow>
          ((case w_err r of
              Some e \<Rightarrow> Inl e
            | None \<Rightarrow> Inr (if w_no_rows_affected r then 0 else 1)), d1))"

record 'v cursor =
  r_cols :: "string list"
  r_data :: "'v list list"
  r_i :: nat

definition QueryContext :: "string \<Rightarrow> 'v list \<Rightarrow> ('v, 's) testdb \<Rightarrow> 'v cursor res \<times> ('v, 's) testdb" where
  "QueryContext q args d =
     (case run q args True d of
        (r, d1) \<Rightarrow>
          ((case w_err r of
              Some e \<Rightarrow> Inl e
            | None \<Rightarrow> Inr \<lparr>r_cols = w_cols r, r_data = w_rows r, r_i = 0\<rparr>), d1))"

text \<open>\<open>rows.Next\<close>: \<open>copy\<close> fills as much of \<open>dest\<close> as the row has; \<open>None\<close> is \<open>io.EOF\<close>.\<close>

definition rows_Next :: "'v list \<Rightarrow> 'v cursor \<Rightarrow> ('v list \<times> 'v cursor) option" where
  "rows_Next dest r =
     (if length (r_data r) \<le> r_i r then None
      else
        (let row = r_data r ! r_i r
         in Some (take (length dest) row @ drop (length row) dest, r\<lparr>r_i := r_i r + 1\<rparr>)))"

text \<open>\<open>database/sql\<close> reads on until the end; \<open>nil\<close> stands in a fresh \<open>dest\<close>.\<close>

function read_rows :: "'v \<Rightarrow> 'v cursor \<Rightarrow> 'v list list" where
  "read_rows nil r =
     (case rows_Next (replicate (length (r_cols r)) nil) r of
        None \<Rightarrow> []
      | Some (row, r1) \<Rightarrow> row # read_rows nil r1)"
  by auto
termination
  by (relation "measure (\<lambda>(_, r). length (r_data r) - r_i r)")
    (auto simp: rows_Next_def Let_def split: if_splits)

declare read_rows.simps [simp del]

section \<open>Normal forms\<close>

definition word_ok :: "string list \<Rightarrow> bool" where
  "word_ok w \<longleftrightarrow> w \<noteq> [] \<and> (\<forall>k \<in> set w. wf_seq k \<and> \<not> is_space k)"

lemma words_from_ok:
  "\<forall>k \<in> set ks. wf_seq k \<Longrightarrow> \<forall>k \<in> set w. wf_seq k \<and> \<not> is_space k \<Longrightarrow> \<forall>v \<in> set (words_from w ks). word_ok v"
proof (induction w ks rule: words_from.induct)
  case (1 w)
  then show ?case by (simp add: word_ok_def)
next
  case (2 w k ks)
  show ?case
  proof (cases "is_space k")
    case True
    have "\<forall>v \<in> set (words_from [] ks). word_ok v" using 2(1) [OF True] 2(3) by simp
    then show ?thesis using True 2(4) by (auto simp: word_ok_def)
  next
    case False
    then show ?thesis using 2(2) [OF False] 2(3,4) by simp
  qed
qed

text \<open>The runes of words that stand one space apart.\<close>

fun spaced :: "string list list \<Rightarrow> string list" where
  "spaced [] = []"
| "spaced [w] = w"
| "spaced (w # ws) = w @ '' '' # spaced ws"

lemma concat_spaced: "concat (spaced ws) = join '' '' (map concat ws)"
  by (induction ws rule: spaced.induct) simp_all

lemma space_wf: "wf_seq '' ''"
  by (simp add: wf_seq_def byte_def)

lemma space_is_space: "is_space '' ''"
proof -
  have "CHR '' '' = char_of (32 :: nat)" by code_simp
  then show ?thesis by (simp add: is_space_def space_runes_def)
qed

lemma spaced_wf: "\<forall>v \<in> set ws. word_ok v \<Longrightarrow> \<forall>k \<in> set (spaced ws). wf_seq k"
  by (induction ws rule: spaced.induct) (auto simp: word_ok_def space_wf)

lemma words_from_word: "\<forall>k \<in> set v. \<not> is_space k \<Longrightarrow> words_from w (v @ ks) = words_from (w @ v) ks"
  by (induction v arbitrary: w) simp_all

lemma words_spaced: "\<forall>v \<in> set ws. word_ok v \<Longrightarrow> words_from [] (spaced ws) = ws"
proof (induction ws rule: spaced.induct)
  case (2 w)
  then show ?case using words_from_word [of w "[]" "[]"] by (simp add: word_ok_def)
next
  case (3 w v vs)
  then show ?case by (simp add: words_from_word word_ok_def space_is_space)
qed simp

lemma Fields_Norm:
  assumes "valid_utf8 q"
  shows "Fields (Norm q) = Fields q"
proof -
  let ?ws = "words_from [] (chunks q)"
  have ok: "\<forall>v \<in> set ?ws. word_ok v"
    using assms words_from_ok [of "chunks q" "[]"] by (simp add: valid_utf8_iff)
  have "chunks (Norm q) = spaced ?ws"
    using chunks_concat [OF spaced_wf [OF ok]] by (simp add: Norm_def Fields_def concat_spaced)
  then show ?thesis by (simp add: Fields_def words_spaced [OF ok])
qed

lemma Norm_idem: "valid_utf8 q \<Longrightarrow> Norm (Norm q) = Norm q"
  using Fields_Norm [of q] by (simp add: Norm_def [of "Norm q"] Norm_def [of q, symmetric])

section \<open>Rows and recordings\<close>

lemma read_rows_all:
  "\<forall>row \<in> set (r_data r). length row = length (r_cols r) \<Longrightarrow> read_rows nil r = drop (r_i r) (r_data r)"
proof (induction nil r rule: read_rows.induct)
  case (1 nil r)
  show ?case
  proof (cases "length (r_data r) \<le> r_i r")
    case True
    then show ?thesis by (simp add: read_rows.simps [of nil r] rows_Next_def)
  next
    case False
    let ?dest = "replicate (length (r_cols r)) nil" and ?r1 = "r\<lparr>r_i := r_i r + 1\<rparr>"
    have len: "length (r_data r ! r_i r) = length (r_cols r)" using 1(2) False by simp
    have next_row: "rows_Next ?dest r = Some (r_data r ! r_i r, ?r1)"
      using False len by (simp add: rows_Next_def Let_def)
    have "read_rows nil ?r1 = drop (r_i ?r1) (r_data ?r1)"
      using 1(1) [OF next_row refl] 1(2) by simp
    then show ?thesis
      using False next_row Cons_nth_drop_Suc [of "r_i r" "r_data r"] by (simp add: read_rows.simps [of nil r])
  qed
qed

datatype 'v statement = Exec string "'v list" | Query string "'v list"

primrec statement_run :: "'v statement \<Rightarrow> ('v, 's) testdb \<Rightarrow> ('v, 's) testdb" where
  "statement_run (Exec q args) d = snd (ExecContext q args d)"
| "statement_run (Query q args) d = snd (QueryContext q args d)"

primrec statement_call :: "'v statement \<Rightarrow> 'v call" where
  "statement_call (Exec q args) = \<lparr>k_query = Norm q, k_args = args, k_is_query = False\<rparr>"
| "statement_call (Query q args) = \<lparr>k_query = Norm q, k_args = args, k_is_query = True\<rparr>"

lemma run_records: "d_calls (snd (run q args b d)) =
    d_calls d @ [\<lparr>k_query = Norm q, k_args = args, k_is_query = b\<rparr>]"
  by (simp add: run_def Let_def split: option.split prod.split)

lemma statement_records: "d_calls (statement_run x d) = d_calls d @ [statement_call x]"
proof (cases x)
  case (Exec q args)
  then show ?thesis
    using run_records [of q args False d] by (cases "run q args False d") (simp add: ExecContext_def)
next
  case (Query q args)
  then show ?thesis
    using run_records [of q args True d] by (cases "run q args True d") (simp add: QueryContext_def)
qed

lemma fold_records: "d_calls (fold statement_run xs d) = d_calls d @ map statement_call xs"
  by (induction xs arbitrary: d) (simp_all add: statement_records)

text \<open>After a reset the recording is the statements run since, in order, with their texts normalised; and a query whose rows fit its columns reads as all of them.\<close>

theorem testdb_records_and_reads:
  "Calls (fold statement_run xs (Reset d)) = map statement_call xs"
  "fst (QueryContext q args d) = Inr r \<Longrightarrow> \<forall>row \<in> set (r_data r). length row = length (r_cols r) \<Longrightarrow>
    read_rows nil r = r_data r"
proof -
  show "Calls (fold statement_run xs (Reset d)) = map statement_call xs"
    by (simp add: Calls_def Reset_def fold_records)
  assume q: "fst (QueryContext q args d) = Inr r" and fit: "\<forall>row \<in> set (r_data r). length row = length (r_cols r)"
  have "r_i r = 0"
    using q by (auto simp: QueryContext_def split: prod.splits option.splits)
  then show "read_rows nil r = r_data r" using read_rows_all [OF fit, of nil] by simp
qed

end
