(* ===== verification/Machine.thy ===== *)
theory Machine
  imports SendLaws CheckNumber
begin

text \<open>
  The bridge as one machine: every loop and handler of the program, the web application, the
  network, time and restarts interleave in any order. Every step keeps the tables well-formed
  and every stored message in its place.
\<close>

section \<open>The log of messages in the other loops\<close>

lemma log_emit: "log_grows s (emit e s)"
  by (simp add: log_grows_def emit_def)

lemma log_cold_calls:
  "log_grows s (snd (UpsertChat c s))"
  "log_grows s (snd (UpdateProfilePic j u s))"
  "log_grows s (snd (MarkNewChatSent oid i s))"
  "log_grows s (snd (SetOutboundChat oid j s))"
  "log_grows s (snd (ClaimNewChatMessageID oid i s))"
proof -
  show "log_grows s (snd (UpsertChat c s))" "log_grows s (snd (UpdateProfilePic j u s))"
    by (rule log_same_messages, simp add: messages.view_chat_methods)+
  have "wa_messages (snd (MarkNewChatSent oid i s)) = wa_messages s"
    by (auto simp: MarkNewChatSent_def update_outbound_def
        intro!: messages.frame_Fallback messages.frame_exec)
  then show "log_grows s (snd (MarkNewChatSent oid i s))" by (rule log_same_messages)
  have "wa_messages (snd (SetOutboundChat oid j s)) = wa_messages s"
    "wa_messages (snd (ClaimNewChatMessageID oid i s)) = wa_messages s"
    by (auto simp: SetOutboundChat_def ClaimNewChatMessageID_def intro!: messages.frame_exec)
  then show "log_grows s (snd (SetOutboundChat oid j s))"
    "log_grows s (snd (ClaimNewChatMessageID oid i s))"
    by (auto intro: log_same_messages)
qed

section \<open>Pairing and typing\<close>

text \<open>
  A view that does not depend on \<open>wa_pairing\<close> and \<open>wa_typing_outbound\<close>: neither the writers
  of the pairing row nor the two transactions change it.
\<close>

locale beside_requests = store_view view for view :: "store \<Rightarrow> 'v" +
  assumes view_pairing_row: "view (s\<lparr>wa_pairing := p\<rparr>) = view s"
    and view_typing_rows: "view (s\<lparr>wa_typing_outbound := ts\<rparr>) = view s"
begin

lemma view_exec:
  assumes "exec m c stmt s = (x, s1)" "\<And>s. view (snd (stmt s)) = view s"
  shows "view s1 = view s"
proof -
  have "view (snd (exec m c stmt s)) = view s"
    by (rule frame_exec) (rule assms(2))
  then show ?thesis by (simp add: assms(1))
qed

lemma view_Drain: "view (snd (DrainTypingOutbound n s)) = view s"
proof -
  have cm: "view s1 = view s" if "commit_typing s0 s = (x, s1)" for s0 s x s1
    using that unfolding commit_typing_def Let_def
    by (drule_tac view_exec) (simp_all add: typing_rollback_def set_typing_def view_typing_rows)
  show ?thesis
    by (auto simp: DrainTypingOutbound_def typing_rollback_def set_typing_def view_typing_rows
        split: prod.split sum.split dest!: cm view_exec)
qed

lemma view_Consume: "view (snd (ConsumeResetRequest s)) = view s"
proof -
  have cm: "view s1 = view s" if "commit_pairing s0 s = (x, s1)" for s0 s x s1
    using that unfolding commit_pairing_def Let_def
    by (drule_tac view_exec) (simp_all add: pairing_rollback_def view_pairing_row)
  show ?thesis
    by (auto simp: ConsumeResetRequest_def pairing_rollback_def set_pairing_def view_pairing_row
        split: prod.split sum.split option.split dest!: cm view_exec)
qed

lemma view_pairing:
  "view (snd (SetPaired j s)) = view s" "view (snd (SetQRCode now q v s)) = view s"
  "view (snd (SetEvent x m s)) = view s" "view (snd (Heartbeat s)) = view s"
  "view (snd (SetSessionLost now r s)) = view s"
  unfolding SetPaired_def SetQRCode_def SetEvent_def Heartbeat_def SetSessionLost_def
  by (auto simp: set_pairing_def view_pairing_row intro!: frame_Fallback frame_exec)

lemmas view_request_methods = view_Drain view_Consume view_pairing

end

interpretation messages_r: beside_requests wa_messages
  by unfold_locales simp_all

section \<open>A tick for new chats\<close>

text \<open>A relation that the methods called for a cold message keep is kept by the tick.\<close>

locale cold_frame = store_frame R for R :: "store \<Rightarrow> store \<Rightarrow> bool" +
  assumes R_upsert: "R s (snd (UpsertChat c s))"
    and R_insert: "R s (snd (InsertMessage m s))"
    and R_stamp: "R s (snd (MarkNewChatSent oid i s))"
    and R_set_chat: "R s (snd (SetOutboundChat oid j s))"
    and R_claim: "R s (snd (ClaimNewChatMessageID oid i s))"
    and R_fail: "R s (failNewChat oid code detail s)"
    and R_attempt: "R s (markAttempt oid n code detail s)"
    and R_call: "R s (emit (WaLookup oid phone) s)" "R s (emit (WaSend oid target i) s)"
begin

lemmas R_retried = frame_storeRetry [OF R_upsert] frame_storeRetry [OF R_insert]
  frame_storeRetry [OF R_stamp] frame_storeRetry [OF R_set_chat]

lemma R_finish_writes: "R s (finish_writes oid w s)"
proof -
  obtain x s1 where u: "storeRetry (UpsertChat (w_chat w)) s = (x, s1)" by (rule prod.exhaust)
  have "R s (snd (storeRetry (UpsertChat (w_chat w)) s))" by (rule R_retried)
  then have 1: "R s s1" by (simp add: u)
  have "R s1 (snd (storeRetry (SetOutboundChat oid (ch_jid (w_chat w)))
      (snd (storeRetry (InsertMessage (w_msg w)) s1))))"
    using R_retried(2,4) by (rule R_trans)
  with 1 show ?thesis by (cases x) (auto simp: finish_writes_def u intro: R_trans)
qed

lemma R_finishNewChat: "R (st b) (st (finishNewChat oid w b))"
proof -
  obtain x s1 where u: "storeRetry (MarkNewChatSent oid (w_wa_id w)) (st b) = (x, s1)"
    by (rule prod.exhaust)
  have "R (st b) (snd (storeRetry (MarkNewChatSent oid (w_wa_id w)) (st b)))" by (rule R_retried)
  then have 1: "R (st b) s1" by (simp add: u)
  show ?thesis
    using 1 R_trans [OF 1 R_finish_writes] by (cases x) (simp_all add: finishNewChat_def u)
qed

lemma R_send_claimed: "R (st b) (st (send_claimed w target hit r waID b))"
proof -
  let ?s1 = "emit (WaSend (n_id r) (jid_string w target) waID) (st b)"
  have f: "R ?s1 (st (finishNewChat oid wr (b\<lparr>st := ?s1, sent_map := m\<rparr>)))" for oid wr m
    using R_finishNewChat [of "b\<lparr>st := ?s1, sent_map := m\<rparr>" oid wr] by simp
  have "R (st b) (markAttempt (n_id r) (n_attempts r) codeSendFailed e ?s1)" for e
    using R_call(2) R_attempt by (rule R_trans)
  moreover have "R (st b) (st (finishNewChat oid wr (b\<lparr>st := ?s1, sent_map := m\<rparr>)))" for oid wr m
    using R_call(2) f by (rule R_trans)
  ultimately show ?thesis by (simp add: send_claimed_def Let_def split: sum.split)
qed

lemma R_claim_and_send: "R (st b) (st (claim_and_send w target hit r b))"
proof -
  obtain x s1 where c: "ClaimNewChatMessageID (n_id r) (new_message_id w (trace (st b))) (st b) = (x, s1)"
    by (rule prod.exhaust)
  have 1: "R (st b) s1"
    using R_claim [of "st b" "n_id r" "new_message_id w (trace (st b))"] by (simp add: c)
  have "R s1 (st (send_claimed w target hit r i (b\<lparr>st := s1\<rparr>)))" for i
    using R_send_claimed [of "b\<lparr>st := s1\<rparr>"] by simp
  with 1 have "R (st b) (st (send_claimed w target hit r i (b\<lparr>st := s1\<rparr>)))" for i by (rule R_trans)
  then show ?thesis
    using 1
    by (cases x) (simp_all add: claim_and_send_def c Let_def R_send_claimed)
qed

lemma R_lookup_and_send: "R (st b) (st (lookup_and_send w r phone b))"
proof -
  let ?s = "emit (WaLookup (n_id r) phone) (st b)"
  let ?b1 = "b\<lparr>last_lookup := Some (wall b), st := ?s\<rparr>"
  have c: "R ?s (st (claim_and_send w t hit r ?b1))" for t hit
    using R_claim_and_send [of ?b1] by simp
  have "R (st b) (st (claim_and_send w t hit r ?b1))" for t hit
    using R_call(1) c by (rule R_trans)
  moreover have "R (st b) (markAttempt (n_id r) n code e ?s)" "R (st b) (failNewChat (n_id r) code e ?s)"
    for n code e by (rule R_trans [OF R_call(1) R_attempt] R_trans [OF R_call(1) R_fail])+
  ultimately show ?thesis
    by (simp add: lookup_and_send_def Let_def split: prod.split list.split option.split)
qed

lemma R_processNewChats: "R (st b) (st (processNewChats w b))"
proof -
  obtain x s1 where q: "Fallback featureNewChat queryResolveOutbound None None (st b) = (x, s1)"
    by (rule prod.exhaust)
  have "R (st b) (snd (Fallback featureNewChat queryResolveOutbound None None (st b)))"
    by (auto simp: queryResolveOutbound_def intro!: frame_Fallback frame_selects)
  then have 1: "R (st b) s1" by (simp add: q)
  have 2: "R s1 (st (sendNewChatRow w r (b\<lparr>st := s1\<rparr>)))" for r
    using R_finishNewChat [of "b\<lparr>st := s1\<rparr>"] R_lookup_and_send [of "b\<lparr>st := s1\<rparr>"]
    by (simp add: sendNewChatRow_def R_fail split: option.split)
  show ?thesis
    using 1 R_trans [OF 1 2] by (simp add: processNewChats_def q R_refl split: sum.split option.split)
qed

end

interpretation cold_log: cold_frame log_grows
  by unfold_locales
    (simp_all add: log_cold_calls log_InsertMessage log_emit failNewChat_def log_send.R_fail
      log_send.R_markAttempt)

section \<open>The other loops\<close>

text \<open>A relation that the methods of events, typing, pictures, pairing and number checks keep.\<close>

locale loops_frame = event_frame R for R :: "store \<Rightarrow> store \<Rightarrow> bool" +
  assumes R_picture: "R s (snd (UpdateProfilePic j u s))"
    and R_drain: "R s (snd (DrainTypingOutbound n s))"
    and R_presence: "R s (emit (WaPresence j state) s)"
    and R_paired: "R s (snd (SetPaired j s))"
    and R_qr: "R s (snd (SetQRCode now q v s))"
    and R_event: "R s (snd (SetEvent x m s))"
    and R_reset: "R s (snd (ConsumeResetRequest s))"
    and R_logout: "R s (emit WaLogout s)"
    and R_checked: "set es \<subseteq> range WaCheck \<Longrightarrow> R s (s\<lparr>trace := trace s @ es\<rparr>)"
begin

lemma R_foldl:
  assumes "\<And>x s. R s (g s x)"
  shows "R s (foldl g s xs)"
proof (induction xs arbitrary: s)
  case (Cons x xs)
  show ?case using R_trans [OF assms Cons.IH] by simp
qed (simp add: R_refl)

lemma R_typing_tick: "R (st b) (st (typing_tick w b))"
proof -
  obtain x s1 where q: "DrainTypingOutbound 25 (st b) = (x, s1)" by (rule prod.exhaust)
  have 1: "R (st b) s1" using R_drain [of "st b" 25] by (simp add: q)
  have "R s (send_typing w r s)" for s r
    by (simp add: send_typing_def R_refl R_presence split: sum.split option.split)
  then have 2: "R s1 (foldl (\<lambda>s r. send_typing w r s) s1 rs)" for rs by (rule R_foldl)
  show ?thesis
    using 1 R_trans [OF 1 2]
    by (simp add: typing_tick_def flushTypingOutbound_def q R_refl split: sum.split)
qed

lemma R_picture_tick: "R (st b) (st (picture_tick w n b))"
proof -
  obtain x s1 where q: "FindStaleProfilePics (18 * hour) 30 (st b) = (x, s1)" by (rule prod.exhaust)
  have "R (st b) (snd (FindStaleProfilePics (18 * hour) 30 (st b)))"
    by (simp add: FindStaleProfilePics_def frame_selects)
  then have 1: "R (st b) s1" by (simp add: q)
  have "R s (refresh_picture w j s)" for s j
    by (simp add: refresh_picture_def R_refl R_picture split: sum.split)
  then have 2: "R s1 (foldl (\<lambda>s j. refresh_picture w j s) s1 js)" for js by (rule R_foldl)
  show ?thesis
    using 1 R_trans [OF 1 2]
    by (simp add: picture_tick_def refreshStaleProfilePics_def q R_refl split: sum.split)
qed

lemma R_session:
  "R (st b) (st (qr_step w q b))" "R (st b) (st (snd (Start w b)))"
  "R (st b) (st (snd (reset_tick b)))" "R (st b) (st (snd (connection_tick w b)))"
proof -
  have paired: "R (st b) (st (set_paired w b))" for b
    by (simp add: set_paired_def R_refl R_paired split: option.split)
  have fatal: "st (signalFatal e b) = st b" for e b by (simp add: signalFatal_def split: option.split)
  show "R (st b) (st (qr_step w q b))"
    by (simp add: qr_step_def fatal paired R_qr R_event split: qr_event.split)
  show "R (st b) (st (snd (Start w b)))"
    by (simp add: Start_def Let_def R_refl paired split: option.split sum.split)
  show "R (st b) (st (snd (connection_tick w b)))"
    using R_heartbeat [of "st b"]
    by (simp add: connection_tick_def heartbeat_def R_refl split: option.split)
  obtain x e s1 where c: "ConsumeResetRequest (st b) = ((x, e), s1)" by (metis prod.exhaust)
  have 1: "R (st b) s1" using R_reset [of "st b"] by (simp add: c)
  show "R (st b) (st (snd (reset_tick b)))"
    using 1 R_trans [OF 1 R_trans [OF R_lost R_logout]]
    by (simp add: reset_tick_def c recordSessionLost_def unlink_device_def)
qed

lemma R_check:
  assumes "answerCheckRequest c w (d, s) = (d', s')"
  shows "R s s'"
proof -
  obtain es where "snd (answerCheckRequest c w (d, s)) = s\<lparr>trace := trace s @ es\<rparr>"
    "set es \<subseteq> range WaCheck"
    using answer_keeps_tables by blast
  then show ?thesis using R_checked assms by simp
qed

lemmas R_loops = R_handleEvent R_typing_tick R_picture_tick R_online_tick R_session R_check

end

section \<open>What every loop keeps\<close>

text \<open>
  The tables stay well-formed and the log of messages only grows.
\<close>

definition keeps :: "store \<Rightarrow> store \<Rightarrow> bool" where
  "keeps s s' \<longleftrightarrow> (tables_ok s \<longrightarrow> tables_ok s') \<and> log_grows s s'"

lemma keepsI: "evolves s s' \<Longrightarrow> log_grows s s' \<Longrightarrow> keeps s s'"
  by (simp add: keeps_def evolves_def)

lemma keeps_other:
  "wa_messages s' = wa_messages s \<Longrightarrow> (tables_ok s \<Longrightarrow> tables_ok s') \<Longrightarrow> keeps s s'"
  by (simp add: keeps_def log_same_messages)

lemma keeps_same: "evolves s s' \<Longrightarrow> wa_messages s' = wa_messages s \<Longrightarrow> keeps s s'"
  by (rule keepsI) (simp_all add: log_same_messages)

lemmas keeps_events =
  keepsI [OF safe_events.R_insert log_events.R_insert] keepsI [OF safe_events.R_locate log_events.R_locate]
  keepsI [OF safe_events.R_edit log_events.R_edit] keepsI [OF safe_events.R_revoke log_events.R_revoke]
  keepsI [OF safe_events.R_reaction log_events.R_reaction] keepsI [OF safe_events.R_tail log_events.R_tail]
  keepsI [OF safe_events.R_upsert log_events.R_upsert] keepsI [OF safe_events.R_typing log_events.R_typing]
  keepsI [OF safe_events.R_clear_typing log_events.R_clear_typing]
  keepsI [OF safe_events.R_unread log_events.R_unread] keepsI [OF safe_events.R_status log_events.R_status]
  keepsI [OF safe_events.R_online log_events.R_online]
  keepsI [OF safe_events.R_heartbeat log_events.R_heartbeat] keepsI [OF safe_events.R_lost log_events.R_lost]

lemmas keeps_requests =
  keeps_same [OF evolves_DrainTypingOutbound messages_r.view_Drain]
  keeps_same [OF evolves_ConsumeResetRequest messages_r.view_Consume]
  keeps_same [OF evolves_SetPaired messages_r.view_pairing(1)]
  keeps_same [OF evolves_SetQRCode messages_r.view_pairing(2)]
  keeps_same [OF evolves_SetEvent messages_r.view_pairing(3)]
  keeps_same [OF evolves_UpdateProfilePic messages.view_UpdateProfilePic]

interpretation keeping: store_frame keeps
proof
  show "keeps s s" for s by (simp add: keeps_def log.R_refl)
  show "keeps s s''" if "keeps s s'" "keeps s' s''" for s s' s''
    using that log.R_trans unfolding keeps_def by blast
  show "keeps s (sent_off n s)" for n s by (simp add: keeps_def log.R_sent_off)
  show "keeps s (switch_off f s)" for f s
    using evolves_switch_off [of s f] by (simp add: keeps_def evolves_def log.R_switch_off)
qed

interpretation keeping: loops_frame keeps
proof unfold_locales
  show "keeps s (emit (WaPresence j state) s)" for s j state by (simp add: keepsI log_emit)
  show "keeps s (emit WaLogout s)" for s by (simp add: keepsI log_emit)
  show "keeps s (s\<lparr>trace := trace s @ es\<rparr>)" for s es
    by (rule keeps_other) (simp_all add: tables_ok_def)
qed (rule keeps_events keeps_requests)+

lemma keeps_outbound: "keeps (st b) (st (outbound_tick w b))"
proof -
  obtain x s1 where q: "pending_batch (st b) = (x, s1)" by (rule prod.exhaust)
  have "keeps (st b) (snd (pending_batch (st b)))"
    by (auto simp: pending_batch_def queryPendingOutbound_def
        intro!: keeping.frame_Fallback keeping.frame_selects)
  then have 1: "keeps (st b) s1" by (simp add: q)
  have row: "keeps (st b) (st (sendOutboundRow w r b))" for r b
    by (rule keepsI) (rule safe_send.R_sendOutboundRow log_send.R_sendOutboundRow, rule refl)+
  have rows: "keeps (st b) (st (foldl (\<lambda>b r. sendOutboundRow w r b) b rs))" for rs b
  proof (induction rs arbitrary: b)
    case (Cons r rs)
    show ?case using keeping.R_trans [OF row Cons.IH] by simp
  qed (simp add: keeping.R_refl)
  then have 2: "keeps s1 (st (foldl (\<lambda>b r. sendOutboundRow w r b) (b\<lparr>st := s1\<rparr>) rs))" for rs
    using rows [of "b\<lparr>st := s1\<rparr>" rs] by simp
  have 3: "keeps (st b) (st (processNewChats w b))" for b
    by (rule keepsI) (rule evolves_processNewChats cold_log.R_processNewChats)+
  show ?thesis
    using 1 keeping.R_trans [OF 1 keeping.R_trans [OF 2 3]]
    by (simp add: outbound_tick_def processOutboundBatch_def q keeping.R_refl split: sum.split)
qed

section \<open>The machine\<close>

text \<open>
  What \<open>New\<close> builds in a process that starts over on the tables and the server of another one:
  nothing is remembered of the loops, the features and the messages sent.
\<close>

definition new_bridge :: "bridge \<Rightarrow> bridge" where
  "new_bridge b = b\<lparr>last_lookup := None, sent_map := (\<lambda>_. None), fatal := None, disconnected_since := None,
     online_loops := 0, files := (files b)\<lparr>ensured_ok := False\<rparr>, st := (st b)\<lparr>off := {}, logged := []\<rparr>\<rparr>"

text \<open>
  One step: a loop of the program ticks, WhatsApp delivers an event or a QR code, the command
  line touches the check files, the process restarts with its memory gone, time passes, the
  network decides how the next statements and file operations end, a migration changes the
  columns, or the web application writes one of the tables it owns: it queues a row of
  \<open>wa_outbound\<close> for a chat that exists, edits one without touching its message ID (a row
  that has one is not put back to pending), asks for typing, marks chats, asks for a reset.
\<close>

inductive bridge_step ::
  "codec \<Rightarrow> wa \<Rightarrow> bridge \<times> check_dir \<Rightarrow> bridge \<times> check_dir \<Rightarrow> bool" for c :: codec and w :: wa where
  arrives: "bridge_step c w (b, d) (handleEvent w e b, d)"
| sends: "bridge_step c w (b, d) (outbound_tick w b, d)"
| types: "bridge_step c w (b, d) (typing_tick w b, d)"
| pictures: "bridge_step c w (b, d) (picture_tick w n b, d)"
| stays_online: "bridge_step c w (b, d) (online_tick w b, d)"
| connects: "bridge_step c w (b, d) (snd (Start w b), d)"
| pairs: "bridge_step c w (b, d) (qr_step w q b, d)"
| resets: "bridge_step c w (b, d) (snd (reset_tick b), d)"
| watches: "bridge_step c w (b, d) (snd (connection_tick w b), d)"
| checks: "answerCheckRequest c w (d, st b) = (d', s') \<Longrightarrow> bridge_step c w (b, d) (b\<lparr>st := s'\<rparr>, d')"
| files_change: "bridge_step c w (b, d) (b, d')"
| restarts: "bridge_step c w (b, d) (new_bridge b, d)"
| time_passes: "0 \<le> t \<Longrightarrow> bridge_step c w (b, d) (b\<lparr>wall := wall b + t,
    st := (st b)\<lparr>utc_now := utc_now (st b) + t, server_now := server_now (st b) + t\<rparr>\<rparr>, d)"
| network: "bridge_step c w (b, d)
    (b\<lparr>st := (st b)\<lparr>replies := rs\<rparr>, files := (files b)\<lparr>sftp_replies := fs\<rparr>\<rparr>, d)"
| migration: "bridge_step c w (b, d) (b\<lparr>st := (st b)\<lparr>missing_columns := cols\<rparr>\<rparr>, d)"
| web_queues: "o_id r \<notin> o_id ` set (wa_outbound (st b)) \<Longrightarrow>
    o_chat_jid r \<in> insert None (Some ` c_jid ` set (wa_chats (st b))) \<Longrightarrow>
    o_whatsapp_message_id r = None \<Longrightarrow>
    bridge_step c w (b, d) (b\<lparr>st := set_outbound (\<lambda>rs. rs @ [r]) (st b)\<rparr>, d)"
| web_edits: "(\<And>r. o_id (f r) = o_id r \<and> o_chat_jid (f r) = o_chat_jid r \<and>
      o_whatsapp_message_id (f r) = o_whatsapp_message_id r \<and>
      (o_status (f r) = ''pending'' \<longrightarrow> o_status r = ''pending'' \<or> o_whatsapp_message_id r = None)) \<Longrightarrow>
    bridge_step c w (b, d) (b\<lparr>st := set_outbound (map f) (st b)\<rparr>, d)"
| web_types: "t_chat_jid r \<notin> t_chat_jid ` set (wa_typing_outbound (st b)) \<Longrightarrow>
    bridge_step c w (b, d) (b\<lparr>st := set_typing (\<lambda>rs. rs @ [r]) (st b)\<rparr>, d)"
| web_types_again: "(\<And>r. t_chat_jid (f r) = t_chat_jid r) \<Longrightarrow>
    bridge_step c w (b, d) (b\<lparr>st := set_typing (map f) (st b)\<rparr>, d)"
| web_marks: "(\<And>r. c_jid (f r) = c_jid r \<and> (0 \<le> c_unread_count r \<longrightarrow> 0 \<le> c_unread_count (f r))) \<Longrightarrow>
    bridge_step c w (b, d) (b\<lparr>st := set_chats (map f) (st b)\<rparr>, d)"
| web_asks: "bridge_step c w (b, d) (b\<lparr>st := set_pairing f (st b)\<rparr>, d)"

inductive_cases bridge_step_cases: "bridge_step c w x y"

inductive bridge_run ::
  "codec \<Rightarrow> wa \<Rightarrow> bridge \<times> check_dir \<Rightarrow> bridge \<times> check_dir \<Rightarrow> bool"
  for c :: codec and w :: wa and x :: "bridge \<times> check_dir" where
  here: "bridge_run c w x x"
| further: "bridge_run c w x y \<Longrightarrow> bridge_step c w y z \<Longrightarrow> bridge_run c w x z"

lemma map_keys: "(\<And>r. k (f r) = k r) \<Longrightarrow> map k (map f rs) = map k rs"
  by (simp add: comp_def)

lemma keeps_web:
  "o_id r \<notin> o_id ` set (wa_outbound s) \<Longrightarrow> o_chat_jid r \<in> insert None (Some ` c_jid ` set (wa_chats s)) \<Longrightarrow>
    keeps s (set_outbound (\<lambda>rs. rs @ [r]) s)"
  "(\<And>r. o_id (f r) = o_id r \<and> o_chat_jid (f r) = o_chat_jid r) \<Longrightarrow> keeps s (set_outbound (map f) s)"
  "t_chat_jid y \<notin> t_chat_jid ` set (wa_typing_outbound s) \<Longrightarrow> keeps s (set_typing (\<lambda>rs. rs @ [y]) s)"
  "(\<And>r. t_chat_jid (g r) = t_chat_jid r) \<Longrightarrow> keeps s (set_typing (map g) s)"
  "(\<And>r. c_jid (h r) = c_jid r \<and> (0 \<le> c_unread_count r \<longrightarrow> 0 \<le> c_unread_count (h r))) \<Longrightarrow>
    keeps s (set_chats (map h) s)"
  "keeps s (set_pairing p s)"
proof -
  show "o_id r \<notin> o_id ` set (wa_outbound s) \<Longrightarrow> o_chat_jid r \<in> insert None (Some ` c_jid ` set (wa_chats s)) \<Longrightarrow>
    keeps s (set_outbound (\<lambda>rs. rs @ [r]) s)"
    by (rule keeps_other) (auto simp: tables_ok_def)
  show "keeps s (set_outbound (map f) s)" if "\<And>r. o_id (f r) = o_id r \<and> o_chat_jid (f r) = o_chat_jid r"
    using map_keys [of o_id f] that
    by (intro keeps_other) (auto simp: tables_ok_def image_image comp_def)
  show "t_chat_jid y \<notin> t_chat_jid ` set (wa_typing_outbound s) \<Longrightarrow> keeps s (set_typing (\<lambda>rs. rs @ [y]) s)"
    by (rule keeps_other) (auto simp: tables_ok_def set_typing_def)
  show "keeps s (set_typing (map g) s)" if "\<And>r. t_chat_jid (g r) = t_chat_jid r"
    using that by (intro keeps_other) (auto simp: tables_ok_def set_typing_def comp_def)
  show "keeps s (set_chats (map h) s)"
    if "\<And>r. c_jid (h r) = c_jid r \<and> (0 \<le> c_unread_count r \<longrightarrow> 0 \<le> c_unread_count (h r))"
    using that by (intro keeps_other) (auto simp: tables_ok_def image_image comp_def)
  show "keeps s (set_pairing p s)"
    by (rule keeps_other) (simp_all add: set_pairing_views tables_ok_def set_pairing_def)
qed

lemma step_keeps: "bridge_step c w x y \<Longrightarrow> keeps (st (fst x)) (st (fst y))"
proof (induction rule: bridge_step.induct)
  case (restarts b d)
  show ?case by (simp add: new_bridge_def keeps_def tables_ok_def log_grows_def)
next
  case (time_passes t b d)
  show ?case by (simp add: keeps_def tables_ok_def log_grows_def)
next
  case (network b d rs fs)
  show ?case by (simp add: keeps_def tables_ok_def log_grows_def)
next
  case (migration b d cols)
  show ?case by (simp add: keeps_def tables_ok_def log_grows_def)
qed (simp_all add: keeps_outbound keeping.R_loops keeps_web keeping.R_refl)

lemma run_keeps: "bridge_run c w x y \<Longrightarrow> keeps (st (fst x)) (st (fst y))"
proof (induction rule: bridge_run.induct)
  case here
  show ?case by (rule keeping.R_refl)
next
  case (further y z)
  from further.IH step_keeps [OF further.hyps(2)] show ?case by (rule keeping.R_trans)
qed

end
