(* ===== verification/Online.thy ===== *)
theory Online
  imports Machine
begin

text \<open>
  The loops that keep the session online (\<open>markOnline\<close> of \<open>internal/wabridge/wabridge.go\<close>): each
  \<open>Connected\<close> event starts one and none of them ever ends.
\<close>

section \<open>Loops are only added\<close>

lemma loops_session:
  "online_loops (recordSessionLost r b) = online_loops b" "online_loops (signalFatal r b) = online_loops b"
  "online_loops (heartbeat b) = online_loops b"
  "online_loops (send_online w b) = online_loops b"
  by (simp_all add: recordSessionLost_def signalFatal_def heartbeat_def send_online_def split: option.split)

lemma loops_history_message: "online_loops (snd (history_message w j cs g p b)) = online_loops b"
proof -
  have "online_loops (snd (history_store w j evt b)) = online_loops b" for evt b
    by (simp add: history_store_def Let_def split: option.split sum.split prod.split)
  then show ?thesis
    by (simp add: history_message_def split: option.split proto_action.split prod.split)
qed

lemma loops_history: "online_loops (handleHistorySync w n convs b) = online_loops b"
proof -
  have ms: "online_loops (snd (history_messages w j cs g ps b)) = online_loops b" for j cs g ps b
    by (induction ps arbitrary: b)
      (simp_all add: loops_history_message split: prod.split, metis loops_history_message snd_conv)
  then have m: "online_loops b2 = online_loops b" if "history_messages w j cs g ps b = (m, b2)" for j cs g ps b m b2
    using that by (metis snd_conv)
  have one: "online_loops (history_conversation w cv b) = online_loops b" for cv b
    by (auto simp: history_conversation_def Let_def split: sum.split prod.split dest: m)
  have "online_loops (foldl (\<lambda>b cv. history_conversation w cv b) b cvs) = online_loops b" for cvs
    by (induction cvs arbitrary: b) (simp_all add: one)
  then show ?thesis by (simp add: handleHistorySync_def)
qed

lemma loops_event:
  "online_loops (handleEvent w e b) = online_loops b + (if e = Connected then 1 else 0)"
proof -
  have "online_loops (store_message w evt j c b) = online_loops b" for evt j c b
    by (simp add: store_message_def Let_def split: prod.split sum.split)
  then have "online_loops (handleMessage w evt b) = online_loops b" for evt
    by (simp add: handleMessage_def Let_def split: prod.split bool.split option.split sum.split)
  then show ?thesis
    by (simp add: handleEvent_def Let_def loops_session loops_history markOnline_def handleChatPresence_def
        handleReceipt_def split: wa_event.split option.split)
qed

lemma loops_events:
  "online_loops (foldl (\<lambda>b e. handleEvent w e b) b es) = online_loops b + length (filter (\<lambda>e. e = Connected) es)"
  by (induction es arbitrary: b) (simp_all add: loops_event)

lemma online_ticks:
  assumes "\<And>h. is_connected w h" "online_loops b \<noteq> 0"
  shows "online_loops ((online_tick w ^^ n) b) = online_loops b \<and>
    trace (st ((online_tick w ^^ n) b)) = trace (st b) @ replicate n WaOnline"
proof (induction n)
  case (Suc n)
  then show ?case
    using assms by (simp add: online_tick_def send_online_def replicate_append_same)
qed simp

text \<open>Every Connected event adds a loop that asserts the presence, and no event ends one: after n reconnects each period of five minutes sends the presence n times more.\<close>

theorem online_loops_pile_up:
  fixes w :: wa and b :: bridge and es :: "wa_event list"
  assumes "\<And>h. is_connected w h"
  defines "b1 \<equiv> foldl (\<lambda>b e. handleEvent w e b) b es"
  defines "n \<equiv> online_loops b + length (filter (\<lambda>e. e = Connected) es)"
  shows "online_loops b1 = n \<and> trace (st ((online_tick w ^^ n) b1)) = trace (st b1) @ replicate n WaOnline"
proof -
  have loops: "online_loops b1 = n" by (simp add: b1_def n_def loops_events)
  show ?thesis
  proof (cases "n = 0")
    case True
    then show ?thesis using loops by simp
  next
    case False
    then show ?thesis using online_ticks [OF assms(1), where n = n and b = b1] loops by simp
  qed
qed

end
