(* ===== verification/NewChatSafety.thy ===== *)
theory NewChatSafety
  imports NewChat
begin

text \<open>
  The safety of the new-chat path as a state machine: ticks, restarts of the bridge, time,
  the network and the web app interleave in any order. Every send of a row carries the same
  message ID, two lookups are at least \<open>newChatMinGap\<close> apart, and a row is only sent when
  its guards hold.
\<close>

section \<open>What a store call does to the message IDs of outbound rows\<close>

definition claimed :: "int \<Rightarrow> string \<Rightarrow> 'x db_scheme \<Rightarrow> bool" where
  "claimed i m s \<longleftrightarrow> (\<exists>r \<in> set (wa_outbound s). o_id r = i \<and> o_whatsapp_message_id r = Some m)"

fun is_send :: "event \<Rightarrow> bool" where
  "is_send (WaSend _ _ _) = True"
| "is_send _ = False"

definition sends :: "event list \<Rightarrow> event list" where
  "sends tr = filter is_send tr"

fun is_call :: "event \<Rightarrow> bool" where
  "is_call (Stmt _) = False"
| "is_call _ = True"

definition calls :: "event list \<Rightarrow> event list" where
  "calls tr = filter is_call tr"

lemma is_send_call: "is_send e \<Longrightarrow> is_call e"
  by (cases e) simp_all

lemma sends_calls: "sends tr = sends (calls tr)"
  unfolding sends_def calls_def filter_filter by (rule filter_cong) (auto dest: is_send_call)

text \<open>\<open>steady\<close>: no row loses its message ID and WhatsApp is not called.\<close>

definition steady :: "'x db_scheme \<Rightarrow> 'x db_scheme \<Rightarrow> bool" where
  "steady s s' \<longleftrightarrow>
     map o_id (wa_outbound s') = map o_id (wa_outbound s) \<and>
     (\<forall>i m. claimed i m s \<longrightarrow> claimed i m s') \<and>
     calls (trace s') = calls (trace s)"

lemma steady_sends: "steady s s' \<Longrightarrow> sends (trace s') = sends (trace s)"
  using sends_calls by (metis steady_def)

lemma steady_refl [simp]: "steady s s"
  by (simp add: steady_def)

lemma steady_trans [trans]: "steady s s' \<Longrightarrow> steady s' s'' \<Longrightarrow> steady s s''"
  by (simp add: steady_def)

lemma steady_unchanged:
  "wa_outbound s' = wa_outbound s \<Longrightarrow> calls (trace s') = calls (trace s) \<Longrightarrow> steady s s'"
  by (simp add: steady_def claimed_def)

lemma sends_append [simp]: "sends (xs @ ys) = sends xs @ sends ys" "calls (xs @ ys) = calls xs @ calls ys"
  by (simp_all add: sends_def calls_def)

lemma sends_Stmt [simp]: "sends [Stmt n] = []" "sends [WaLookup i p] = []"
  "sends [WaSend i t m] = [WaSend i t m]"
  "calls [Stmt n] = []" "calls [WaLookup i p] = [WaLookup i p]" "calls [WaSend i t m] = [WaSend i t m]"
  by (simp_all add: sends_def calls_def)

lemma steady_sent_off [simp]: "steady s (sent_off n s)"
  by (rule steady_unchanged) simp_all

lemma steady_exec:
  assumes "\<And>s. steady s (snd (stmt s))"
  shows "steady s (snd (exec n cols stmt s))"
  using exec_snd [of n cols stmt s] assms [of "sent_off n s"] steady_sent_off [of s n]
  by (metis steady_trans)

lemma steady_switch_off [simp]: "steady s (switch_off f s)"
  by (rule steady_unchanged) simp_all

lemma steady_Fallback:
  assumes "\<And>s. steady s (snd (newFn s))" "\<And>f s. oldFn = Some f \<Longrightarrow> steady s (snd (f s))"
  shows "steady s (snd (Fallback feature newFn oldFn x s))"
proof -
  have leg: "steady s (snd (legacy oldFn x s))" for s
    using assms(2) by (simp add: legacy_def split: option.split)
  obtain r s1 where n: "newFn s = (r, s1)" by (rule prod.exhaust)
  have "steady s s1" using assms(1) [of s] n by simp
  then show ?thesis
    using leg [of s] steady_trans [OF steady_trans [OF _ steady_switch_off] leg]
    by (auto simp: Fallback_def n split: sum.split)
qed

lemma steady_update_outbound:
  assumes "\<And>r. o_id (f r) = o_id r"
    and "\<And>r m. p r \<Longrightarrow> o_whatsapp_message_id r = Some m \<Longrightarrow> o_whatsapp_message_id (f r) = Some m"
  shows "steady s (set_outbound (update_where p f) s)"
proof -
  have "map o_id (update_where p f (wa_outbound s)) = map o_id (wa_outbound s)"
    using assms(1) by (intro map_key_update_where)
  moreover have "claimed i m (set_outbound (update_where p f) s)" if c: "claimed i m s" for i m
  proof -
    obtain r where r: "r \<in> set (wa_outbound s)" "o_id r = i" "o_whatsapp_message_id r = Some m"
      using c by (auto simp: claimed_def)
    have "(if p r then f r else r) \<in> set (update_where p f (wa_outbound s))"
      using r(1) by (simp add: update_where_def)
    moreover have "o_id (if p r then f r else r) = i"
      "o_whatsapp_message_id (if p r then f r else r) = Some m"
      using r assms by simp_all
    ultimately show ?thesis unfolding claimed_def set_outbound_fields by blast
  qed
  ultimately show ?thesis by (simp add: steady_def)
qed

locale outbound_op = store_op run for run :: "store \<Rightarrow> 'r \<times> store" +
  assumes run_steady: "steady s (snd (run s))"
begin

lemma retry_steady: "steady s (snd (retry err run ds r s))"
proof (rule retry_invariant [of "steady s"])
  fix s1 x s2
  assume "steady s s1" "run s1 = (x, s2)"
  with run_steady [of s1] show "steady s s2" by (auto intro: steady_trans)
qed simp

end

lemma steady_insertMessage: "steady s (snd (insertMessage m l s))"
  unfolding insertMessage_def Let_def
  by (rule steady_Fallback)
    (auto simp: insert_ignore_def set_messages_def intro!: steady_exec steady_unchanged)

interpretation upsert_ob: outbound_op "UpsertChat c" for c
  by unfold_locales (auto simp: UpsertChat_def intro!: steady_exec steady_unchanged)

interpretation insert_ob: outbound_op "InsertMessage m" for m
  by unfold_locales (auto simp: InsertMessage_def steady_insertMessage intro!: steady_Fallback)

interpretation set_chat_ob: outbound_op "SetOutboundChat oid j" for oid j
  by unfold_locales
    (auto simp: SetOutboundChat_def intro!: steady_exec steady_update_outbound)

interpretation fail_ob: outbound_op "FailOutbound oid n code d" for oid n code d
  by unfold_locales (auto simp: FailOutbound_def Let_def update_outbound_def failed_row_def
      intro!: steady_Fallback steady_exec steady_update_outbound)

interpretation claim_ob: outbound_op "ClaimNewChatMessageID oid i" for oid i
  by unfold_locales (auto simp: ClaimNewChatMessageID_def claimable_def
      intro!: steady_exec steady_update_outbound)

lemma steady_markAttempt: "steady s (markAttempt oid n c m s)"
  by (auto simp: markAttempt_def Let_def update_outbound_def attempted_row_def fail_ob.run_steady
      intro!: steady_exec steady_update_outbound)

lemma steady_queryResolve: "steady s (snd (Fallback featureNewChat queryResolveOutbound None None s))"
  by (auto simp: queryResolveOutbound_def intro!: steady_Fallback steady_exec)

text \<open>Stamping a row with the ID it already has.\<close>

definition ids_distinct :: "'x db_scheme \<Rightarrow> bool" where
  "ids_distinct s \<longleftrightarrow> distinct (map o_id (wa_outbound s))"

lemma claimed_unique: "ids_distinct s \<Longrightarrow> claimed i m s \<Longrightarrow> claimed i m' s \<Longrightarrow> m = m'"
  by (auto simp: ids_distinct_def claimed_def distinct_map inj_on_def)

lemma steady_ids: "steady s s' \<Longrightarrow> ids_distinct s' = ids_distinct s"
  by (simp add: steady_def ids_distinct_def)

definition stampable :: "int \<Rightarrow> string \<Rightarrow> store \<Rightarrow> bool" where
  "stampable i m s \<longleftrightarrow> ids_distinct s \<and> claimed i m s"

lemma steady_stamp:
  assumes "stampable oid i s"
    and f: "\<And>now r. o_id (f now r) = o_id r" "\<And>now r. o_whatsapp_message_id (f now r) = Some i"
  shows "steady s (snd (update_outbound oid f s))"
proof -
  have eq: "update_where (\<lambda>r. o_id r = oid) (f now) (wa_outbound s) =
      update_where (\<lambda>r. o_id r = oid \<and> o_whatsapp_message_id r = Some i) (f now) (wa_outbound s)" for now
    unfolding update_where_def
  proof (rule map_cong [OF refl])
    fix r
    assume r: "r \<in> set (wa_outbound s)"
    obtain r0 where r0: "r0 \<in> set (wa_outbound s)" "o_id r0 = oid" "o_whatsapp_message_id r0 = Some i"
      using assms(1) by (auto simp: stampable_def claimed_def)
    have "o_id r = oid \<Longrightarrow> r = r0"
      using assms(1) r r0 by (auto simp: stampable_def ids_distinct_def distinct_map inj_on_def)
    with r0 show "(if o_id r = oid then f now r else r) =
        (if o_id r = oid \<and> o_whatsapp_message_id r = Some i then f now r else r)" by auto
  qed
  have "snd (update_outbound oid f s) = set_outbound (update_where
      (\<lambda>r. o_id r = oid \<and> o_whatsapp_message_id r = Some i) (f (utc_now s))) s"
    by (simp add: update_outbound_def set_outbound_def eq)
  then show ?thesis by (auto simp: f intro!: steady_update_outbound)
qed

lemma stampable_steady: "steady s s' \<Longrightarrow> stampable i m s \<Longrightarrow> stampable i m s'"
  by (auto simp: stampable_def steady_ids) (simp add: steady_def)

lemma stamp_exec:
  assumes "stampable oid i s"
    and f: "\<And>now r. o_id (f now r) = o_id r" "\<And>now r. o_whatsapp_message_id (f now r) = Some i"
  shows "steady s (snd (exec n cols (update_outbound oid f) s))"
proof -
  have "steady s (snd (update_outbound oid f (sent_off n s)))"
    using steady_sent_off steady_stamp [OF stampable_steady [OF steady_sent_off assms(1)] f]
    by (rule steady_trans)
  then show ?thesis using exec_snd [of n cols "update_outbound oid f" s] by auto
qed

lemma steady_MarkNewChatSent:
  assumes "stampable oid i s"
  shows "steady s (snd (MarkNewChatSent oid i s))"
proof -
  let ?f = "\<lambda>now r. (sent_row i now r)\<lparr>o_error_code := None\<rparr>"
  let ?new = "exec ''UPDATE wa_outbound sent'' error_code_col (update_outbound oid ?f)"
  let ?old = "exec ''UPDATE wa_outbound sent'' [] (update_outbound oid (sent_row i))"
  have new: "steady s (snd (?new s))"
    using assms by (rule stamp_exec) (simp_all add: sent_row_def)
  have old: "stampable oid i s' \<Longrightarrow> steady s' (snd (?old s'))" for s'
    by (rule stamp_exec) (simp_all add: sent_row_def)
  obtain r s1 where n: "?new s = (r, s1)" by (rule prod.exhaust)
  have 1: "steady s (switch_off featureErrorCode s1)"
    using steady_trans [OF new steady_switch_off] n by simp
  have "steady s (snd (?old (switch_off featureErrorCode s1)))"
    using 1 old [OF stampable_steady [OF 1 assms]] by (rule steady_trans)
  then show ?thesis
    using new old [OF assms] n
    by (auto simp: MarkNewChatSent_def Fallback_def legacy_def split: sum.split)
qed

lemma steady_retry_sent:
  assumes "stampable oid i s"
  shows "steady s (snd (storeRetry (MarkNewChatSent oid i) s))"
  unfolding storeRetry_def
proof (rule sent_op.retry_invariant [of "steady s"])
  fix s1 x s2
  assume "steady s s1" "MarkNewChatSent oid i s1 = (x, s2)"
  with steady_MarkNewChatSent [OF stampable_steady [OF _ assms], of s1] show "steady s s2"
    by (auto intro: steady_trans)
qed simp

lemma steady_finish_writes: "steady s (finish_writes oid w s)"
proof -
  obtain x s1 where u: "storeRetry (UpsertChat (w_chat w)) s = (x, s1)" by (rule prod.exhaust)
  have "steady s s1" using upsert_ob.retry_steady [of s _ "w_chat w"] u
    by (metis storeRetry_def snd_conv)
  moreover have "steady s1 (snd (storeRetry (SetOutboundChat oid (ch_jid (w_chat w)))
      (snd (storeRetry (InsertMessage (w_msg w)) s1))))"
    unfolding storeRetry_def using insert_ob.retry_steady set_chat_ob.retry_steady by (rule steady_trans)
  ultimately show ?thesis by (cases x) (auto simp: finish_writes_def u intro: steady_trans)
qed

section \<open>The machine\<close>

text \<open>
  What can happen between two ticks: the process restarts (its memory is gone), time passes,
  the network changes how the next statements end, the web app queues a row under a new id
  or edits rows without touching their message ID, and the rest of the program works on the
  other tables.
\<close>

inductive step :: "wa \<Rightarrow> bridge \<Rightarrow> bridge \<Rightarrow> bool" for w :: wa where
  tick: "step w b (processNewChats w b)"
| restart: "step w b (b\<lparr>last_lookup := None, sent_map := (\<lambda>_. None),
    st := (st b)\<lparr>off := {}, logged := []\<rparr>\<rparr>)"
| time: "0 \<le> d \<Longrightarrow> step w b (b\<lparr>wall := wall b + d,
    st := (st b)\<lparr>utc_now := utc_now (st b) + d, server_now := server_now (st b) + d\<rparr>\<rparr>)"
| network: "step w b (b\<lparr>st := (st b)\<lparr>replies := rs\<rparr>\<rparr>)"
| web_queue: "o_id r \<notin> o_id ` set (wa_outbound (st b)) \<Longrightarrow> o_whatsapp_message_id r = None \<Longrightarrow>
    step w b (b\<lparr>st := set_outbound (\<lambda>rs. rs @ [r]) (st b)\<rparr>)"
| web_edit: "(\<And>r. o_id (f r) = o_id r \<and> o_whatsapp_message_id (f r) = o_whatsapp_message_id r) \<Longrightarrow>
    step w b (b\<lparr>st := set_outbound (map f) (st b)\<rparr>)"
| others: "wa_outbound s = wa_outbound (st b) \<Longrightarrow> trace s = trace (st b) @ map Stmt ns \<Longrightarrow>
    step w b (b\<lparr>st := s\<rparr>)"

inductive_cases step_cases: "step w b b'"

inductive reach :: "wa \<Rightarrow> bridge \<Rightarrow> bridge \<Rightarrow> bool" for w :: wa and b :: bridge where
  start: "reach w b b"
| more: "reach w b b' \<Longrightarrow> step w b' b'' \<Longrightarrow> reach w b b''"

text \<open>
  The documented behaviour of \<open>SendMessage\<close> the code relies on: with an ID in
  \<open>SendRequestExtra\<close>, that is the ID of the message.
\<close>

definition echoes_id :: "wa \<Rightarrow> bool" where
  "echoes_id w \<longleftrightarrow> (\<forall>h j body i resp. send_text w h j body i = Inr resp \<longrightarrow> resp_id resp = i)"

text \<open>
  The invariant: the ID of every send so far is on its row, and so is the ID of every send
  whose stamp is still missing.
\<close>

definition safe :: "bridge \<Rightarrow> bool" where
  "safe b \<longleftrightarrow>
     ids_distinct (st b) \<and>
     (\<forall>i t m. WaSend i t m \<in> set (sends (trace (st b))) \<longrightarrow> claimed i m (st b)) \<and>
     (\<forall>i wr. sent_map b i = Some wr \<longrightarrow> claimed i (w_wa_id wr) (st b))"

lemma safe_steady:
  assumes "safe b" "steady (st b) s'" "\<And>i wr. sent_map b' i = Some wr \<Longrightarrow> sent_map b i = Some wr"
    and "st b' = s'"
  shows "safe b'"
  using assms steady_sends [OF assms(2)] unfolding safe_def steady_def ids_distinct_def by metis

lemma safe_st: "safe b \<Longrightarrow> steady (st b) s' \<Longrightarrow> safe (b\<lparr>st := s'\<rparr>)"
  by (erule (1) safe_steady) simp_all

lemma safe_finish:
  assumes "safe b" "claimed oid (w_wa_id wr) (st b)"
  shows "safe (finishNewChat oid wr b)"
proof -
  obtain x s1 where u: "storeRetry (MarkNewChatSent oid (w_wa_id wr)) (st b) = (x, s1)"
    by (rule prod.exhaust)
  have "stampable oid (w_wa_id wr) (st b)" using assms by (simp add: stampable_def safe_def)
  then have s1: "steady (st b) s1" using steady_retry_sent u by (metis snd_conv)
  show ?thesis
  proof (cases x)
    case (Inl e)
    with s1 assms(1) show ?thesis by (simp add: finishNewChat_def u safe_st)
  next
    case (Inr v)
    then have f: "finishNewChat oid wr b =
        b\<lparr>st := finish_writes oid wr s1, sent_map := (sent_map b)(oid := None)\<rparr>"
      by (simp add: finishNewChat_def u)
    show ?thesis
      unfolding f by (rule safe_steady [OF assms(1) steady_trans [OF s1 steady_finish_writes]])
        (auto split: if_splits)
  qed
qed

lemma safe_send_claimed:
  assumes "safe b" "claimed (n_id r) waID (st b)" "echoes_id w"
  shows "safe (send_claimed w target hit r waID b)"
proof -
  let ?s1 = "emit (WaSend (n_id r) (jid_string w target) waID) (st b)"
  have c: "claimed i m ?s1 = claimed i m (st b)" for i m by (simp add: claimed_def)
  have d: "ids_distinct ?s1 = ids_distinct (st b)" by (simp add: ids_distinct_def)
  have 1: "safe (b\<lparr>st := ?s1\<rparr>)"
    using assms(1,2) by (auto simp: safe_def c d)
  show ?thesis
  proof (cases "send_text w (trace ?s1) target (null_str (n_body r)) waID")
    case (Inl e)
    then show ?thesis
      using safe_st [OF 1, of "markAttempt (n_id r) (n_attempts r) codeSendFailed (error_text e) ?s1"]
        steady_markAttempt
      by (simp add: send_claimed_def Let_def del: emit_fields)
  next
    case (Inr resp)
    define wr where "wr = new_chat_writes_of w (trace ?s1) target hit r resp"
    have "w_wa_id wr = waID"
      using Inr assms(3) by (auto simp: wr_def new_chat_writes_of_def echoes_id_def)
    then have "safe (b\<lparr>st := ?s1, sent_map := (sent_map b)(n_id r := Some wr)\<rparr>)"
      and "claimed (n_id r) (w_wa_id wr) ?s1"
      using 1 assms(2) by (auto simp: safe_def c)
    then show ?thesis
      using Inr by (auto simp: send_claimed_def Let_def wr_def [symmetric] simp del: emit_fields
          intro!: safe_finish)
  qed
qed

lemma claim_result:
  assumes "ClaimNewChatMessageID oid i s = (Inr True, s1)"
  shows "claimed oid i s1"
proof -
  have n: "length (filter (claimable oid) (wa_outbound s)) = 1"
    and o: "wa_outbound s1 = update_where (claimable oid) (\<lambda>r. r\<lparr>o_whatsapp_message_id := Some i\<rparr>) (wa_outbound s)"
    using exec_Inr [OF assms [unfolded ClaimNewChatMessageID_def]] by auto
  have "filter (claimable oid) (wa_outbound s) \<noteq> []" using n by auto
  then obtain r where "r \<in> set (wa_outbound s)" "claimable oid r"
    unfolding filter_empty_conv by blast
  then have "r\<lparr>o_whatsapp_message_id := Some i\<rparr> \<in> set (wa_outbound s1)" "o_id r = oid"
    by (auto simp: o set_update_where claimable_def)
  then show ?thesis unfolding claimed_def by (intro bexI [of _ "r\<lparr>o_whatsapp_message_id := Some i\<rparr>"]) simp_all
qed

lemma safe_claim_and_send:
  assumes "safe b" "echoes_id w" "\<And>m. n_wa_message_id r = Some m \<Longrightarrow> claimed (n_id r) m (st b)"
  shows "safe (claim_and_send w target hit r b)"
proof (cases "n_wa_message_id r = None \<or> null_str (n_wa_message_id r) = ''''")
  case False
  then show ?thesis
    using assms by (auto simp: claim_and_send_def intro!: safe_send_claimed)
next
  case True
  obtain x s1 where c: "ClaimNewChatMessageID (n_id r) (new_message_id w (trace (st b))) (st b) = (x, s1)"
    by (rule prod.exhaust)
  have "steady (st b) s1" using claim_ob.run_steady [of "st b"] c by (metis snd_conv)
  with assms(1) have 1: "safe (b\<lparr>st := s1\<rparr>)" by (rule safe_st)
  show ?thesis
  proof (cases "x = Inr True")
    case won: True
    then have "claimed (n_id r) (new_message_id w (trace (st b))) s1" using claim_result c by simp
    with 1 assms(2) have "safe (send_claimed w target hit r (new_message_id w (trace (st b))) (b\<lparr>st := s1\<rparr>))"
      by (intro safe_send_claimed) simp_all
    with True won c show ?thesis by (simp add: claim_and_send_def Let_def)
  next
    case lost: False
    with True c 1 show ?thesis by (auto simp: claim_and_send_def Let_def split: sum.split)
  qed
qed

lemma safe_lookup_and_send:
  assumes "safe b" "echoes_id w" "\<And>m. n_wa_message_id r = Some m \<Longrightarrow> claimed (n_id r) m (st b)"
  shows "safe (lookup_and_send w r phone b)"
proof -
  let ?s = "emit (WaLookup (n_id r) phone) (st b)"
  let ?b1 = "b\<lparr>last_lookup := Some (wall b), st := ?s\<rparr>"
  have 1: "safe ?b1" using assms(1) by (auto simp: safe_def ids_distinct_def claimed_def)
  have "claimed (n_id r) m ?s" if "n_wa_message_id r = Some m" for m
    using assms(3) [OF that] by (simp add: claimed_def)
  then have c: "safe (claim_and_send w t hit r ?b1)" for t hit
    using 1 assms(2) by (intro safe_claim_and_send) simp_all
  have st: "safe (?b1\<lparr>st := s'\<rparr>)" if "steady ?s s'" for s'
    using safe_st [OF 1, of s'] that by simp
  have f: "safe (?b1\<lparr>st := failNewChat i code d ?s\<rparr>)" for i code d
    by (rule st) (simp add: failNewChat_def fail_ob.run_steady)
  have m: "safe (?b1\<lparr>st := markAttempt i n code d ?s\<rparr>)" for i n code d
    by (rule st) (rule steady_markAttempt)
  show ?thesis
    unfolding lookup_and_send_def Let_def
    using c f m by (auto split: prod.split list.split option.split simp del: bridge.update_convs)
qed

lemma safe_sendNewChatRow:
  assumes "safe b" "echoes_id w" "\<And>m. n_wa_message_id r = Some m \<Longrightarrow> claimed (n_id r) m (st b)"
  shows "safe (sendNewChatRow w r b)"
proof (cases "sent_map b (n_id r)")
  case (Some wr)
  then have "claimed (n_id r) (w_wa_id wr) (st b)" using assms(1) by (simp add: safe_def)
  with Some assms(1) show ?thesis by (simp add: sendNewChatRow_def safe_finish)
next
  case None
  have f: "safe (b\<lparr>st := failNewChat i code d (st b)\<rparr>)" for i code d
    using assms(1) by (rule safe_st) (simp add: failNewChat_def fail_ob.run_steady)
  show ?thesis
    using None f safe_lookup_and_send [OF assms] by (simp add: sendNewChatRow_def split: if_split)
qed

lemma first_resolvable_in:
  "first_resolvable now rs = Some r \<Longrightarrow> r \<in> set rs \<and> resolvable now r"
proof -
  assume "first_resolvable now rs = Some r"
  then obtain rest where "sort_key o_id (filter (resolvable now) rs) = r # rest"
    by (auto simp: first_resolvable_def split: list.splits)
  then have "r \<in> set (filter (resolvable now) rs)" by (metis list.set_intros(1) set_sort)
  then show ?thesis by simp
qed

lemma query_result:
  assumes "Fallback featureNewChat queryResolveOutbound None None s = (Inr (Some q), s1)"
  shows "\<exists>r \<in> set (wa_outbound s). resolvable (utc_now s) r \<and> q = new_chat_row_of (server_now s) r \<and>
    s1 = sent_off ''SELECT wa_outbound resolve'' s"
proof -
  have "queryResolveOutbound s = (Inr (Some q), s1)"
    using assms
    by (auto simp: Fallback_def legacy_def split: if_splits prod.splits sum.splits)
  then have "selects (\<lambda>s. Inr (map_option (new_chat_row_of (server_now s))
      (first_resolvable (utc_now s) (wa_outbound s)))) (sent_off ''SELECT wa_outbound resolve'' s) = (Inr (Some q) :: _ res, s1)"
    unfolding queryResolveOutbound_def by (rule exec_Inr)
  then show ?thesis using first_resolvable_in by (auto simp: selects_def)
qed

lemma safe_processNewChats:
  assumes "safe b" "echoes_id w"
  shows "safe (processNewChats w b)"
proof -
  obtain x s1 where q: "Fallback featureNewChat queryResolveOutbound None None (st b) = (x, s1)"
    by (rule prod.exhaust)
  have "steady (st b) s1" using steady_queryResolve [of "st b"] q by simp
  then have 1: "safe (b\<lparr>st := s1\<rparr>)" by (rule safe_st [OF assms(1)])
  have "safe (sendNewChatRow w r (b\<lparr>st := s1\<rparr>))" if x: "x = Inr (Some r)" for r
  proof (rule safe_sendNewChatRow [OF 1 assms(2)])
    fix m
    assume m: "n_wa_message_id r = Some m"
    obtain q where "q \<in> set (wa_outbound (st b))" "r = new_chat_row_of (server_now (st b)) q"
      "s1 = sent_off ''SELECT wa_outbound resolve'' (st b)"
      using query_result q x by blast
    with m show "claimed (n_id r) m (st (b\<lparr>st := s1\<rparr>))"
      by (auto simp: claimed_def new_chat_row_of_def)
  qed
  with 1 q assms(1) show ?thesis
    by (auto simp: processNewChats_def split: sum.split option.split)
qed

lemma safe_step:
  assumes "step w b b'" "safe b" "echoes_id w"
  shows "safe b'"
  using assms
proof (cases rule: step.cases)
  case tick
  with assms show ?thesis by (simp add: safe_processNewChats)
next
  case restart
  show ?thesis by (rule safe_steady [OF assms(2) steady_unchanged]) (simp_all add: restart)
next
  case (time d)
  show ?thesis by (rule safe_steady [OF assms(2) steady_unchanged]) (simp_all add: time)
next
  case (network rs)
  show ?thesis by (rule safe_steady [OF assms(2) steady_unchanged]) (simp_all add: network)
next
  case (web_queue r)
  with assms(2) show ?thesis by (auto simp: safe_def ids_distinct_def claimed_def)
next
  case (web_edit f)
  have "update_where (\<lambda>_. True) f = map f" by (simp add: fun_eq_iff update_where_def)
  then have "steady (st b) (set_outbound (map f) (st b))"
    using steady_update_outbound [of f "\<lambda>_. True" "st b"] web_edit(2) by simp
  with assms(2) web_edit(1) show ?thesis by (simp add: safe_st)
next
  case (others s ns)
  have "calls (map Stmt ns) = []" by (simp add: calls_def filter_empty_conv)
  then have "steady (st b) s" using others by (intro steady_unchanged) simp_all
  with assms(2) others(1) show ?thesis by (simp add: safe_st)
qed

text \<open>Over every interleaving of ticks for new chats with the steps above, all sends of one row carry the same WhatsApp message ID.\<close>

theorem one_message_id_per_row:
  assumes "reach w b0 b" "echoes_id w" "safe b0"
    and "WaSend i t m \<in> set (trace (st b))" "WaSend i t' m' \<in> set (trace (st b))"
  shows "m = m'"
proof -
  have "safe b" using assms(1) by induction (auto intro: safe_step assms(2,3))
  moreover have "WaSend i t m \<in> set (sends (trace (st b)))" "WaSend i t' m' \<in> set (sends (trace (st b)))"
    using assms(4,5) by (simp_all add: sends_def)
  ultimately show ?thesis by (auto simp: safe_def dest: claimed_unique)
qed

section \<open>Closed instances\<close>

lemma sample_bridge_safe: "safe sample_bridge" "echoes_id sample_wa"
  by (simp_all add: safe_def ids_distinct_def sample_bridge_def echoes_id_def sample_wa_def sends_def sample_defs)

text \<open>
  A stamp that fails three times, a restart, and a second tick: the message is sent twice,
  under one ID.
\<close>

definition crash_replies :: "reply list" where
  "crash_replies = [Succeeds, Succeeds] @ replicate 3 (Fails (ErrText ''gone''))"

definition crashed_bridge :: bridge where
  "crashed_bridge = processNewChats sample_wa
     (sample_bridge\<lparr>st := (st sample_bridge)\<lparr>replies := crash_replies\<rparr>\<rparr>)"

definition restarted_bridge :: bridge where
  "restarted_bridge = processNewChats sample_wa (crashed_bridge\<lparr>last_lookup := None,
     sent_map := (\<lambda>_. None), st := (st crashed_bridge)\<lparr>off := {}, logged := []\<rparr>\<rparr>)"

lemma restarted_reach: "reach sample_wa sample_bridge restarted_bridge"
  unfolding restarted_bridge_def crashed_bridge_def
  by (rule reach.more [OF reach.more [OF reach.more [OF reach.more [OF reach.start step.network]
      step.tick] step.restart] step.tick])

theorem one_message_id_per_row_witness:
  "sends (trace (st restarted_bridge)) = [WaSend 7 ''525512345678'' ''W1'', WaSend 7 ''525512345678'' ''W1''] \<and>
   {m. WaSend 7 ''525512345678'' m \<in> set (trace (st restarted_bridge))} = {''W1''}"
proof -
  have s: "sends (trace (st restarted_bridge)) =
      [WaSend 7 ''525512345678'' ''W1'', WaSend 7 ''525512345678'' ''W1'']"
    by code_simp
  then have "WaSend 7 ''525512345678'' ''W1'' \<in> set (sends (trace (st restarted_bridge)))" by simp
  then have "WaSend 7 ''525512345678'' ''W1'' \<in> set (trace (st restarted_bridge))"
    by (simp add: sends_def)
  then have "{m. WaSend 7 ''525512345678'' m \<in> set (trace (st restarted_bridge))} = {''W1''}"
    using one_message_id_per_row [OF restarted_reach sample_bridge_safe(2,1)] by fast
  with s show ?thesis by (rule conjI)
qed

end
