(* ===== verification/NewChatPacing.thy ===== *)
theory NewChatPacing
  imports NewChatSafety
begin

text \<open>
  What one tick of the new-chat path does on the wire, and what follows for a run: at most
  one lookup and one send per tick, only for a row whose guards hold, and lookups at least
  \<open>newChatMinGap\<close> apart while the process lives.
\<close>

section \<open>The calls of one tick\<close>

lemma finish_steady:
  assumes "safe b" "claimed oid (w_wa_id wr) (st b)"
  shows "steady (st b) (st (finishNewChat oid wr b)) \<and>
    last_lookup (finishNewChat oid wr b) = last_lookup b \<and> wall (finishNewChat oid wr b) = wall b"
proof -
  obtain x s1 where u: "storeRetry (MarkNewChatSent oid (w_wa_id wr)) (st b) = (x, s1)"
    by (rule prod.exhaust)
  have "stampable oid (w_wa_id wr) (st b)" using assms by (simp add: stampable_def safe_def)
  then have "steady (st b) s1" using steady_retry_sent u by (metis snd_conv)
  then show ?thesis
    using steady_trans [OF _ steady_finish_writes]
    by (cases x) (auto simp: finishNewChat_def u)
qed

lemma steady_calls: "steady s s' \<Longrightarrow> calls (trace s') = calls (trace s)"
  by (simp add: steady_def)

lemma send_claimed_calls:
  assumes "safe b" "claimed (n_id r) waID (st b)" "echoes_id w"
  shows "calls (trace (st (send_claimed w target hit r waID b))) =
      calls (trace (st b)) @ [WaSend (n_id r) (jid_string w target) waID] \<and>
    last_lookup (send_claimed w target hit r waID b) = last_lookup b \<and>
    wall (send_claimed w target hit r waID b) = wall b"
proof -
  let ?s1 = "emit (WaSend (n_id r) (jid_string w target) waID) (st b)"
  have c: "claimed i m ?s1 = claimed i m (st b)" for i m by (simp add: claimed_def)
  show ?thesis
  proof (cases "send_text w (trace ?s1) target (null_str (n_body r)) waID")
    case (Inl e)
    then show ?thesis
      using steady_calls [OF steady_markAttempt [of ?s1]]
      by (simp add: send_claimed_def Let_def)
  next
    case (Inr resp)
    define wr where "wr = new_chat_writes_of w (trace ?s1) target hit r resp"
    let ?b = "b\<lparr>st := ?s1, sent_map := (sent_map b)(n_id r := Some wr)\<rparr>"
    have "w_wa_id wr = waID"
      using Inr assms(3) by (auto simp: wr_def new_chat_writes_of_def echoes_id_def)
    then have "safe ?b" "claimed (n_id r) (w_wa_id wr) (st ?b)"
      using assms(1,2) by (auto simp: safe_def c ids_distinct_def)
    from finish_steady [OF this] have "calls (trace (st (finishNewChat (n_id r) wr ?b))) = calls (trace ?s1)"
      "last_lookup (finishNewChat (n_id r) wr ?b) = last_lookup b"
      "wall (finishNewChat (n_id r) wr ?b) = wall b"
      by (simp_all add: steady_def)
    moreover have "send_claimed w target hit r waID b = finishNewChat (n_id r) wr ?b"
      using Inr by (simp only: send_claimed_def Let_def wr_def sum.case)
    ultimately show ?thesis by simp
  qed
qed

text \<open>What the path adds to the calls: nothing, or one send of the row.\<close>

definition at_most_send :: "int \<Rightarrow> bridge \<Rightarrow> bridge \<Rightarrow> bool" where
  "at_most_send i b b' \<longleftrightarrow>
     (calls (trace (st b')) = calls (trace (st b)) \<or>
      (\<exists>t m. calls (trace (st b')) = calls (trace (st b)) @ [WaSend i t m])) \<and>
     last_lookup b' = last_lookup b \<and> wall b' = wall b"

lemma at_most_send_st: "steady (st b) s' \<Longrightarrow> at_most_send i b (b\<lparr>st := s'\<rparr>)"
  by (simp add: at_most_send_def steady_def)

lemma claim_and_send_calls:
  assumes "safe b" "echoes_id w" "\<And>m. n_wa_message_id r = Some m \<Longrightarrow> claimed (n_id r) m (st b)"
  shows "at_most_send (n_id r) b (claim_and_send w target hit r b)"
proof (cases "n_wa_message_id r = None \<or> null_str (n_wa_message_id r) = ''''")
  case False
  then obtain m where "n_wa_message_id r = Some m" by auto
  with False send_claimed_calls [OF assms(1) assms(3) assms(2)] show ?thesis
    by (auto simp: claim_and_send_def at_most_send_def)
next
  case True
  let ?i = "new_message_id w (trace (st b))"
  obtain x s1 where c: "ClaimNewChatMessageID (n_id r) ?i (st b) = (x, s1)" by (rule prod.exhaust)
  have s1: "steady (st b) s1" using claim_ob.run_steady [of "st b"] c by (metis snd_conv)
  with assms(1) have 1: "safe (b\<lparr>st := s1\<rparr>)" by (rule safe_st)
  show ?thesis
  proof (cases "x = Inr True")
    case won: True
    then have "claimed (n_id r) ?i (st (b\<lparr>st := s1\<rparr>))" using claim_result c by simp
    from send_claimed_calls [OF 1 this assms(2)] True won c s1 show ?thesis
      by (simp add: claim_and_send_def Let_def at_most_send_def steady_def)
  next
    case lost: False
    with True c at_most_send_st [OF s1] show ?thesis
      by (auto simp: claim_and_send_def Let_def split: sum.split)
  qed
qed

definition looks_up :: "int \<Rightarrow> string \<Rightarrow> bridge \<Rightarrow> bridge \<Rightarrow> bool" where
  "looks_up i p b b' \<longleftrightarrow>
     (calls (trace (st b')) = calls (trace (st b)) @ [WaLookup i p] \<or>
      (\<exists>t m. calls (trace (st b')) = calls (trace (st b)) @ [WaLookup i p, WaSend i t m])) \<and>
     last_lookup b' = Some (wall b) \<and> wall b' = wall b"

lemma lookup_and_send_calls:
  assumes "safe b" "echoes_id w" "\<And>m. n_wa_message_id r = Some m \<Longrightarrow> claimed (n_id r) m (st b)"
  shows "looks_up (n_id r) phone b (lookup_and_send w r phone b)"
proof -
  let ?s = "emit (WaLookup (n_id r) phone) (st b)"
  let ?b1 = "b\<lparr>last_lookup := Some (wall b), st := ?s\<rparr>"
  have 1: "safe ?b1" using assms(1) by (auto simp: safe_def ids_distinct_def claimed_def)
  have "claimed (n_id r) m (st ?b1)" if "n_wa_message_id r = Some m" for m
    using assms(3) [OF that] by (simp add: claimed_def)
  from claim_and_send_calls [OF 1 assms(2) this]
  have c: "looks_up (n_id r) phone b (claim_and_send w t hit r ?b1)" for t hit
    by (simp add: at_most_send_def looks_up_def)
  have s: "looks_up (n_id r) phone b (?b1\<lparr>st := s'\<rparr>)" if "steady ?s s'" for s'
    using that by (simp add: looks_up_def steady_def)
  have f: "looks_up (n_id r) phone b (?b1\<lparr>st := failNewChat i code d ?s\<rparr>)" for i code d
    by (rule s) (simp add: failNewChat_def fail_ob.run_steady)
  have m: "looks_up (n_id r) phone b (?b1\<lparr>st := markAttempt i n code d ?s\<rparr>)" for i n code d
    by (rule s) (rule steady_markAttempt)
  show ?thesis
    unfolding lookup_and_send_def Let_def
    using c f m by (auto split: prod.split list.split option.split simp del: bridge.update_convs)
qed

text \<open>The guards of a send, on the row as the tick reads it.\<close>

definition may_send :: "bridge \<Rightarrow> outbound_row \<Rightarrow> bool" where
  "may_send b r \<longleftrightarrow>
     resolvable (utc_now (st b)) r \<and> sent_map b (o_id r) = None \<and> \<not> too_soon b \<and>
     seconds_between (o_created_at r) (server_now (st b)) \<le> newChatMaxAge div second \<and>
     o_kind r = Some ''text'' \<and> trim_space (null_str (o_body r)) \<noteq> '''' \<and>
     mxPhone (null_str (o_to_phone r))"

definition silent :: "bridge \<Rightarrow> bridge \<Rightarrow> bool" where
  "silent b b' \<longleftrightarrow> calls (trace (st b')) = calls (trace (st b)) \<and>
     last_lookup b' = last_lookup b \<and> wall b' = wall b"

lemma silent_st: "steady (st b) s' \<Longrightarrow> silent b (b\<lparr>st := s'\<rparr>)"
  by (simp add: silent_def steady_def)

lemma sendNewChatRow_calls:
  assumes "safe b" "echoes_id w" "\<And>m. n_wa_message_id r = Some m \<Longrightarrow> claimed (n_id r) m (st b)"
  shows "silent b (sendNewChatRow w r b) \<or>
    sent_map b (n_id r) = None \<and> \<not> n_expired r \<and> null_str (n_kind r) = ''text'' \<and>
    trim_space (null_str (n_body r)) \<noteq> '''' \<and> mxPhone (null_str (n_to_phone r)) \<and>
    looks_up (n_id r) (null_str (n_to_phone r)) b (sendNewChatRow w r b)"
proof (cases "sent_map b (n_id r)")
  case (Some wr)
  then have "claimed (n_id r) (w_wa_id wr) (st b)" using assms(1) by (simp add: safe_def)
  from finish_steady [OF assms(1) this] Some show ?thesis
    by (simp add: sendNewChatRow_def silent_def steady_def)
next
  case None
  have f: "silent b (b\<lparr>st := failNewChat i code d (st b)\<rparr>)" for i code d
    by (rule silent_st) (simp add: failNewChat_def fail_ob.run_steady)
  show ?thesis
    using None f lookup_and_send_calls [OF assms, of "null_str (n_to_phone r)"]
    by (simp add: sendNewChatRow_def split: if_split)
qed

lemma tick_calls:
  assumes "safe b" "echoes_id w"
  shows "silent b (processNewChats w b) \<or>
    (\<exists>r \<in> set (wa_outbound (st b)). may_send b r \<and>
       looks_up (o_id r) (null_str (o_to_phone r)) b (processNewChats w b))"
proof -
  obtain x s1 where q: "Fallback featureNewChat queryResolveOutbound None None (st b) = (x, s1)"
    by (rule prod.exhaust)
  have s1: "steady (st b) s1" using steady_queryResolve [of "st b"] q by simp
  then have 1: "safe (b\<lparr>st := s1\<rparr>)" by (rule safe_st [OF assms(1)])
  show ?thesis
  proof (cases "FeatureOff featureNewChat (st b) \<or> too_soon b \<or> (\<exists>e. x = Inl e) \<or> x = Inr None")
    case True
    then show ?thesis
      using q silent_st [OF s1] by (auto simp: processNewChats_def silent_def)
  next
    case False
    then obtain r where x: "x = Inr (Some r)" by (cases x) auto
    have p: "processNewChats w b = sendNewChatRow w r (b\<lparr>st := s1\<rparr>)"
      using False q x by (simp add: processNewChats_def)
    obtain z where z: "z \<in> set (wa_outbound (st b))" "resolvable (utc_now (st b)) z"
      "r = new_chat_row_of (server_now (st b)) z" "s1 = sent_off ''SELECT wa_outbound resolve'' (st b)"
      using query_result q x by blast
    have "claimed (n_id r) m (st (b\<lparr>st := s1\<rparr>))" if "n_wa_message_id r = Some m" for m
      using z that by (auto simp: claimed_def new_chat_row_of_def)
    from sendNewChatRow_calls [OF 1 assms(2) this]
    have "silent b (processNewChats w b) \<or> may_send b z \<and>
        looks_up (o_id z) (null_str (o_to_phone z)) b (processNewChats w b)"
      unfolding p using False z s1
      by (auto simp: silent_def looks_up_def steady_def may_send_def new_chat_row_of_def null_str_def
          split: option.splits)
    then show ?thesis using z(1) by blast
  qed
qed

text \<open>C2: A tick sends only for a resolve row within its attempts and backoff, not expired, with a text body and a +52 number, after one lookup of that number, with the message ID already on the row.\<close>

theorem sends_only_when_allowed:
  assumes "safe b" "echoes_id w" "WaSend i t m \<in> set (trace (st (processNewChats w b)))"
    and "WaSend i t m \<notin> set (trace (st b))"
  shows "\<exists>r \<in> set (wa_outbound (st b)). o_id r = i \<and> may_send b r \<and>
    claimed i m (st (processNewChats w b)) \<and>
    calls (trace (st (processNewChats w b))) =
      calls (trace (st b)) @ [WaLookup i (null_str (o_to_phone r)), WaSend i t m]"
proof -
  let ?b = "processNewChats w b"
  have in_calls: "e \<in> set (calls tr) \<longleftrightarrow> e \<in> set tr \<and> is_call e" for e tr by (simp add: calls_def)
  have new: "WaSend i t m \<in> set (calls (trace (st ?b)))" "WaSend i t m \<notin> set (calls (trace (st b)))"
    using assms(3,4) by (simp_all add: in_calls)
  then obtain r where r: "r \<in> set (wa_outbound (st b))" "may_send b r"
    "looks_up (o_id r) (null_str (o_to_phone r)) b ?b"
    using tick_calls [OF assms(1,2)] by (auto simp: silent_def)
  then have "calls (trace (st ?b)) = calls (trace (st b)) @ [WaLookup (o_id r) (null_str (o_to_phone r)), WaSend i t m]"
    "o_id r = i"
    using new by (auto simp: looks_up_def)
  moreover have "claimed i m (st ?b)"
    using safe_processNewChats [OF assms(1,2)] assms(3) by (auto simp: safe_def sends_def)
  ultimately show ?thesis using r by blast
qed

section \<open>The pace of a run\<close>

fun is_lookup :: "event \<Rightarrow> bool" where
  "is_lookup (WaLookup _ _) = True"
| "is_lookup _ = False"

definition lookups :: "bridge \<Rightarrow> nat" where
  "lookups b = length (filter is_lookup (calls (trace (st b))))"

text \<open>A run in which the process is never restarted: its memory of the last lookup stays.\<close>

inductive alive :: "wa \<Rightarrow> bridge \<Rightarrow> bridge \<Rightarrow> bool" for w :: wa and b :: bridge where
  alive_start: "alive w b b"
| alive_more: "alive w b b' \<Longrightarrow> step w b' b'' \<Longrightarrow> last_lookup b' = None \<or> last_lookup b'' \<noteq> None \<Longrightarrow>
    alive w b b''"

definition paced :: "bridge \<Rightarrow> bridge \<Rightarrow> bool" where
  "paced b0 b \<longleftrightarrow> wall b0 \<le> wall b \<and>
     (lookups b = lookups b0 \<or>
      (\<exists>l. last_lookup b = Some l \<and> l \<le> wall b \<and> lookups b0 < lookups b \<and>
         newChatMinGap * (int (lookups b) - int (lookups b0) - 1) \<le> l - wall b0))"

lemma paced_silent: "paced b0 b \<Longrightarrow> silent b b' \<Longrightarrow> paced b0 b'"
  by (simp add: paced_def silent_def lookups_def)

lemma looks_up_lookups: "looks_up i p b b' \<Longrightarrow> lookups b' = Suc (lookups b)"
  by (auto simp: looks_up_def lookups_def)

lemma paced_looks_up:
  assumes "paced b0 b" "\<not> too_soon b" "looks_up i p b b'"
  shows "paced b0 b'"
proof -
  have n: "lookups b' = Suc (lookups b)" using assms(3) by (rule looks_up_lookups)
  have l: "last_lookup b' = Some (wall b)" "wall b' = wall b" using assms(3) by (simp_all add: looks_up_def)
  show ?thesis
  proof (cases "lookups b = lookups b0")
    case True
    with n l assms(1) show ?thesis by (simp add: paced_def)
  next
    case False
    then obtain k where k: "last_lookup b = Some k" "lookups b0 < lookups b"
      "newChatMinGap * (int (lookups b) - int (lookups b0) - 1) \<le> k - wall b0" "wall b0 \<le> wall b"
      using assms(1) by (auto simp: paced_def)
    moreover have "newChatMinGap \<le> wall b - k" using assms(2) k(1) by (simp add: too_soon_def)
    ultimately have "newChatMinGap * (int (lookups b) - int (lookups b0) - 1) + newChatMinGap \<le> wall b - wall b0"
      by linarith
    then have "newChatMinGap * (int (Suc (lookups b)) - int (lookups b0) - 1) \<le> wall b - wall b0"
      by (simp add: algebra_simps)
    with n l k show ?thesis by (simp add: paced_def)
  qed
qed

lemma paced_step:
  assumes "step w b b'" "safe b" "echoes_id w" "paced b0 b"
    and "last_lookup b = None \<or> last_lookup b' \<noteq> None"
  shows "paced b0 b'"
  using assms(1)
proof (cases rule: step.cases)
  case tick
  with tick_calls [OF assms(2,3)] assms(4) show ?thesis
    by (auto simp: may_send_def intro: paced_silent paced_looks_up)
next
  case restart
  with assms(4,5) show ?thesis by (auto simp: paced_def lookups_def)
next
  case (time d)
  with assms(4) show ?thesis by (auto simp: paced_def lookups_def)
next
  case (others s ns)
  have "calls (map Stmt ns) = []" by (simp add: calls_def filter_empty_conv)
  with others assms(4) show ?thesis by (simp add: paced_def lookups_def)
qed (use assms(4) in \<open>simp_all add: paced_def lookups_def\<close>)

text \<open>C27: While the process lives, n+1 new-chat lookups take at least n times newChatMinGap.\<close>

theorem lookups_are_paced:
  assumes "alive w b0 b" "safe b0" "echoes_id w"
  shows "lookups b0 \<le> lookups b \<and>
    newChatMinGap * (int (lookups b) - int (lookups b0) - 1) \<le> wall b - wall b0"
proof -
  have "safe b \<and> paced b0 b"
    using assms(1)
  proof induction
    case alive_start
    then show ?case using assms(2) by (simp add: paced_def)
  next
    case (alive_more b' b'')
    then show ?case using safe_step paced_step assms(3) by blast
  qed
  moreover have "0 < newChatMinGap" by (simp add: newChatMinGap_def second_def)
  ultimately show ?thesis by (auto simp: paced_def)
qed

section \<open>Closed instances\<close>

definition ticked_bridge :: bridge where
  "ticked_bridge = processNewChats sample_wa sample_bridge"

lemma ticked_calls:
  "calls (trace (st ticked_bridge)) = [WaLookup 7 ''+525512345678'', WaSend 7 ''525512345678'' ''W1'']"
  "last_lookup ticked_bridge = Some 0" "wall ticked_bridge = 0"
  by code_simp+

theorem sends_only_when_allowed_witness:
  "WaSend 7 ''525512345678'' ''W1'' \<in> set (trace (st (processNewChats sample_wa sample_bridge))) \<and>
   (\<exists>r \<in> set (wa_outbound (st sample_bridge)). o_id r = 7 \<and> may_send sample_bridge r)"
proof -
  have "WaSend 7 ''525512345678'' ''W1'' \<in> set (calls (trace (st ticked_bridge)))"
    by (simp add: ticked_calls)
  then have "WaSend 7 ''525512345678'' ''W1'' \<in> set (trace (st (processNewChats sample_wa sample_bridge)))"
    by (simp add: calls_def ticked_bridge_def)
  moreover have "WaSend 7 ''525512345678'' ''W1'' \<notin> set (trace (st sample_bridge))"
    by (simp add: sample_bridge_def sample_defs)
  ultimately show ?thesis using sends_only_when_allowed [OF sample_bridge_safe] by blast
qed

theorem lookups_are_paced_witness:
  "alive sample_wa sample_bridge ticked_bridge \<and> lookups ticked_bridge = 1 \<and>
   newChatMinGap * (int (lookups ticked_bridge) - int (lookups sample_bridge) - 1) \<le> 0"
proof -
  have a: "alive sample_wa sample_bridge ticked_bridge"
    unfolding ticked_bridge_def
    by (rule alive_more [OF alive_start tick]) (simp add: sample_bridge_def)
  have "lookups ticked_bridge = 1" by (simp add: lookups_def ticked_calls)
  moreover have "wall sample_bridge = 0" by (simp add: sample_bridge_def)
  ultimately show ?thesis
    using a lookups_are_paced [OF a sample_bridge_safe] ticked_calls(3) by simp
qed

end
