(* ===== verification/ColdSends.thy ===== *)
theory ColdSends
  imports Machine NewChatPacing
begin

text \<open>
  Cold messages in the whole machine: the loop for pending rows, the events and the web
  application work on the same tables as the new-chat path, and all sends of one cold message
  still carry one message ID.
\<close>

section \<open>What the other loops leave alone\<close>

definition cold_view :: "store \<Rightarrow> outbound_row list \<times> event list" where
  "cold_view s = (wa_outbound s, NewChatSafety.sends (trace s))"

lemma no_cold_send [simp]:
  "NewChatSafety.sends [WaSendRow i j] = []" "NewChatSafety.sends [WaPresence j state] = []"
  "NewChatSafety.sends [WaOnline] = []" "NewChatSafety.sends [WaLogout] = []"
  "set es \<subseteq> range WaCheck \<Longrightarrow> NewChatSafety.sends es = []"
  by (auto simp: NewChatSafety.sends_def filter_empty_conv)

lemma cold_send_in [simp]: "WaSend i t m \<in> set (NewChatSafety.sends tr) \<longleftrightarrow> WaSend i t m \<in> set tr"
  by (simp add: NewChatSafety.sends_def)

interpretation cold_m: beside_messages cold_view
  by unfold_locales (simp_all add: cold_view_def)

interpretation cold_c: beside_chats cold_view
  by unfold_locales (simp_all add: cold_view_def)

interpretation cold_r: beside_requests cold_view
  by unfold_locales (simp_all add: cold_view_def)

interpretation cold: loops_frame "\<lambda>s s'. cold_view s' = cold_view s"
proof unfold_locales
  show "cold_view (emit WaOnline s) = cold_view s" "cold_view (emit WaLogout s) = cold_view s" for s
    by (simp_all add: cold_view_def)
  show "cold_view (emit (WaPresence j state) s) = cold_view s" for s j state by (simp add: cold_view_def)
  show "cold_view (s\<lparr>trace := trace s @ es\<rparr>) = cold_view s" if "set es \<subseteq> range WaCheck" for s es
    using that by (simp add: cold_view_def)
qed (simp_all add: cold_m.view_message_methods cold_c.view_chat_methods cold_r.view_request_methods)

text \<open>A turn of a pending row leaves every other row and the cold sends alone.\<close>

definition own_turn :: "int \<Rightarrow> store \<Rightarrow> outbound_row list \<times> int list \<times> event list" where
  "own_turn oid s = (filter (\<lambda>r. o_id r \<noteq> oid) (wa_outbound s), map o_id (wa_outbound s),
     NewChatSafety.sends (trace s))"

interpretation turn_m: beside_messages "own_turn oid" for oid
  by unfold_locales (simp_all add: own_turn_def)

interpretation turn_c: beside_chats "own_turn oid" for oid
  by unfold_locales (simp_all add: own_turn_def)

interpretation turn: sending_frame "\<lambda>s s'. own_turn oid s' = own_turn oid s" oid for oid
proof unfold_locales
  show "own_turn oid (snd (update_outbound oid f s)) = own_turn oid s"
    if "\<And>now r. o_id (f now r) = o_id r" for f s
    using filter_update_other [of o_id "f (utc_now s)" oid]
      that
    by (simp add: own_turn_def update_outbound_def map_key_update_where)
  show "own_turn oid (emit (WaSendRow oid j) s) = own_turn oid s" for j s by (simp add: own_turn_def)
qed (simp_all add: turn_m.view_message_methods turn_c.view_UpsertChat)

text \<open>A tick for new chats makes no row pending.\<close>

definition pendings :: "store \<Rightarrow> int set" where
  "pendings s = o_id ` {r \<in> set (wa_outbound s). o_status r = ''pending''}"

definition none_requeued :: "store \<Rightarrow> store \<Rightarrow> bool" where
  "none_requeued s s' \<longleftrightarrow> pendings s' \<subseteq> pendings s"

lemma requeued_same: "wa_outbound s' = wa_outbound s \<Longrightarrow> none_requeued s s'"
  by (simp add: none_requeued_def pendings_def)

lemma requeued_update:
  assumes "\<And>r. o_id (f r) = o_id r" "\<And>r. o_status (f r) = ''pending'' \<Longrightarrow> o_status r = ''pending''"
  shows "none_requeued s (set_outbound (update_where p f) s)"
  unfolding none_requeued_def
proof
  fix i
  assume "i \<in> pendings (set_outbound (update_where p f) s)"
  then obtain r where r: "r \<in> set (wa_outbound s)" "i = o_id (if p r then f r else r)"
    "o_status (if p r then f r else r) = ''pending''"
    by (auto simp: pendings_def update_where_def)
  then have "o_status r = ''pending''" "i = o_id r" using assms by (auto split: if_splits)
  with r(1) show "i \<in> pendings s" by (auto simp: pendings_def)
qed

interpretation waiting: store_frame none_requeued
  by unfold_locales (auto simp: none_requeued_def pendings_def)

lemma requeued_exec:
  assumes "\<And>now r. o_id (f now r) = o_id r"
    "\<And>now r. o_status (f now r) = ''pending'' \<Longrightarrow> o_status r = ''pending''"
  shows "none_requeued s (snd (exec n cols (update_outbound oid f) s))"
  by (rule waiting.frame_exec) (simp add: update_outbound_def requeued_update assms)

lemma requeued_fail: "none_requeued s (snd (FailOutbound oid n c d s))"
  unfolding FailOutbound_def Let_def
  by (rule waiting.frame_Fallback) (auto simp: failed_row_def intro!: requeued_exec)

interpretation waiting: cold_frame none_requeued
proof unfold_locales
  show "none_requeued s (snd (UpsertChat c s))" "none_requeued s (snd (InsertMessage m s))" for c m s
    using cold_m.view_InsertMessage [of m s] cold_c.view_UpsertChat [of c s]
    by (simp_all add: cold_view_def requeued_same)
  show "none_requeued s (snd (MarkNewChatSent oid i s))" for oid i s
    unfolding MarkNewChatSent_def
    by (rule waiting.frame_Fallback) (auto simp: sent_row_def intro!: requeued_exec)
  show "none_requeued s (snd (SetOutboundChat oid j s))" for oid j s
    unfolding SetOutboundChat_def
    by (rule waiting.frame_exec) (auto simp: waiting.R_refl intro!: requeued_update)
  show "none_requeued s (snd (ClaimNewChatMessageID oid i s))" for oid i s
    unfolding ClaimNewChatMessageID_def
    by (rule waiting.frame_exec) (auto intro!: requeued_update)
  show "none_requeued s (markAttempt oid n c d s)" for oid n c d s
    by (auto simp: markAttempt_def Let_def requeued_fail attempted_row_def intro!: requeued_exec)
  show "none_requeued s (failNewChat oid c d s)" for oid c d s
    by (simp add: failNewChat_def requeued_fail)
qed (simp_all add: requeued_same)

section \<open>The memory of the process\<close>

text \<open>Only the new-chat path writes \<open>sent\<close>, the sends whose stamp is still missing.\<close>

lemma memory_history_message: "sent_map (snd (history_message w j cs g p b)) = sent_map b"
proof -
  have "sent_map (snd (history_store w j evt b)) = sent_map b" for evt b
    by (simp add: history_store_def Let_def split: option.split sum.split prod.split)
  then show ?thesis
    by (simp add: history_message_def split: option.split proto_action.split prod.split)
qed

lemma memory_history_messages: "sent_map (snd (history_messages w j cs g ps b)) = sent_map b"
  by (induction ps arbitrary: b)
    (simp_all add: memory_history_message split: prod.split, metis memory_history_message snd_conv)

lemma memory_history: "sent_map (handleHistorySync w n convs b) = sent_map b"
proof -
  have ms: "sent_map b2 = sent_map b" if "history_messages w j cs g ps b = (m, b2)" for j cs g ps b m b2
    using memory_history_messages that by (metis snd_conv)
  have one: "sent_map (history_conversation w cv b) = sent_map b" for cv b
    by (auto simp: history_conversation_def Let_def split: sum.split prod.split dest: ms)
  have "sent_map (foldl (\<lambda>b cv. history_conversation w cv b) b cvs) = sent_map b" for cvs
    by (induction cvs arbitrary: b) (simp_all add: one)
  then show ?thesis by (simp add: handleHistorySync_def)
qed

lemma memory_session:
  "sent_map (recordSessionLost r b) = sent_map b" "sent_map (signalFatal r b) = sent_map b"
  "sent_map (heartbeat b) = sent_map b" "sent_map (set_paired w b) = sent_map b"
  by (simp_all add: recordSessionLost_def signalFatal_def heartbeat_def set_paired_def split: option.split)

lemma memory_online: "sent_map (markOnline w b) = sent_map b" "sent_map (online_tick w b) = sent_map b"
  by (simp_all add: markOnline_def online_tick_def send_online_def)

lemma memory_event: "sent_map (handleEvent w e b) = sent_map b"
proof -
  have "sent_map (store_message w evt j c b) = sent_map b" for evt j c b
    by (simp add: store_message_def Let_def split: prod.split sum.split)
  then have "sent_map (handleMessage w evt b) = sent_map b" for evt
    by (simp add: handleMessage_def Let_def split: prod.split bool.split option.split sum.split)
  then show ?thesis
    by (simp add: handleEvent_def Let_def memory_session memory_online memory_history handleChatPresence_def
        handleReceipt_def split: wa_event.split option.split)
qed

lemma memory_loops:
  "sent_map (typing_tick w b) = sent_map b" "sent_map (picture_tick w n b) = sent_map b"
  "sent_map (qr_step w q b) = sent_map b" "sent_map (snd (Start w b)) = sent_map b"
  "sent_map (snd (reset_tick b)) = sent_map b" "sent_map (snd (connection_tick w b)) = sent_map b"
  by (simp_all add: typing_tick_def flushTypingOutbound_def picture_tick_def refreshStaleProfilePics_def
      qr_step_def Start_def reset_tick_def unlink_device_def connection_tick_def Let_def memory_session
      split: prod.split sum.split option.split qr_event.split)

lemma memory_build: "sent_map (snd (build_row w r b)) = sent_map b"
proof -
  have "sent_map (snd (fetch_and_build w r t n b)) = sent_map b" for t n
    by (simp add: fetch_and_build_def split: prod.split sum.split)
  then have "sent_map (snd (buildOutboundMessage w r b)) = sent_map b"
    by (simp add: buildOutboundMessage_def permanent_failure_def Let_def split: option.split)
  moreover have "sent_map (snd (buildLocationMessage r b)) = sent_map b"
    by (simp add: buildLocationMessage_def permanent_failure_def Let_def
        split: option.split prod.split sum.split)
  ultimately show ?thesis
    by (auto simp: build_row_def split: prod.split sum.split)
qed

lemma memory_row: "sent_map (sendOutboundRow w r b) = sent_map b"
proof -
  have "sent_map (build_and_send w r chat j q b) = sent_map b" for chat j q b
  proof -
    obtain x b1 where g: "build_row w r b = (x, b1)" by (rule prod.exhaust)
    have "sent_map b1 = sent_map b" using memory_build [of w r b] by (simp add: g)
    then show ?thesis by (simp add: build_and_send_def g split: prod.split sum.split)
  qed
  then show ?thesis
    by (simp add: sendOutboundRow_def Let_def split: prod.split sum.split)
qed

section \<open>The invariant\<close>

text \<open>No cold message was sent for a pending row.\<close>

definition fresh :: "bridge \<Rightarrow> int \<Rightarrow> bool" where
  "fresh b i \<longleftrightarrow> (\<forall>t m. WaSend i t m \<notin> set (trace (st b))) \<and> sent_map b i = None"

definition cold_ok :: "bridge \<Rightarrow> bool" where
  "cold_ok b \<longleftrightarrow> safe b \<and> (\<forall>i \<in> pendings (st b). fresh b i)"

lemma safe_same:
  assumes "cold_view (st b') = cold_view (st b)" "\<And>i wr. sent_map b' i = Some wr \<Longrightarrow> sent_map b i = Some wr"
    and "safe b"
  shows "safe b'"
  using assms by (auto simp: safe_def cold_view_def ids_distinct_def claimed_def)

lemma fresh_same:
  assumes "NewChatSafety.sends (trace (st b')) = NewChatSafety.sends (trace (st b))"
    "\<And>i wr. sent_map b' i = Some wr \<Longrightarrow> sent_map b i = Some wr" "fresh b i"
  shows "fresh b' i"
proof -
  have "WaSend i t m \<in> set (trace (st b')) \<longleftrightarrow> WaSend i t m \<in> set (trace (st b))" for t m
    using cold_send_in [of i t m "trace (st b')"] cold_send_in [of i t m "trace (st b)"] by (simp add: assms(1))
  with assms(2,3) show ?thesis by (cases "sent_map b' i") (auto simp: fresh_def)
qed

lemma cold_ok_same:
  assumes "cold_view (st b') = cold_view (st b)" "\<And>i wr. sent_map b' i = Some wr \<Longrightarrow> sent_map b i = Some wr"
    and "cold_ok b"
  shows "cold_ok b'"
proof -
  have v: "wa_outbound (st b') = wa_outbound (st b)"
    "NewChatSafety.sends (trace (st b')) = NewChatSafety.sends (trace (st b))"
    using assms(1) by (simp_all add: cold_view_def)
  then have "pendings (st b') = pendings (st b)" by (simp add: pendings_def)
  with assms(3) safe_same [OF assms(1,2)] fresh_same [OF v(2) assms(2)] show ?thesis
    by (simp add: cold_ok_def)
qed

lemma same_row:
  "ids_distinct s \<Longrightarrow> x \<in> set (wa_outbound s) \<Longrightarrow> y \<in> set (wa_outbound s) \<Longrightarrow> o_id x = o_id y \<Longrightarrow> x = y"
  unfolding ids_distinct_def distinct_map by (metis inj_onD)

section \<open>Pending rows\<close>

lemma cold_row:
  assumes "cold_ok b" "fresh b (pr_id r)"
  shows "cold_ok (sendOutboundRow w r b)"
    and "fresh b i \<Longrightarrow> fresh (sendOutboundRow w r b) i"
proof -
  let ?b = "sendOutboundRow w r b"
  have t: "own_turn (pr_id r) (st ?b) = own_turn (pr_id r) (st b)"
    by (rule turn.R_sendOutboundRow) simp
  then have ids: "map o_id (wa_outbound (st ?b)) = map o_id (wa_outbound (st b))"
    and sends: "NewChatSafety.sends (trace (st ?b)) = NewChatSafety.sends (trace (st b))"
    by (simp_all add: own_turn_def)
  have rows: "x \<in> set (wa_outbound (st ?b)) \<longleftrightarrow> x \<in> set (wa_outbound (st b))" if "o_id x \<noteq> pr_id r" for x
  proof -
    have "filter (\<lambda>r'. o_id r' \<noteq> pr_id r) (wa_outbound (st ?b)) = filter (\<lambda>r'. o_id r' \<noteq> pr_id r) (wa_outbound (st b))"
      using t by (simp add: own_turn_def)
    from arg_cong [OF this, of "\<lambda>xs. x \<in> set xs"] that show ?thesis by simp
  qed
  have fr: "fresh ?b i" if "fresh b i" for i
    using fresh_same [OF sends] that by (simp add: memory_row)
  then show "fresh b i \<Longrightarrow> fresh ?b i" .
  have claims: "claimed i m (st ?b)" if "claimed i m (st b)" "i \<noteq> pr_id r" for i m
    using that rows by (auto simp: claimed_def)
  have "i \<noteq> pr_id r" if "WaSend i t m \<in> set (trace (st b)) \<or> sent_map b i = Some wr" for i t m wr
    using assms(2) that by (auto simp: fresh_def)
  with claims have "safe ?b"
    using assms(1) unfolding cold_ok_def safe_def ids_distinct_def memory_row sends cold_send_in ids
    by blast
  moreover have "fresh ?b i" if "i \<in> pendings (st ?b)" for i
  proof (cases "i = pr_id r")
    case True
    with assms(2) fr show ?thesis by simp
  next
    case False
    with that rows have "i \<in> pendings (st b)" by (auto simp: pendings_def)
    with assms(1) fr show ?thesis by (simp add: cold_ok_def)
  qed
  ultimately show "cold_ok ?b" by (simp add: cold_ok_def)
qed

lemma cold_rows:
  assumes "cold_ok b" "\<And>r. r \<in> set rs \<Longrightarrow> fresh b (pr_id r)"
  shows "cold_ok (foldl (\<lambda>b r. sendOutboundRow w r b) b rs)"
  using assms
proof (induction rs arbitrary: b)
  case (Cons r rs)
  have "fresh b (pr_id r)" using Cons.prems(2) by simp
  with Cons.IH [OF cold_row(1) [OF Cons.prems(1)]] cold_row(2) [OF Cons.prems(1)] Cons.prems(2)
  show ?case by simp
qed simp

lemma scan_all_in: "scan_all f xs = Some ys \<Longrightarrow> y \<in> set ys \<Longrightarrow> \<exists>x \<in> set xs. f x = Some y"
  by (induction xs arbitrary: ys) (auto split: option.splits)

lemma batch_is_pending:
  assumes "pending_batch s = (Inr rs, s1)" "r \<in> set rs"
  shows "pr_id r \<in> pendings s"
proof -
  have one: "pr_id r \<in> pendings s'" if q: "queryPendingOutbound q s' = (Inr rs, s1)" for q s'
  proof -
    let ?xs = "filter (sendable (utc_now s')) (wa_outbound s')"
    have "scan_all (scan_pending q) (take 10 (sort_key o_id ?xs)) = Some rs"
      using exec_Inr [OF q [unfolded queryPendingOutbound_def]]
      by (simp add: selects_def split: option.splits)
    from scan_all_in [OF this assms(2)] obtain x where
      "x \<in> set (take 10 (sort_key o_id ?xs))" "scan_pending q x = Some r" by (rule bexE)
    moreover from in_set_takeD [OF this(1)] have "x \<in> set ?xs" by simp
    ultimately show ?thesis using scan_pending_fields(1) by (auto simp: pendings_def sendable_def)
  qed
  have same: "pendings (switch_off f s2) = pendings s" if q: "queryPendingOutbound q s = (x, s2)" for q x s2 f
  proof -
    have "cold_view (snd (queryPendingOutbound q s)) = cold_view s"
      unfolding queryPendingOutbound_def by (rule cold_m.frame_selects)
    then show ?thesis by (simp add: q cold_view_def pendings_def)
  qed
  show ?thesis
    using assms(1) unfolding pending_batch_def
    by (cases rule: Fallback_cases) (auto simp: legacy_def one dest: one same)
qed

section \<open>New chats\<close>

text \<open>The memory changes for one row only.\<close>

definition remembers :: "int \<Rightarrow> bridge \<Rightarrow> bridge \<Rightarrow> bool" where
  "remembers oid b b' \<longleftrightarrow> (\<forall>j. j \<noteq> oid \<longrightarrow> sent_map b' j = sent_map b j)"

lemma remembers_finish: "remembers oid b (finishNewChat oid wr b)"
  by (simp add: remembers_def finishNewChat_def split: prod.split sum.split)

lemma remembers_claimed: "remembers (n_id r) b (send_claimed w target hit r i b)"
proof -
  have "remembers (n_id r) b (finishNewChat (n_id r) wr (b\<lparr>st := s, sent_map := (sent_map b)(n_id r := x)\<rparr>))"
    for wr s x
    using remembers_finish [of "n_id r" "b\<lparr>st := s, sent_map := (sent_map b)(n_id r := x)\<rparr>" wr]
    by (simp add: remembers_def)
  then show ?thesis by (simp add: send_claimed_def Let_def split: sum.split) (simp add: remembers_def)
qed

lemma remembers_row: "remembers (n_id r) b (sendNewChatRow w r b)"
proof -
  have claim: "remembers (n_id r) b (claim_and_send w target hit r b)" for target hit b
  proof -
    have "remembers (n_id r) b (send_claimed w target hit r i (b\<lparr>st := s\<rparr>))" for i s
      using remembers_claimed [of r "b\<lparr>st := s\<rparr>"] by (simp add: remembers_def)
    then show ?thesis
      by (simp add: claim_and_send_def Let_def remembers_claimed split: prod.split sum.split)
        (simp add: remembers_def)
  qed
  have "remembers (n_id r) b (claim_and_send w target hit r (b\<lparr>last_lookup := l, st := s\<rparr>))" for target hit l s
    using claim [of "b\<lparr>last_lookup := l, st := s\<rparr>"] by (simp add: remembers_def)
  then have "remembers (n_id r) b (lookup_and_send w r phone b)" for phone
    by (simp add: lookup_and_send_def Let_def split: prod.split list.split option.split)
      (simp add: remembers_def)
  then show ?thesis
    by (simp add: sendNewChatRow_def remembers_finish split: option.split) (simp add: remembers_def)
qed

lemma tick_memory:
  "sent_map (processNewChats w b) i = sent_map b i \<or>
   (\<exists>z \<in> set (wa_outbound (st b)). resolvable (utc_now (st b)) z \<and> o_id z = i)"
proof -
  obtain x s1 where q: "Fallback featureNewChat queryResolveOutbound None None (st b) = (x, s1)"
    by (rule prod.exhaust)
  have "sent_map (sendNewChatRow w r (b\<lparr>st := s1\<rparr>)) i = sent_map b i \<or>
      (\<exists>z \<in> set (wa_outbound (st b)). resolvable (utc_now (st b)) z \<and> o_id z = i)" if x: "x = Inr (Some r)" for r
  proof -
    obtain z where "z \<in> set (wa_outbound (st b))" "resolvable (utc_now (st b)) z" "n_id r = o_id z"
      using query_result [of "st b" r s1] q x by (auto simp: new_chat_row_of_def)
    with remembers_row [of r "b\<lparr>st := s1\<rparr>" w] show ?thesis
      by (cases "i = o_id z") (auto simp: remembers_def)
  qed
  then show ?thesis
    by (auto simp: processNewChats_def q split: sum.split option.split)
qed

lemma cold_tick:
  assumes "cold_ok b" "echoes_id w"
  shows "cold_ok (processNewChats w b)"
proof -
  let ?b = "processNewChats w b"
  have safe: "safe b" "safe ?b" using assms safe_processNewChats by (auto simp: cold_ok_def)
  have "fresh ?b i" if "i \<in> pendings (st ?b)" for i
  proof -
    have p: "i \<in> pendings (st b)"
      using that waiting.R_processNewChats [of b w] by (auto simp: none_requeued_def)
    then have f: "fresh b i" using assms(1) by (simp add: cold_ok_def)
    have other: "\<not> resolvable t z" if "z \<in> set (wa_outbound (st b))" "o_id z = i" for z t
    proof
      assume "resolvable t z"
      moreover obtain y where y: "y \<in> set (wa_outbound (st b))" "o_id y = i" "o_status y = ''pending''"
        using p by (auto simp: pendings_def)
      moreover have "z = y" using safe(1) that y by (intro same_row [of "st b"]) (simp_all add: safe_def)
      ultimately show False by (simp add: resolvable_def)
    qed
    have in_calls: "WaSend i t m \<in> set tr \<longleftrightarrow> WaSend i t m \<in> set (calls tr)" for t m tr
      by (simp add: calls_def)
    have "WaSend i t m \<notin> set (trace (st ?b))" for t m
    proof -
      have "WaSend i t m \<notin> set (calls (trace (st b)))" using f in_calls by (simp add: fresh_def)
      then have "WaSend i t m \<notin> set (calls (trace (st ?b)))"
        using tick_calls [OF safe(1) assms(2)] other
        by (auto simp: silent_def looks_up_def may_send_def)
      then show ?thesis using in_calls by simp
    qed
    moreover have "sent_map ?b i = None" using tick_memory [of w b i] f other by (auto simp: fresh_def)
    ultimately show ?thesis by (simp add: fresh_def)
  qed
  with safe(2) show ?thesis by (simp add: cold_ok_def)
qed

lemma cold_outbound:
  assumes "cold_ok b" "echoes_id w"
  shows "cold_ok (outbound_tick w b)"
proof -
  obtain x s1 where q: "pending_batch (st b) = (x, s1)" by (rule prod.exhaust)
  have "cold_view (snd (pending_batch (st b))) = cold_view (st b)"
    by (auto simp: pending_batch_def queryPendingOutbound_def intro!: cold_m.frame_Fallback cold_m.frame_selects)
  then have v: "cold_view s1 = cold_view (st b)" by (simp add: q)
  have 1: "cold_ok (b\<lparr>st := s1\<rparr>)" by (rule cold_ok_same [OF _ _ assms(1)]) (simp_all add: v)
  have "cold_ok (foldl (\<lambda>b r. sendOutboundRow w r b) (b\<lparr>st := s1\<rparr>) rs)" if x: "x = Inr rs" for rs
  proof (rule cold_rows [OF 1])
    fix r
    assume "r \<in> set rs"
    then have "pr_id r \<in> pendings (st b)" using batch_is_pending q x by blast
    moreover have "pendings s1 = pendings (st b)" using v by (simp add: cold_view_def pendings_def)
    ultimately show "fresh (b\<lparr>st := s1\<rparr>) (pr_id r)" using 1 by (simp add: cold_ok_def)
  qed
  then show ?thesis
    using 1 assms cold_tick
    by (simp add: outbound_tick_def processOutboundBatch_def q split: sum.split)
qed

section \<open>Every step\<close>

lemma unclaimed_fresh:
  assumes "safe b" "r \<in> set (wa_outbound (st b))" "o_whatsapp_message_id r = None"
  shows "fresh b (o_id r)"
proof -
  have "\<not> claimed (o_id r) m (st b)" for m
  proof
    assume "claimed (o_id r) m (st b)"
    then obtain y where y: "y \<in> set (wa_outbound (st b))" "o_id y = o_id r" "o_whatsapp_message_id y = Some m"
      by (auto simp: claimed_def)
    have "y = r" using assms(1,2) y by (intro same_row [of "st b"]) (simp_all add: safe_def)
    with y(3) assms(3) show False by simp
  qed
  then have "WaSend (o_id r) t m \<notin> set (trace (st b))" "sent_map b (o_id r) \<noteq> Some wr" for t m wr
    using assms(1) unfolding safe_def cold_send_in by blast+
  then show ?thesis unfolding fresh_def by (metis option.exhaust)
qed

lemma cold_queue:
  assumes "cold_ok b" "o_id r \<notin> o_id ` set (wa_outbound (st b))" "o_whatsapp_message_id r = None"
  shows "cold_ok (b\<lparr>st := set_outbound (\<lambda>rs. rs @ [r]) (st b)\<rparr>)"
proof -
  let ?b = "b\<lparr>st := set_outbound (\<lambda>rs. rs @ [r]) (st b)\<rparr>"
  have s: "safe ?b" using assms(1,2) by (auto simp: cold_ok_def safe_def ids_distinct_def claimed_def)
  have "fresh ?b i" if "i \<in> pendings (st ?b)" for i
  proof (cases "i = o_id r")
    case True
    with unclaimed_fresh [OF s, of r] assms(3) show ?thesis by simp
  next
    case False
    with that have "i \<in> pendings (st b)" by (auto simp: pendings_def)
    with assms(1) show ?thesis by (simp add: cold_ok_def fresh_def)
  qed
  with s show ?thesis by (simp add: cold_ok_def)
qed

lemma cold_edit:
  assumes "cold_ok b"
    and f: "\<And>r. o_id (f r) = o_id r \<and> o_whatsapp_message_id (f r) = o_whatsapp_message_id r \<and>
      (o_status (f r) = ''pending'' \<longrightarrow> o_status r = ''pending'' \<or> o_whatsapp_message_id r = None)"
  shows "cold_ok (b\<lparr>st := set_outbound (map f) (st b)\<rparr>)"
proof -
  let ?b = "b\<lparr>st := set_outbound (map f) (st b)\<rparr>"
  have "claimed i m (set_outbound (map f) (st b)) = claimed i m (st b)" for i m
    using f by (simp add: claimed_def)
  moreover have "map o_id (map f rs) = map o_id rs" for rs using f by simp
  ultimately have s: "safe b" "safe ?b"
    using assms(1) by (simp_all add: cold_ok_def safe_def ids_distinct_def del: map_map)
  have "fresh b i" if i: "i \<in> pendings (st ?b)" for i
  proof -
    obtain r where r: "r \<in> set (wa_outbound (st b))" "i = o_id (f r)" "o_status (f r) = ''pending''"
      using i by (auto simp: pendings_def)
    then show ?thesis
      using f [of r] assms(1) unclaimed_fresh [OF s(1) r(1)] by (auto simp: cold_ok_def pendings_def)
  qed
  with s(2) show ?thesis by (simp add: cold_ok_def fresh_def)
qed

lemma cold_view_beside [simp]:
  "cold_view (s\<lparr>off := {}, logged := []\<rparr>) = cold_view s" "cold_view (s\<lparr>replies := rs\<rparr>) = cold_view s"
  "cold_view (s\<lparr>utc_now := u, server_now := v\<rparr>) = cold_view s"
  "cold_view (s\<lparr>missing_columns := cols\<rparr>) = cold_view s" "cold_view (set_typing g s) = cold_view s"
  "cold_view (set_chats h s) = cold_view s" "cold_view (set_pairing p s) = cold_view s"
  by (simp_all add: cold_view_def set_typing_def set_pairing_def)

lemma step_cold:
  assumes "bridge_step c w x y" "cold_ok (fst x)" "echoes_id w"
  shows "cold_ok (fst y)"
  using assms
proof (cases rule: bridge_step.cases)
  case sends
  with assms(2,3) show ?thesis by (simp add: cold_outbound)
next
  case web_queues
  with assms(2) show ?thesis by (simp add: cold_queue)
next
  case web_edits
  with assms(2) cold_edit show ?thesis by simp
qed (use assms(2) in \<open>auto intro!: cold_ok_same [OF _ _ assms(2)]
      simp: cold.R_loops memory_event memory_loops memory_online new_bridge_def\<close>)

lemma run_cold:
  assumes "bridge_run c w x y" "cold_ok (fst x)" "echoes_id w"
  shows "cold_ok (fst y)"
  using assms(1)
proof (induction rule: bridge_run.induct)
  case here
  from assms(2) show ?case .
next
  case (further y z)
  from step_cold [OF further.hyps(2) further.IH assms(3)] show ?case .
qed

text \<open>A process that has sent no cold message yet.\<close>

lemma cold_start:
  assumes "ids_distinct (st b)" "sent_map b = (\<lambda>_. None)" "NewChatSafety.sends (trace (st b)) = []"
  shows "cold_ok b"
proof -
  have "WaSend i t m \<notin> set (trace (st b))" for i t m
    using assms(3) cold_send_in [of i t m "trace (st b)"] by simp
  with assms(1,2) show ?thesis by (simp add: cold_ok_def safe_def fresh_def)
qed

section \<open>A concrete run\<close>

text \<open>
  The stamp of a send fails three times and the process restarts; the next tick sends again,
  under the claimed ID.
\<close>

definition cold_crash :: bridge where
  "cold_crash = outbound_tick sample_wa (sample_bridge\<lparr>st := (st sample_bridge)\<lparr>replies := Succeeds # crash_replies\<rparr>,
     files := (files sample_bridge)\<lparr>sftp_replies := []\<rparr>\<rparr>)"

definition cold_again :: bridge where
  "cold_again = outbound_tick sample_wa (new_bridge cold_crash)"

lemma cold_again_run: "bridge_run c sample_wa (sample_bridge, d) (cold_again, d)"
  unfolding cold_again_def cold_crash_def
  by (rule further [OF further [OF further [OF further [OF here bridge_step.network] bridge_step.sends]
      bridge_step.restarts] bridge_step.sends])

lemma cold_again_sends: "NewChatSafety.sends (trace (st cold_again)) =
    [WaSend 7 ''525512345678'' ''W1'', WaSend 7 ''525512345678'' ''W1'']"
  by code_simp

end
