(* ===== verification/NewChatDelivery.thy ===== *)
theory NewChatDelivery
  imports NewChat MessageLaws ChatLaws OutboundLaws
begin

text \<open>
  Progress of the new-chat path: on a healthy database and a WhatsApp that answers, every tick
  after the pause ends one waiting row, so a queue of n rows is empty after n such ticks, and
  every row that may be sent to a number on WhatsApp has been sent.
\<close>

section \<open>A healthy database\<close>

lemma migrated_off: "migrated s \<Longrightarrow> off s = {}"
  by (simp add: migrated_def)

lemma migrated_kept [simp]:
  "migrated s \<Longrightarrow> migrated (sent_off n s)" "migrated s \<Longrightarrow> migrated (emit e s)"
  "migrated s \<Longrightarrow> migrated (set_outbound f s)" "migrated s \<Longrightarrow> migrated (set_chats g s)"
  "migrated s \<Longrightarrow> migrated (set_messages h s)"
  by (simp_all add: migrated_def set_outbound_def emit_def)

lemmas healthy = Fallback_def FeatureOff_def migrated_off migrated_exec update_outbound_def writes_def

lemma healthy_fail: "migrated s \<Longrightarrow> \<exists>msg n. failNewChat oid c d s =
    set_outbound (update_where (\<lambda>r. o_id r = oid)
      (\<lambda>r. (failed_row outboundMaxAttempts msg (utc_now s) r)\<lparr>o_error_code := Some c\<rparr>)) (sent_off n s)"
  by (auto simp: failNewChat_def FailOutbound_def Let_def healthy)

lemma healthy_sent: "migrated s \<Longrightarrow> \<exists>n. MarkNewChatSent oid i s =
    (Inr (), set_outbound (update_where (\<lambda>r. o_id r = oid)
      (\<lambda>r. (sent_row i (utc_now s) r)\<lparr>o_error_code := None\<rparr>)) (sent_off n s))"
  by (auto simp: MarkNewChatSent_def healthy)

text \<open>Only the row \<open>oid\<close> changes.\<close>

definition only_row :: "int \<Rightarrow> store \<Rightarrow> store \<Rightarrow> bool" where
  "only_row oid s s' \<longleftrightarrow>
     (migrated s \<longrightarrow> migrated s' \<and> utc_now s' = utc_now s \<and> server_now s' = server_now s \<and>
        filter (\<lambda>r. o_id r \<noteq> oid) (wa_outbound s') = filter (\<lambda>r. o_id r \<noteq> oid) (wa_outbound s) \<and>
        map o_id (wa_outbound s') = map o_id (wa_outbound s))"

lemma only_row_trans: "only_row oid s s' \<Longrightarrow> only_row oid s' s'' \<Longrightarrow> only_row oid s s''"
  by (simp add: only_row_def)

lemma only_row_same:
  "(migrated s \<Longrightarrow> migrated s' \<and> wa_outbound s' = wa_outbound s \<and> utc_now s' = utc_now s \<and> server_now s' = server_now s) \<Longrightarrow>
    only_row oid s s'"
  by (simp add: only_row_def)

lemma only_row_update:
  assumes "\<And>r. o_id (f r) = o_id r" "\<And>r. p r \<Longrightarrow> o_id r = oid"
  shows "only_row oid s (set_outbound (update_where p f) (sent_off n s))"
proof -
  have "filter (\<lambda>r. o_id r \<noteq> oid) (update_where p f rs) = filter (\<lambda>r. o_id r \<noteq> oid) rs" for rs
    using assms by (induction rs) (auto simp: update_where_def)
  then show ?thesis by (simp add: only_row_def map_key_update_where assms)
qed

definition ended :: "string set \<Rightarrow> int \<Rightarrow> store \<Rightarrow> bool" where
  "ended S oid s \<longleftrightarrow> (\<forall>r \<in> set (wa_outbound s). o_id r = oid \<longrightarrow> o_status r \<in> S)"

lemma ended_update:
  "(\<And>r. o_id (f r) = o_id r) \<Longrightarrow> (\<And>r. o_status (f r) \<in> S) \<Longrightarrow>
    ended S oid (set_outbound (update_where (\<lambda>r. o_id r = oid) f) s)"
  by (auto simp: ended_def update_where_def)

lemma ended_keeps:
  assumes "\<And>r. o_id (f r) = o_id r" "\<And>r. o_status (f r) = o_status r"
    and "wa_outbound s' = wa_outbound s" "ended S oid s"
  shows "ended S oid (set_outbound (update_where p f) (sent_off n s'))"
  using assms(3,4) by (auto simp: ended_def update_where_def assms(1,2))

lemma fail_ends:
  assumes "migrated s" "''failed'' \<in> S"
  shows "only_row oid s (failNewChat oid c d s) \<and> ended S oid (failNewChat oid c d s)"
proof -
  obtain msg n where f: "failNewChat oid c d s = set_outbound (update_where (\<lambda>r. o_id r = oid)
      (\<lambda>r. (failed_row outboundMaxAttempts msg (utc_now s) r)\<lparr>o_error_code := Some c\<rparr>)) (sent_off n s)"
    using healthy_fail [OF assms(1)] by blast
  show ?thesis
    unfolding f using assms(2)
    by (intro conjI only_row_update ended_update) (simp_all add: failed_row_def)
qed

lemma healthy_insert:
  assumes "migrated s"
  shows "\<exists>s'. InsertMessage m s = (Inr (), s') \<and> migrated s' \<and> wa_outbound s' = wa_outbound s \<and>
    utc_now s' = utc_now s \<and> server_now s' = server_now s \<and> wa_chats s' = wa_chats s"
proof -
  have ins: "insertMessage m l s = (Inr (), snd (insert_ignore (if l then m else without_location m)
      (sent_off ''INSERT wa_messages'' s)))" for l
    using assms by (simp add: insertMessage_def Let_def healthy insert_ignore_def)
  have "\<exists>row. InsertMessage m s = (Inr (), snd (insert_ignore row (sent_off ''INSERT wa_messages'' s)))"
    using assms ins [of True] ins [of False] by (auto simp: InsertMessage_def Fallback_def FeatureOff_def migrated_off)
  then show ?thesis using assms by (auto simp: insert_ignore_def writes_def)
qed

text \<open>The writes after a send: the row keeps the status it has.\<close>

lemma healthy_finish_writes:
  assumes "migrated s" "ended S oid s"
  shows "only_row oid s (finish_writes oid wr s) \<and> ended S oid (finish_writes oid wr s)"
proof -
  obtain s1 where u: "UpsertChat (w_chat wr) s = (Inr (), s1)" "migrated s1" "wa_outbound s1 = wa_outbound s"
    "utc_now s1 = utc_now s" "server_now s1 = server_now s" "ch_jid (w_chat wr) \<in> c_jid ` set (wa_chats s1)"
    using assms(1) by (simp add: UpsertChat_def migrated_exec writes_def upserted_jid)
  obtain s2 where i: "InsertMessage (w_msg wr) s1 = (Inr (), s2)" "migrated s2" "wa_outbound s2 = wa_outbound s1"
    "utc_now s2 = utc_now s1" "server_now s2 = server_now s1" "wa_chats s2 = wa_chats s1"
    using healthy_insert [OF u(2)] by blast
  let ?s3 = "set_outbound (update_where (\<lambda>r. o_id r = oid) (\<lambda>r. r\<lparr>o_chat_jid := Some (ch_jid (w_chat wr))\<rparr>))
    (sent_off ''UPDATE wa_outbound chat_jid'' s2)"
  have c: "SetOutboundChat oid (ch_jid (w_chat wr)) s2 = (Inr (), ?s3)"
    using i u(6) by (simp add: SetOutboundChat_def migrated_exec)
  have "finish_writes oid wr s = ?s3"
    by (simp add: finish_writes_def storeRetry_quiet u(1) i(1) c)
  moreover have "only_row oid s ?s3"
  proof (rule only_row_trans)
    show "only_row oid s s2" by (rule only_row_same) (simp add: u i)
    show "only_row oid s2 ?s3" by (rule only_row_update) simp_all
  qed
  moreover have "ended S oid ?s3"
    by (rule ended_keeps [where s = s]) (simp_all add: assms(2) i(3) u(3))
  ultimately show ?thesis by simp
qed

section \<open>One tick\<close>

text \<open>\<open>settles S oid\<close>: the row ends with a status of \<open>S\<close> and no other row changes.\<close>

definition settles :: "string set \<Rightarrow> int \<Rightarrow> bridge \<Rightarrow> bridge \<Rightarrow> bool" where
  "settles S oid b b' \<longleftrightarrow> only_row oid (st b) (st b') \<and> ended S oid (st b') \<and> wall b' = wall b \<and>
     (last_lookup b' = last_lookup b \<or> last_lookup b' = Some (wall b))"

lemma settles_mono: "settles S oid b b' \<Longrightarrow> S \<subseteq> T \<Longrightarrow> settles T oid b b'"
  by (auto simp: settles_def ended_def)

lemma settles_after:
  "only_row oid (st b) (st b1) \<Longrightarrow> wall b1 = wall b \<Longrightarrow> last_lookup b1 \<in> {last_lookup b, Some (wall b)} \<Longrightarrow>
    settles S oid b1 b' \<Longrightarrow> settles S oid b b'"
  by (auto simp: settles_def intro: only_row_trans)

lemma settles_fail:
  assumes "migrated (st b)" "''failed'' \<in> S"
  shows "settles S oid b (b\<lparr>st := failNewChat oid c d (st b)\<rparr>)"
  using fail_ends [OF assms] by (simp add: settles_def)

lemma settles_finish:
  assumes "migrated (st b)"
  shows "settles {''sent''} oid b (finishNewChat oid wr b)"
proof -
  obtain n where m: "MarkNewChatSent oid (w_wa_id wr) (st b) = (Inr (),
      set_outbound (update_where (\<lambda>r. o_id r = oid)
        (\<lambda>r. (sent_row (w_wa_id wr) (utc_now (st b)) r)\<lparr>o_error_code := None\<rparr>)) (sent_off n (st b)))"
    using healthy_sent [OF assms] by blast
  define s1 where "s1 = snd (MarkNewChatSent oid (w_wa_id wr) (st b))"
  have r: "storeRetry (MarkNewChatSent oid (w_wa_id wr)) (st b) = (Inr (), s1)"
    by (simp add: storeRetry_quiet m s1_def)
  have 1: "only_row oid (st b) s1" "ended {''sent''} oid s1"
    unfolding s1_def m snd_conv by (intro only_row_update ended_update; simp add: sent_row_def)+
  then have "migrated s1" using assms by (simp add: only_row_def)
  from healthy_finish_writes [OF this 1(2), of wr] have
    "only_row oid (st b) (finish_writes oid wr s1)" "ended {''sent''} oid (finish_writes oid wr s1)"
    using only_row_trans [OF 1(1)] by auto
  then show ?thesis by (simp add: finishNewChat_def r settles_def)
qed

text \<open>
  What the path relies on: a send is accepted, and a lookup answers, with hits or without.
\<close>

definition answers :: "wa \<Rightarrow> bool" where
  "answers w \<longleftrightarrow> (\<forall>h j body i. \<exists>resp. send_text w h j body i = Inr resp) \<and>
     (\<forall>h p e. on_whatsapp w h p \<noteq> ([], Some e))"

definition reachable :: "wa \<Rightarrow> string \<Rightarrow> bool" where
  "reachable w p \<longleftrightarrow> (\<forall>h. case on_whatsapp w h p of
     ([], _) \<Rightarrow> False
   | (hit # _, _) \<Rightarrow> hit_is_in hit \<and> j_user (hit_jid hit) \<noteq> '''' \<and>
       j_server (hit_jid hit) \<in> {DefaultUserServer, HiddenUserServer})"

lemma settles_send:
  assumes "migrated (st b)" "answers w"
  shows "settles {''sent''} (n_id r) b (send_claimed w target hit r i b)"
proof -
  let ?s = "emit (WaSend (n_id r) (jid_string w target) i) (st b)"
  obtain resp where r: "send_text w (trace ?s) target (null_str (n_body r)) i = Inr resp"
    using assms(2) unfolding answers_def by blast
  define b1 where "b1 = b\<lparr>st := ?s, sent_map := (sent_map b)(n_id r := Some (new_chat_writes_of w (trace ?s) target hit r resp))\<rparr>"
  have "migrated (st b1)" using assms(1) by (simp add: b1_def)
  from settles_finish [OF this] have "settles {''sent''} (n_id r) b (finishNewChat (n_id r) wr b1)" for wr
    by (rule settles_after [rotated 3]) (simp_all add: b1_def only_row_same)
  moreover have "send_claimed w target hit r i b =
      finishNewChat (n_id r) (new_chat_writes_of w (trace ?s) target hit r resp) b1"
    using r by (simp only: send_claimed_def Let_def b1_def sum.case)
  ultimately show ?thesis by simp
qed

text \<open>The row as the tick reads it, with nothing or an ID in \<open>whatsapp_message_id\<close>.\<close>

definition read_from :: "new_chat_row \<Rightarrow> store \<Rightarrow> bool" where
  "read_from r s \<longleftrightarrow> distinct (map o_id (wa_outbound s)) \<and> n_wa_message_id r \<noteq> Some '''' \<and>
     (\<exists>z \<in> set (wa_outbound s). o_id z = n_id r \<and> o_status z = ''resolve'' \<and>
        o_whatsapp_message_id z = n_wa_message_id r)"

lemma read_claims:
  assumes "read_from r s" "n_wa_message_id r = None" "migrated s"
  shows "\<exists>s'. ClaimNewChatMessageID (n_id r) i s = (Inr True, s') \<and> only_row (n_id r) s s'"
proof -
  obtain z where z: "z \<in> set (wa_outbound s)" "o_id z = n_id r" "o_status z = ''resolve''"
    "o_whatsapp_message_id z = None"
    using assms(1,2) by (auto simp: read_from_def)
  have "row_by o_id (n_id r) (wa_outbound s) = Some z"
    using row_by_distinct [of o_id "wa_outbound s" z] assms(1) z by (simp add: read_from_def)
  then have "filter (claimable (n_id r)) (wa_outbound s) = [z]"
    using filter_by_key [of o_id "wa_outbound s" "n_id r" z "claimable (n_id r)"] assms(1) z
    by (simp add: read_from_def claimable_def)
  then have "ClaimNewChatMessageID (n_id r) i s = (Inr True, set_outbound (update_where (claimable (n_id r))
      (\<lambda>x. x\<lparr>o_whatsapp_message_id := Some i\<rparr>)) (sent_off ''UPDATE wa_outbound claim'' s))"
    using assms(3) by (simp add: ClaimNewChatMessageID_def migrated_exec)
  moreover have "only_row (n_id r) s (set_outbound (update_where (claimable (n_id r))
      (\<lambda>x. x\<lparr>o_whatsapp_message_id := Some i\<rparr>)) (sent_off ''UPDATE wa_outbound claim'' s))"
    by (rule only_row_update) (simp_all add: claimable_def)
  ultimately show ?thesis by blast
qed

lemma settles_claim:
  assumes "migrated (st b)" "answers w" "read_from r (st b)"
  shows "settles {''sent''} (n_id r) b (claim_and_send w target hit r b)"
proof (cases "n_wa_message_id r")
  case None
  obtain s1 where c: "ClaimNewChatMessageID (n_id r) (new_message_id w (trace (st b))) (st b) = (Inr True, s1)"
    "only_row (n_id r) (st b) s1"
    using read_claims [OF assms(3) None assms(1)] by blast
  then have "migrated (st (b\<lparr>st := s1\<rparr>))" using assms(1) by (simp add: only_row_def)
  from settles_send [OF this assms(2)] have
    "settles {''sent''} (n_id r) b (send_claimed w target hit r i (b\<lparr>st := s1\<rparr>))" for i
    by (rule settles_after [rotated 3]) (simp_all add: c)
  then show ?thesis by (simp add: claim_and_send_def None c)
next
  case (Some m)
  with assms(3) settles_send [OF assms(1,2)] show ?thesis
    by (simp add: claim_and_send_def read_from_def)
qed

lemma settles_lookup:
  assumes "migrated (st b)" "answers w" "read_from r (st b)"
  shows "settles (if reachable w phone then {''sent''} else {''sent'', ''failed''}) (n_id r) b
    (lookup_and_send w r phone b)"
proof -
  let ?S = "if reachable w phone then {''sent''} else {''sent'', ''failed''}"
  let ?b1 = "b\<lparr>last_lookup := Some (wall b), st := emit (WaLookup (n_id r) phone) (st b)\<rparr>"
  have first: "settles S (n_id r) b b'" if "settles S (n_id r) ?b1 b'" for S b'
    using that by (rule settles_after [rotated 3]) (simp_all add: only_row_same)
  have m: "migrated (st ?b1)" using assms(1) by simp
  have "read_from r (st ?b1)" using assms(3) by (simp add: read_from_def)
  from settles_claim [OF m assms(2) this]
  have c: "settles ?S (n_id r) b (claim_and_send w t hit r ?b1)" for t hit
    by (rule first [OF settles_mono]) simp
  have f: "settles {''sent'', ''failed''} (n_id r) b (?b1\<lparr>st := failNewChat (n_id r) code d (st ?b1)\<rparr>)" for code d
    by (rule first [OF settles_fail [OF m]]) simp
  show ?thesis
  proof (cases "on_whatsapp w (trace (st ?b1)) phone")
    case (Pair hits e)
    show ?thesis
    proof (cases hits)
      case Nil
      moreover have "e = None" using assms(2) Pair Nil unfolding answers_def by (cases e) blast+
      moreover have "\<not> reachable w phone"
        using Pair Nil unfolding reachable_def by (auto intro: exI [of _ "trace (st ?b1)"])
      ultimately show ?thesis using f Pair by (simp add: lookup_and_send_def Let_def)
    next
      case (Cons hit rest)
      have "reachable w phone \<Longrightarrow> hit_is_in hit \<and> j_user (hit_jid hit) \<noteq> '''' \<and>
          j_server (hit_jid hit) \<in> {DefaultUserServer, HiddenUserServer}"
        unfolding reachable_def by (drule spec [of _ "trace (st ?b1)"]) (use Pair Cons in auto)
      then show ?thesis using f c Pair Cons by (auto simp: lookup_and_send_def Let_def)
    qed
  qed
qed

text \<open>How a waiting row ends that is processed at the time \<open>now\<close> or before.\<close>

definition outcome :: "wa \<Rightarrow> int \<Rightarrow> outbound_row \<Rightarrow> string set" where
  "outcome w now z =
     (if seconds_between (o_created_at z) now \<le> newChatMaxAge div second \<and> o_kind z = Some ''text'' \<and>
         trim_space (null_str (o_body z)) \<noteq> '''' \<and> mxPhone (null_str (o_to_phone z)) \<and>
         reachable w (null_str (o_to_phone z))
      then {''sent''} else {''sent'', ''failed''})"

lemma outcome_mono: "now \<le> later \<Longrightarrow> outcome w now z \<subseteq> outcome w later z"
proof -
  assume "now \<le> later"
  then have "seconds_between t now \<le> seconds_between t later" for t
    by (auto simp: seconds_between_def second_def intro: zdiv_mono1 order_trans [of _ 0])
  then show ?thesis by (auto simp: outcome_def intro: order_trans)
qed

lemma settles_row:
  assumes "migrated (st b)" "answers w" "read_from r (st b)" "z \<in> set (wa_outbound (st b))"
    and "r = new_chat_row_of now z"
  shows "settles (outcome w now z) (o_id z) b (sendNewChatRow w r b)"
proof -
  have r: "n_id r = o_id z" "null_str (n_to_phone r) = null_str (o_to_phone z)"
    "n_expired r \<longleftrightarrow> \<not> seconds_between (o_created_at z) now \<le> newChatMaxAge div second"
    "null_str (n_kind r) = ''text'' \<longleftrightarrow> o_kind z = Some ''text''" "null_str (n_body r) = null_str (o_body z)"
    by (auto simp: assms(5) new_chat_row_of_def null_str_def split: option.split)
  have f: "settles {''sent'', ''failed''} (o_id z) b (b\<lparr>st := failNewChat (o_id z) code d (st b)\<rparr>)" for code d
    by (rule settles_fail [OF assms(1)]) simp
  have sent: "settles (outcome w now z) (o_id z) b b'" if "settles {''sent''} (o_id z) b b'" for b'
    using settles_mono [OF that] by (simp add: outcome_def)
  show ?thesis
  proof (cases "sent_map b (n_id r)")
    case (Some wr)
    then show ?thesis using sent [OF settles_finish [OF assms(1)]] r(1) by (simp add: sendNewChatRow_def)
  next
    case None
    then show ?thesis
      using f settles_lookup [OF assms(1-3), of "null_str (o_to_phone z)"]
      by (simp add: sendNewChatRow_def outcome_def r)
  qed
qed

section \<open>The queue\<close>

text \<open>
  Every waiting row may be tried now: its attempts are not used up, its backoff has passed, and
  it has no empty message ID.
\<close>

definition queue_ok :: "bridge \<Rightarrow> bool" where
  "queue_ok b \<longleftrightarrow> migrated (st b) \<and> distinct (map o_id (wa_outbound (st b))) \<and>
     (\<forall>z \<in> set (wa_outbound (st b)). o_status z = ''resolve'' \<longrightarrow>
        resolvable (utc_now (st b)) z \<and> o_whatsapp_message_id z \<noteq> Some '''') \<and>
     (\<forall>l. last_lookup b = Some l \<longrightarrow> l \<le> wall b)"

definition unresolved :: "bridge \<Rightarrow> outbound_row list" where
  "unresolved b = filter (\<lambda>z. o_status z = ''resolve'') (wa_outbound (st b))"

lemma tick_settles_one:
  assumes "queue_ok b" "answers w" "\<not> too_soon b" "unresolved b \<noteq> []"
  shows "\<exists>z \<in> set (unresolved b). settles (outcome w (server_now (st b)) z) (o_id z) b (processNewChats w b)"
proof -
  have m: "migrated (st b)" using assms(1) by (simp add: queue_ok_def)
  have rs: "filter (resolvable (utc_now (st b))) (wa_outbound (st b)) = unresolved b"
    using assms(1) unfolding unresolved_def queue_ok_def by (intro filter_cong) (auto simp: resolvable_def)
  obtain z rest where z: "sort_key o_id (unresolved b) = z # rest"
    using assms(4) by (metis neq_Nil_conv set_empty set_sort)
  then have "z \<in> set (sort_key o_id (unresolved b))" by simp
  then have zin: "z \<in> set (unresolved b)" by simp
  let ?s = "sent_off ''SELECT wa_outbound resolve'' (st b)"
  let ?r = "new_chat_row_of (server_now (st b)) z"
  have q: "Fallback featureNewChat queryResolveOutbound None None (st b) = (Inr (Some ?r), ?s)"
    using m by (simp add: healthy queryResolveOutbound_def selects_def first_resolvable_def rs z)
  have "read_from ?r (st (b\<lparr>st := ?s\<rparr>))"
    using assms(1) zin unfolding queue_ok_def by (auto simp: read_from_def new_chat_row_of_def unresolved_def)
  from settles_row [OF _ assms(2) this _ refl] m zin
  have "settles (outcome w (server_now (st b)) z) (o_id z) (b\<lparr>st := ?s\<rparr>) (sendNewChatRow w ?r (b\<lparr>st := ?s\<rparr>))"
    by (simp add: unresolved_def)
  then have "settles (outcome w (server_now (st b)) z) (o_id z) b (sendNewChatRow w ?r (b\<lparr>st := ?s\<rparr>))"
    by (rule settles_after [rotated 3]) (simp_all add: only_row_same)
  moreover have "processNewChats w b = sendNewChatRow w ?r (b\<lparr>st := ?s\<rparr>)"
    using assms(3) q m by (simp add: processNewChats_def FeatureOff_def migrated_off)
  ultimately show ?thesis using zin by auto
qed

text \<open>Time passes, then a tick comes; a run of ticks, each after its pause.\<close>

definition later :: "int \<Rightarrow> bridge \<Rightarrow> bridge" where
  "later d b = b\<lparr>wall := wall b + d,
     st := (st b)\<lparr>utc_now := utc_now (st b) + d, server_now := server_now (st b) + d\<rparr>\<rparr>"

fun ticks :: "wa \<Rightarrow> int list \<Rightarrow> bridge \<Rightarrow> bridge" where
  "ticks w [] b = b"
| "ticks w (d # ds) b = ticks w ds (processNewChats w (later d b))"

lemma queue_ok_later:
  assumes "queue_ok b" "newChatMinGap \<le> d"
  shows "queue_ok (later d b)" "\<not> too_soon (later d b)"
proof -
  have d: "0 \<le> d" using assms(2) by (simp add: newChatMinGap_def second_def)
  then have "backoff_passed now z \<Longrightarrow> backoff_passed (now + d) z" for now z
    by (simp add: backoff_passed_def split: option.splits)
  with assms(1) d show "queue_ok (later d b)"
    by (auto simp: queue_ok_def later_def migrated_def resolvable_def)
  show "\<not> too_soon (later d b)"
    using assms by (auto simp: queue_ok_def later_def too_soon_def split: option.split)
qed

text \<open>The rows after a run, against the rows before: what was waiting has ended, the rest is as it was.\<close>

definition drained :: "wa \<Rightarrow> int \<Rightarrow> outbound_row list \<Rightarrow> outbound_row list \<Rightarrow> bool" where
  "drained w now rs rs' \<longleftrightarrow> map o_id rs' = map o_id rs \<and>
     (\<forall>x \<in> set rs'. \<exists>z \<in> set rs. o_id z = o_id x \<and>
        (if o_status z = ''resolve'' then o_status x \<in> outcome w now z else x = z))"

lemma outcome_ends: "s \<in> outcome w now z \<Longrightarrow> s \<noteq> ''resolve''"
  by (auto simp: outcome_def split: if_splits)

text \<open>After a tick that settles one row.\<close>

lemma settled_queue:
  assumes "queue_ok b" "z \<in> set (unresolved b)" "settles (outcome w now z) (o_id z) b b'"
  shows "queue_ok b'" "length (unresolved b') < length (unresolved b)"
    and "server_now (st b') = server_now (st b)"
    and "map o_id (wa_outbound (st b')) = map o_id (wa_outbound (st b))"
    and "x \<in> set (wa_outbound (st b')) \<Longrightarrow>
      o_id x = o_id z \<and> o_status x \<in> outcome w now z \<or> o_id x \<noteq> o_id z \<and> x \<in> set (wa_outbound (st b))"
proof -
  have m: "migrated (st b)" using assms(1) by (simp add: queue_ok_def)
  from assms(3) m have s: "migrated (st b')" "utc_now (st b') = utc_now (st b)"
    and other: "filter (\<lambda>r. o_id r \<noteq> o_id z) (wa_outbound (st b')) = filter (\<lambda>r. o_id r \<noteq> o_id z) (wa_outbound (st b))"
    and e: "\<And>x. x \<in> set (wa_outbound (st b')) \<Longrightarrow> o_id x = o_id z \<Longrightarrow> o_status x \<in> outcome w now z"
    and l: "wall b' = wall b" "last_lookup b' = last_lookup b \<or> last_lookup b' = Some (wall b)"
    by (auto simp: settles_def only_row_def ended_def)
  show ids: "map o_id (wa_outbound (st b')) = map o_id (wa_outbound (st b))"
    and "server_now (st b') = server_now (st b)"
    using assms(3) m by (simp_all add: settles_def only_row_def)
  have same: "x \<in> set (wa_outbound (st b))" if "x \<in> set (wa_outbound (st b'))" "o_id x \<noteq> o_id z" for x
  proof -
    have "x \<in> set (filter (\<lambda>r. o_id r \<noteq> o_id z) (wa_outbound (st b')))" using that by simp
    then show ?thesis unfolding other by simp
  qed
  then show "x \<in> set (wa_outbound (st b')) \<Longrightarrow>
      o_id x = o_id z \<and> o_status x \<in> outcome w now z \<or> o_id x \<noteq> o_id z \<and> x \<in> set (wa_outbound (st b))"
    using e by blast
  have gone: "o_id x \<noteq> o_id z" if "x \<in> set (wa_outbound (st b'))" "o_status x = ''resolve''" for x
    using e [OF that(1)] that(2) outcome_ends by blast
  show "queue_ok b'"
    using assms(1) s ids l gone same unfolding queue_ok_def by auto
  have "unresolved b' = filter (\<lambda>x. o_status x = ''resolve'') (filter (\<lambda>r. o_id r \<noteq> o_id z) (wa_outbound (st b')))"
    unfolding unresolved_def filter_filter using gone by (intro filter_cong) auto
  also have "\<dots> = filter (\<lambda>x. o_id x \<noteq> o_id z) (unresolved b)"
    unfolding other unresolved_def filter_filter by (rule filter_cong) auto
  finally have u: "unresolved b' = filter (\<lambda>x. o_id x \<noteq> o_id z) (unresolved b)" .
  show "length (unresolved b') < length (unresolved b)"
    unfolding u using assms(2) by (intro length_filter_less) auto
qed

lemma drained_after:
  assumes "map o_id rs1 = map o_id rs" "z \<in> set rs" "o_status z = ''resolve''" "now1 \<le> now"
    and one: "\<And>x. x \<in> set rs1 \<Longrightarrow>
      o_id x = o_id z \<and> o_status x \<in> outcome w now1 z \<or> o_id x \<noteq> o_id z \<and> x \<in> set rs"
    and "drained w now rs1 rs2"
  shows "drained w now rs rs2"
proof -
  have "\<exists>q \<in> set rs. o_id q = o_id x \<and>
      (if o_status q = ''resolve'' then o_status x \<in> outcome w now q else x = q)" if x: "x \<in> set rs2" for x
  proof -
    obtain y where y: "y \<in> set rs1" "o_id y = o_id x"
      "if o_status y = ''resolve'' then o_status x \<in> outcome w now y else x = y"
      using assms(6) x by (auto simp: drained_def)
    from one [OF y(1)] show ?thesis
    proof
      assume a: "o_id y = o_id z \<and> o_status y \<in> outcome w now1 z"
      then have "x = y" using y(3) outcome_ends by (auto split: if_splits)
      with a assms(2,3) outcome_mono [OF assms(4)] show ?thesis by (intro bexI [of _ z]) auto
    qed (use y in blast)
  qed
  with assms(1,6) show ?thesis by (simp add: drained_def)
qed

lemma idle_tick:
  assumes "queue_ok b" "\<not> too_soon b" "unresolved b = []"
  shows "processNewChats w b = b\<lparr>st := sent_off ''SELECT wa_outbound resolve'' (st b)\<rparr>"
proof -
  have m: "migrated (st b)" using assms(1) by (simp add: queue_ok_def)
  have "filter (resolvable (utc_now (st b))) (wa_outbound (st b)) = []"
    using assms(3) by (auto simp: unresolved_def filter_empty_conv resolvable_def)
  then have "Fallback featureNewChat queryResolveOutbound None None (st b) =
      (Inr None, sent_off ''SELECT wa_outbound resolve'' (st b))"
    using m by (simp add: healthy queryResolveOutbound_def selects_def first_resolvable_def)
  then show ?thesis using assms(2) m by (simp add: processNewChats_def FeatureOff_def migrated_off)
qed

lemma queue_drains:
  assumes "queue_ok b" "answers w" "\<forall>d \<in> set ds. newChatMinGap \<le> d" "length (unresolved b) \<le> length ds"
    and "server_now (st b) + sum_list ds \<le> now"
  shows "drained w now (wa_outbound (st b)) (wa_outbound (st (ticks w ds b)))"
  using assms
proof (induction ds arbitrary: b)
  case Nil
  then have "\<forall>x \<in> set (wa_outbound (st b)). o_status x \<noteq> ''resolve''"
    by (simp add: unresolved_def filter_empty_conv)
  then show ?case by (auto simp: drained_def)
next
  case (Cons d ds)
  let ?b = "later d b"
  let ?b2 = "processNewChats w ?b"
  have "newChatMinGap \<le> d" using Cons.prems(3) by simp
  note q = queue_ok_later [OF Cons.prems(1) this]
  have fields: "wa_outbound (st ?b) = wa_outbound (st b)" "unresolved ?b = unresolved b"
    "server_now (st ?b) = server_now (st b) + d" by (simp_all add: later_def unresolved_def)
  show ?case
  proof (cases "unresolved b = []")
    case True
    let ?b1 = "?b\<lparr>st := sent_off ''SELECT wa_outbound resolve'' (st ?b)\<rparr>"
    have "?b2 = ?b1" using idle_tick [OF q] True by (simp add: fields)
    moreover have "queue_ok ?b1" using q(1) by (simp add: queue_ok_def)
    moreover have "unresolved ?b1 = []" using True fields by (simp add: unresolved_def)
    ultimately show ?thesis using Cons.IH [of ?b1] Cons.prems(2,3,5) by (simp add: fields)
  next
    case False
    then obtain z where z: "z \<in> set (unresolved ?b)"
      "settles (outcome w (server_now (st ?b)) z) (o_id z) ?b ?b2"
      using tick_settles_one [OF q(1) Cons.prems(2) q(2)] fields by auto
    note t = settled_queue [OF q(1) z]
    have rest: "drained w now (wa_outbound (st ?b2)) (wa_outbound (st (ticks w ds ?b2)))"
      using t(1-3) Cons.prems fields by (intro Cons.IH) simp_all
    have "0 \<le> sum_list ds"
      using Cons.prems(3) by (intro sum_list_nonneg) (auto simp: newChatMinGap_def second_def)
    then have "server_now (st ?b) \<le> now" using Cons.prems(5) by (simp add: fields)
    from drained_after [OF t(4) _ _ this t(5) rest] z(1) show ?thesis
      by (simp add: unresolved_def fields)
  qed
qed

text \<open>C4: On a healthy database and with a WhatsApp that answers, when every row waiting to be resolved may be tried now (attempts left, its pause over), as many ticks as there are rows waiting, each after the pause, end every waiting row; those with a text to a reachable +52 number that do not expire meanwhile are sent, and no other row changes.\<close>

theorem cold_queue_drains:
  assumes "queue_ok b" "answers w" "\<forall>d \<in> set ds. newChatMinGap \<le> d" "length (unresolved b) \<le> length ds"
  shows "drained w (server_now (st b) + sum_list ds) (wa_outbound (st b)) (wa_outbound (st (ticks w ds b)))"
  using assms by (intro queue_drains) simp_all

theorem cold_queue_drains_witness:
  "map o_status (wa_outbound (st (ticks sample_wa [newChatMinGap] sample_bridge))) = [''sent'']"
proof -
  let ?now = "server_now (st sample_bridge) + sum_list [newChatMinGap]"
  have q: "queue_ok sample_bridge" "length (unresolved sample_bridge) \<le> length [newChatMinGap]"
    by (simp_all add: queue_ok_def unresolved_def sample_bridge_def queued_row_def sample_outbound_def
        sample_defs migrated_def resolvable_def outboundMaxAttempts_def backoff_passed_def)
  have a: "answers sample_wa" by (simp add: answers_def sample_wa_def)
  define rs where "rs = wa_outbound (st (ticks sample_wa [newChatMinGap] sample_bridge))"
  have d: "drained sample_wa ?now [queued_row] rs"
    using cold_queue_drains [OF q(1) a _ q(2)] by (simp add: sample_bridge_def rs_def)
  then have "length rs = 1" using map_eq_imp_length_eq [of o_id rs o_id "[queued_row]"] by (simp add: drained_def)
  then obtain x where x: "rs = [x]" by (auto simp: length_Suc_conv)
  have "outcome sample_wa ?now queued_row = {''sent''}"
  proof -
    have "reachable sample_wa p" if "drop 1 p \<noteq> ''''" for p
      using that by (simp add: reachable_def sample_wa_def plain_jid_def)
    moreover have "o_to_phone queued_row = Some ''+525512345678''" by (simp add: queued_row_def)
    moreover have "seconds_between (o_created_at queued_row) ?now \<le> newChatMaxAge div second \<and>
        o_kind queued_row = Some ''text'' \<and> trim_space (null_str (o_body queued_row)) \<noteq> '''' \<and>
        mxPhone (null_str (o_to_phone queued_row))" by code_simp
    ultimately show ?thesis by (simp add: outcome_def)
  qed
  moreover have "o_status queued_row = ''resolve''" by (simp add: queued_row_def sample_outbound_def)
  ultimately have "o_status x = ''sent''" using d unfolding drained_def x by simp
  then have "map o_status rs = [''sent'']" by (simp add: x)
  then show ?thesis unfolding rs_def .
qed

end
