(* ===== verification/Spec2Isabelle.thy ===== *)
theory Spec2Isabelle
  imports MediaLaws Command Tunnel Resends TestDb Online ColdSends NewChatDelivery
begin

text \<open>
  wabridge, the bridge between a WhatsApp account and the MySQL tables of a web application.

  The program. \<open>cmd/wabridge/main.go\<close> supervises attempts: each opens an SSH tunnel
  (\<open>internal/tunnel\<close>), MySQL through it (\<open>internal/store\<close>), the media uploader over SFTP
  (\<open>internal/media\<close>) and the WhatsApp client (\<open>internal/wabridge\<close>), and ends with the first
  watcher that fails. While it runs, WhatsApp delivers events (messages, receipts, typing,
  history, log-outs), which become rows of \<open>wa_messages\<close> and \<open>wa_chats\<close>; the web application
  queues rows in \<open>wa_outbound\<close> and \<open>wa_typing_outbound\<close>, which two loops send; \<open>wa_pairing\<close>
  carries the QR code, the heartbeat and the reset request; a command line asks for number
  checks through two files.

  The model. Everything is a function on explicit states.

  \<^item> \<open>Prelude\<close>, \<open>GoText\<close>, \<open>GoFloat\<close>: updates of tables as lists, Go strings as bytes with the
    UTF-8 decoder, \<open>float64\<close> by exact rounding of rationals.
  \<^item> \<open>Sql\<close>: the rows and tables, the errors, and \<open>exec\<close>: a statement succeeds, fails, or runs
    while its answer is lost, as the list \<open>replies\<close> says; a missing column fails it. \<open>trace\<close>
    records what was done, and WhatsApp (\<open>wa\<close> in \<open>Whatsapp\<close>) is a record of functions of it.
  \<^item> \<open>StoreCore\<close> (\<open>Store\<close>, \<open>Fallback\<close>), \<open>StoreMessages\<close>, \<open>StoreChats\<close>, \<open>StoreOutbound\<close>:
    the methods of \<open>store.go\<close>; \<open>Pairing\<close>: \<open>pairing.go\<close>.
  \<^item> \<open>Media\<close>: \<open>media.go\<close>, \<open>thumbnail.go\<close>, \<open>pdf.go\<close>; the SFTP server is a map of files and a
    list of refusals.
  \<^item> \<open>Proto\<close>, \<open>Messages\<close>: the protobuf message as a list of fields, and \<open>messages.go\<close> with the
    classifier of \<open>wabridge.go\<close>.
  \<^item> \<open>Whatsapp\<close>, \<open>NewChat\<close>: addresses, attempts and retries, and \<open>newchat.go\<close> with the record
    \<open>bridge\<close>, the state of the process.
  \<^item> \<open>Inbound\<close>, \<open>Session\<close>, \<open>Outbound\<close>: the handlers, watchdogs and loops of \<open>wabridge.go\<close> and
    \<open>sendlocation.go\<close>, a tick or an event at a time.
  \<^item> \<open>CheckNumber\<close>: \<open>checknumber.go\<close>; \<open>Logfile\<close> and \<open>LogPipe\<close>: \<open>logfile.go\<close>, the rotating file
    and the pipe all output goes through; \<open>Service\<close>: \<open>config.go\<close>, the opening and closing of
    \<open>tunnel.go\<close>, an attempt and the supervisor of \<open>main.go\<close>; \<open>Tunnel\<close>: the goroutines of the
    port forward; \<open>Command\<close>: \<open>main\<close> with the command line.
  \<^item> \<open>TestDb\<close>: the recording driver of \<open>internal/testdb\<close>.
  \<^item> \<open>Machine\<close>: all of it as one step relation, with the web application, the network, time
    and restarts.

  The lemmas. The contract of a store method is the locale \<open>store_op\<close> (what \<open>evolves\<close> allows);
  \<open>StoreFrames\<close> has the locales of relations that a statement, a fallback and a retry keep,
  \<open>InboundLaws\<close> and \<open>SendLaws\<close> extend them to every handler and sender, and their
  interpretations say which tables each can touch. \<open>MessageLaws\<close>, \<open>ChatLaws\<close>, \<open>OutboundLaws\<close>,
  \<open>Pairing\<close> give the outcome of each method on every branch and the laws of runs of them;
  \<open>ContentLaws\<close> and \<open>MediaLaws\<close> the round trips of quotes and files; \<open>NewChatSafety\<close>,
  \<open>NewChatPacing\<close> and \<open>NewChatDelivery\<close> the safety, the pace and the progress of cold messages;
  \<open>Resends\<close> what a stamp that fails leads to; \<open>Service\<close> the attempts and pauses of the
  supervisor, \<open>Tunnel\<close> the sockets of the forward, \<open>Command\<close> the ways the process ends,
  \<open>LogPipe\<close> what reaches the log; \<open>Online\<close> the loops for the presence; \<open>Machine\<close>, \<open>ColdSends\<close>
  and this theory the composition. Samples for the witnesses are in \<open>Samples\<close> and at the end of each theory.

  Bounds and fuel. Containers are unwrapped eight times, as in the code, and the lemma on
  wrapping shows that this reaches the content for up to eight of them. Retries follow the list
  of delays. No other loop needs fuel: batches, histories and log lines are lists.

  Not modelled: the bytes that flow through the tunnel, SSH, image codecs and poppler, YAML,
  JSON, SHA-256 and the service manager (arguments), the warnings the program logs, and
  \<open>database/sql\<close> around the test driver. Handlers run one
  after the other, between two statements nothing else happens; a deadline of a context shows
  as a failed or lost statement. Where the code reads the clock inside a statement the model
  reads the clock of the state.
  In what state whatsmeow leaves a client by the end of an attempt (ended, connected or
  reconnecting) is an input of \<open>Service\<close>, and the garbage collection that closes the read end of
  the log's pipe an event of \<open>LogPipe\<close>. Whose address an address is, is an argument of the law on
  reactions; \<open>InboundLaws\<close> shows which addresses the aliases of an event cover.
\<close>

section \<open>The whole program\<close>

text \<open>C3: From well-formed tables, over any interleaving of events, outbound, typing and picture ticks, pairing, resets, number checks, web writes, network failures, time and restarts, the tables stay well-formed and no stored message is removed, reordered, moved to another chat or given to another author.\<close>

theorem session_keeps_tables:
  assumes "bridge_run c w (b, d) (b', d')" "tables_ok (st b)"
  shows "tables_ok (st b') \<and> prefix (map msg_key (wa_messages (st b))) (map msg_key (wa_messages (st b')))"
  using run_keeps [OF assms(1)] assms(2) by (simp add: keeps_def log_grows_def)

theorem session_keeps_tables_witness:
  "tables_ok (st (outbound_tick sample_wa (handleEvent sample_wa (MessageEvent hello_event) sample_bridge)))"
proof -
  define d where "d = \<lparr>req_file = None, res_file = None, disk_answers = []\<rparr>"
  have "bridge_run sample_codec sample_wa (sample_bridge, d)
      (outbound_tick sample_wa (handleEvent sample_wa (MessageEvent hello_event) sample_bridge), d)"
    by (rule further [OF further [OF here arrives] sends])
  moreover have "tables_ok (st sample_bridge)"
    by (simp add: sample_bridge_def queued_row_def sample_outbound_def tables_ok_def sample_defs)
  ultimately show ?thesis using session_keeps_tables by blast
qed

text \<open>C1: Over any interleaving of outbound ticks, events, crashes, restarts, lost answers, web edits and time, all sends of one cold message carry the same WhatsApp message ID, so its recipient sees it at most once.\<close>

theorem cold_messages_once:
  assumes "bridge_run c w (b, d) (b', d')" "echoes_id w"
    and "ids_distinct (st b)" "sent_map b = (\<lambda>_. None)" "NewChatSafety.sends (trace (st b)) = []"
    and "WaSend i t m \<in> set (trace (st b'))" "WaSend i t' m' \<in> set (trace (st b'))"
  shows "m = m'"
proof -
  have "safe b'"
    using run_cold [OF assms(1)] cold_start [OF assms(3-5)] assms(2) by (simp add: cold_ok_def)
  with assms(6,7) have "claimed i m (st b')" "claimed i m' (st b')" "ids_distinct (st b')"
    by (simp_all add: safe_def)
  then show ?thesis using claimed_unique by blast
qed

theorem cold_messages_once_witness:
  "{m. WaSend 7 ''525512345678'' m \<in> set (trace (st cold_again))} = {''W1''}"
proof -
  have "WaSend 7 ''525512345678'' ''W1'' \<in> set (NewChatSafety.sends (trace (st cold_again)))"
    by (simp add: cold_again_sends)
  then have s: "WaSend 7 ''525512345678'' ''W1'' \<in> set (trace (st cold_again))" by simp
  have "ids_distinct (st sample_bridge)" "sent_map sample_bridge = (\<lambda>_. None)"
    "NewChatSafety.sends (trace (st sample_bridge)) = []"
    using sample_bridge_safe(1)
    by (simp_all add: safe_def sample_bridge_def sample_defs NewChatSafety.sends_def)
  from cold_messages_once [OF cold_again_run sample_bridge_safe(2) this _ s] s
  show ?thesis by fast
qed

end
